theory Spec2Isabelle
  imports Main
begin

section \<open>Money: proportional distribution (server/utils/currency.js)\<close>

text \<open>
  Amounts are integer cents held in JavaScript numbers, that is in IEEE 754 doubles. A
  double is written here as a fraction \<open>(n, d)\<close> of integers with \<open>d\<close> a power of two,
  and every arithmetic operation of \<^verbatim>\<open>distributeProportionally\<close> is followed by
  the rounding to the nearest double (53 significant bits, ties to the even significand).
  The exponent range is taken unbounded: overflow to infinity and subnormal numbers, which
  need magnitudes beyond \<open>10 ^ 307\<close>, are outside the model.
\<close>

text \<open>The floor of the binary logarithm of a positive integer.\<close>

function ilog2 :: "int \<Rightarrow> nat" where
  "ilog2 n = (if n < 2 then 0 else Suc (ilog2 (n div 2)))"
  by pat_completeness auto
termination
  by (relation "measure nat") auto

declare ilog2.simps [simp del]

text \<open>The binary exponent \<open>e\<close> of a positive fraction: \<open>2 ^ e \<le> a / b < 2 ^ (e + 1)\<close>.\<close>

definition exponent :: "int \<Rightarrow> int \<Rightarrow> int" where
  "exponent a b =
     (if b \<le> a then int (ilog2 (a div b))
      else - int (Suc (ilog2 ((b + a - 1) div a - 1))))"

text \<open>The integer nearest to \<open>a / b\<close>, a tie going to the even one.\<close>

definition round_half_even :: "int \<Rightarrow> int \<Rightarrow> int" where
  "round_half_even a b =
     (let q = a div b; r = a mod b
      in if 2 * r < b then q else if b < 2 * r then q + 1
         else if even q then q else q + 1)"

text \<open>The double nearest to \<open>a / b\<close> for \<open>a \<ge> 0\<close> and \<open>b > 0\<close>: the quotient is rounded
  to a multiple of \<open>2 ^ (e - 52)\<close>.\<close>

definition nearest_double :: "int \<Rightarrow> int \<Rightarrow> int \<times> int" where
  "nearest_double a b =
     (if a = 0 then (0, 1)
      else
        let e = exponent a b in
        if 52 \<le> e
        then (let u = 2 ^ nat (e - 52) in (round_half_even a (b * u) * u, 1))
        else (let v = 2 ^ nat (52 - e) in (round_half_even (a * v) b, v)))"

text \<open>Rounding is symmetric in the sign.\<close>

definition signed_nearest :: "int \<Rightarrow> int \<Rightarrow> int \<times> int" where
  "signed_nearest a b =
     (let (n, d) = nearest_double \<bar>a\<bar> b in (sgn a * n, d))"

text \<open>\<^verbatim>\<open>x / y\<close> of two integer-valued doubles, \<open>y\<close> not zero.\<close>

definition double_div :: "int \<Rightarrow> int \<Rightarrow> int \<times> int" where
  "double_div x y = signed_nearest (sgn y * x) \<bar>y\<bar>"

text \<open>\<^verbatim>\<open>x * y\<close> of an integer-valued double and a double.\<close>

definition double_mul :: "int \<Rightarrow> int \<times> int \<Rightarrow> int \<times> int" where
  "double_mul x y = signed_nearest (x * fst y) (snd y)"

text \<open>\<^verbatim>\<open>Math.round\<close>: the floor of \<open>y + 1/2\<close>, so halves go towards plus infinity.\<close>

definition math_round :: "int \<times> int \<Rightarrow> int" where
  "math_round y = (2 * fst y + snd y) div (2 * snd y)"

text \<open>The double nearest to an integer; it is again an integer. This is the rounding of
  a sum or a difference of two integer-valued doubles.\<close>

definition double_int :: "int \<Rightarrow> int" where
  "double_int x = (let (n, d) = signed_nearest x 1 in n div d)"

text \<open>\<^verbatim>\<open>xs.reduce((sum, x) => sum + x, 0)\<close>, every partial sum rounded.\<close>

definition double_sum :: "int list \<Rightarrow> int" where
  "double_sum xs = foldl (\<lambda>sum x. double_int (sum + x)) 0 xs"

text \<open>
  The rounded share of one portion:
  \<^verbatim>\<open>Math.round(totalAmount * (portion / totalPortions))\<close>, with the quotient and the
  product each rounded to a double.
\<close>

definition round_share :: "int \<Rightarrow> int \<Rightarrow> int \<Rightarrow> int" where
  "round_share totalAmount portion totalPortions =
     math_round (double_mul totalAmount (double_div portion totalPortions))"

text \<open>
  \<^verbatim>\<open>distributed.reduce((maxIdx, val, idx, arr) => val > arr[maxIdx] ? idx : maxIdx, 0)\<close>:
  the first index holding the largest rounded share.
\<close>

definition largestIndex :: "int list \<Rightarrow> nat" where
  "largestIndex arr =
     fold (\<lambda>idx maxIdx. if arr ! idx > arr ! maxIdx then idx else maxIdx) [0..<length arr] 0"

text \<open>
  \<^verbatim>\<open>distributeProportionally(totalAmount, portions)\<close>, operation by operation in
  doubles: the two sums, the difference and the adjusted element are rounded as well. The
  update at \<open>largestIndex\<close> is only reached with a non-empty array (an empty one sums to 0
  and returns early), so the index is in range.
\<close>

definition distributeProportionally_double :: "int \<Rightarrow> int list \<Rightarrow> int list" where
  "distributeProportionally_double totalAmount portions =
     (let totalPortions = double_sum portions in
      if totalPortions = 0 then map (\<lambda>_. 0) portions
      else
        let distributed = map (\<lambda>portion. round_share totalAmount portion totalPortions) portions;
            distributedTotal = double_sum distributed;
            difference = double_int (totalAmount - distributedTotal)
        in if difference \<noteq> 0
           then distributed[largestIndex distributed :=
                  double_int (distributed ! largestIndex distributed + difference)]
           else distributed)"

text \<open>
  The same function with the sums, the difference and the adjustment taken in the
  integers, over an arbitrary share function. With the shares of the source
  (\<open>round_share\<close>) it agrees with \<open>distributeProportionally_double\<close> whenever the sum of
  the weights and the number of weights times the magnitude of the total stay below
  \<open>2 ^ 53\<close> (lemma \<open>distribute_double_agrees\<close>), which covers every amount a 32-bit
  \<^verbatim>\<open>INTEGER\<close> column of the schema can hold. The refund service is modelled with this
  form.
\<close>

definition distributeProportionally_with ::
  "(int \<Rightarrow> int \<Rightarrow> int \<Rightarrow> int) \<Rightarrow> int \<Rightarrow> int list \<Rightarrow> int list" where
  "distributeProportionally_with share totalAmount portions =
     (let totalPortions = sum_list portions in
      if totalPortions = 0 then map (\<lambda>_. 0) portions
      else
        let distributed = map (\<lambda>portion. share totalAmount portion totalPortions) portions;
            distributedTotal = sum_list distributed;
            difference = totalAmount - distributedTotal
        in if difference \<noteq> 0
           then distributed[largestIndex distributed :=
                  distributed ! largestIndex distributed + difference]
           else distributed)"

definition distributeProportionally :: "int \<Rightarrow> int list \<Rightarrow> int list" where
  "distributeProportionally = distributeProportionally_with round_share"

section \<open>Validation (server/utils/validation.js)\<close>

text \<open>
  A JSON value received where an amount is expected: a falsy value that is not a number
  (\<^verbatim>\<open>undefined\<close>, \<^verbatim>\<open>null\<close>, \<^verbatim>\<open>""\<close>, \<^verbatim>\<open>false\<close>) or \<^verbatim>\<open>NaN\<close>,
  a truthy value that is not a number, a number with a fractional part, or an integer.
\<close>

datatype json_amount = Falsy | NotNumber | Fractional | Cents int

datatype amount_error =
    MustBeNumber | MustBeInteger | BelowMinimum int | ExceedsMaximum int | MustBePositive

fun validateAmount :: "json_amount \<Rightarrow> int \<Rightarrow> int option \<Rightarrow> amount_error option" where
  "validateAmount Falsy minAmount maxAmount = Some MustBeNumber"
| "validateAmount NotNumber minAmount maxAmount = Some MustBeNumber"
| "validateAmount Fractional minAmount maxAmount = Some MustBeInteger"
| "validateAmount (Cents amount) minAmount maxAmount =
     (if amount < minAmount then Some (BelowMinimum minAmount)
      else if maxAmount \<noteq> None \<and> amount > the maxAmount then Some (ExceedsMaximum (the maxAmount))
      else if amount \<le> 0 then Some MustBePositive
      else None)"

datatype payment_amounts_error =
    AtLeastOnePayment | AtLeastTwoCards | MaximumFiveCards
  | PaymentInvalid nat amount_error | SumMismatch int int

text \<open>The \<^verbatim>\<open>for\<close> loop of \<^verbatim>\<open>validatePaymentAmounts\<close>: the first invalid amount, with its
  1-based position.\<close>

fun first_invalid_amount :: "nat \<Rightarrow> int list \<Rightarrow> payment_amounts_error option" where
  "first_invalid_amount i [] = None"
| "first_invalid_amount i (a # as) =
     (case validateAmount (Cents a) 100 None of
        Some e \<Rightarrow> Some (PaymentInvalid (i + 1) e)
      | None \<Rightarrow> first_invalid_amount (i + 1) as)"

definition validatePaymentAmounts :: "int \<Rightarrow> int list \<Rightarrow> payment_amounts_error option" where
  "validatePaymentAmounts totalAmount paymentAmounts =
     (if length paymentAmounts = 0 then Some AtLeastOnePayment
      else if length paymentAmounts < 2 then Some AtLeastTwoCards
      else if length paymentAmounts > 5 then Some MaximumFiveCards
      else case first_invalid_amount 0 paymentAmounts of
        Some e \<Rightarrow> Some e
      | None \<Rightarrow>
          let sum = sum_list paymentAmounts in
          if sum \<noteq> totalAmount then Some (SumMismatch sum totalAmount) else None)"

text \<open>Character classes of the two regular expressions.\<close>

definition is_alnum :: "char \<Rightarrow> bool" where
  "is_alnum c = (let n = (of_char c :: nat) in
     (48 \<le> n \<and> n \<le> 57) \<or> (65 \<le> n \<and> n \<le> 90) \<or> (97 \<le> n \<and> n \<le> 122))"

text \<open>\<^verbatim>\<open>/^[a-zA-Z0-9-]+\.myshopify\.com$/\<close>\<close>

definition validateShopDomain :: "string \<Rightarrow> bool" where
  "validateShopDomain shopDomain =
     (let suffix = ''.myshopify.com''; k = length shopDomain - length suffix in
      length suffix < length shopDomain \<and> drop k shopDomain = suffix
      \<and> list_all (\<lambda>c. is_alnum c \<or> c = CHR ''-'') (take k shopDomain))"

text \<open>\<^verbatim>\<open>/^[a-zA-Z0-9]{32,64}$/\<close>\<close>

definition validateCheckoutToken :: "string \<Rightarrow> bool" where
  "validateCheckoutToken token =
     (32 \<le> length token \<and> length token \<le> 64 \<and> list_all is_alnum token)"

text \<open>JavaScript truthiness of an optional string: absent and empty are falsy.\<close>

definition truthy :: "string option \<Rightarrow> bool" where
  "truthy s = (s \<noteq> None \<and> s \<noteq> Some [])"

text \<open>The decimal digits of a natural number, as a template literal prints it.\<close>

definition digit_char :: "nat \<Rightarrow> char" where
  "digit_char n = ''0123456789'' ! n"

fun decimal :: "nat \<Rightarrow> string" where
  "decimal n = (if n < 10 then [digit_char n] else decimal (n div 10) @ [digit_char (n mod 10)])"

declare decimal.simps [simp del]

definition decimal_int :: "int \<Rightarrow> string" where
  "decimal_int n = (if n < 0 then ''-'' @ decimal (nat (- n)) else decimal (nat n))"

section \<open>Durable store (server/db/migrations/001_initial_schema.sql, queries in src/unnamed/part_001 to part_003)\<close>

datatype payment_status =
    P_pending | P_authorized | P_captured | P_failed | P_voided | P_refunded

datatype transaction_status =
    T_pending | T_processing | T_completed | T_failed | T_refunded | T_partially_refunded

datatype refund_status = R_pending | R_succeeded | R_failed

record store =
  st_id :: nat
  st_shop_domain :: string
  st_is_active :: bool

record transaction_row =
  t_id :: nat
  t_store_id :: nat
  t_checkout_token :: string
  t_order_id :: "string option"
  t_order_number :: "string option"
  t_total_amount :: int
  t_status :: transaction_status
  t_failure_reason :: "string option"

record payment =
  p_id :: nat
  p_transaction_id :: nat
  p_stripe_payment_intent_id :: string
  p_amount :: int
  p_status :: payment_status
  p_failure_code :: "string option"
  p_failure_message :: "string option"

record refund =
  r_id :: nat
  r_transaction_id :: nat
  r_payment_id :: nat
  r_stripe_refund_id :: string
  r_amount :: int
  r_status :: refund_status

text \<open>The in-process session map of the widget routes (\<^verbatim>\<open>widgetSessions\<close>).\<close>

record session_payment =
  sp_paymentId :: nat
  sp_paymentIntentId :: string
  sp_amount :: int

record session =
  s_transactionId :: nat
  s_shopDomain :: string
  s_checkoutToken :: string
  s_payments :: "session_payment list"

text \<open>Calls made to the payment provider, in the order they are issued; the parallel
  calls of a fan-out are logged in list order.\<close>

datatype stripe_call =
    CreateIntent int | Retrieve string | Confirm string string
  | Capture string | Cancel string | CreateRefund string int

text \<open>
  The state the server works on: the four tables (rows in insertion order, which is
  \<^verbatim>\<open>created_at\<close> order), the session map, and the log of provider calls. Timestamps,
  card details and customer metadata are left out; database failures are not modelled.
\<close>

record world =
  stores :: "store list"
  transactions :: "transaction_row list"
  payments :: "payment list"
  refunds :: "refund list"
  widgetSessions :: "string \<rightharpoonup> session"
  stripe_calls :: "stripe_call list"

text \<open>A thrown JavaScript error: its \<^verbatim>\<open>code\<close> (if any) and its \<^verbatim>\<open>message\<close>.\<close>

record js_error =
  err_code :: "string option"
  err_message :: string

text \<open>
  The payment provider is outside the repository. Each operation is an oracle that
  answers from the calls made so far and its arguments; the theorems hold for every
  provider. Statuses are the provider's status strings.
\<close>

record stripe =
  paymentIntents_create :: "stripe_call list \<Rightarrow> int \<Rightarrow> js_error + (string \<times> string)"
  paymentIntents_retrieve :: "stripe_call list \<Rightarrow> string \<Rightarrow> js_error + string"
  paymentIntents_confirm :: "stripe_call list \<Rightarrow> string \<Rightarrow> string \<Rightarrow> js_error + string"
  paymentIntents_capture :: "stripe_call list \<Rightarrow> string \<Rightarrow> js_error option"
  paymentIntents_cancel :: "stripe_call list \<Rightarrow> string \<Rightarrow> js_error option"
  refunds_create :: "stripe_call list \<Rightarrow> string \<Rightarrow> int \<Rightarrow> js_error + (string \<times> string)"

text \<open>A serial primary key: larger than every id in the table.\<close>

definition next_id :: "nat list \<Rightarrow> nat" where
  "next_id ids = Suc (fold max ids 0)"

definition getStoreByDomain :: "world \<Rightarrow> string \<Rightarrow> store option" where
  "getStoreByDomain w shopDomain =
     find (\<lambda>s. st_shop_domain s = shopDomain \<and> st_is_active s) (stores w)"

definition getTransactionById :: "world \<Rightarrow> nat \<Rightarrow> transaction_row option" where
  "getTransactionById w transactionId = find (\<lambda>t. t_id t = transactionId) (transactions w)"

text \<open>\<^verbatim>\<open>ORDER BY created_at DESC LIMIT 1\<close>: the newest matching row.\<close>

definition getTransactionByCheckoutToken :: "world \<Rightarrow> string \<Rightarrow> transaction_row option" where
  "getTransactionByCheckoutToken w checkoutToken =
     find (\<lambda>t. t_checkout_token t = checkoutToken) (rev (transactions w))"

definition createTransaction :: "nat \<Rightarrow> string \<Rightarrow> int \<Rightarrow> world \<Rightarrow> transaction_row \<times> world" where
  "createTransaction storeId shopifyCheckoutToken totalAmount w =
     (let row = \<lparr>t_id = next_id (map t_id (transactions w)), t_store_id = storeId,
                 t_checkout_token = shopifyCheckoutToken, t_order_id = None,
                 t_order_number = None, t_total_amount = totalAmount,
                 t_status = T_pending, t_failure_reason = None\<rparr>
      in (row, w\<lparr>transactions := transactions w @ [row]\<rparr>))"

definition updateTransactionStatus ::
  "nat \<Rightarrow> transaction_status \<Rightarrow> string option \<Rightarrow> world \<Rightarrow> world" where
  "updateTransactionStatus transactionId status failureReason w =
     w\<lparr>transactions :=
         map (\<lambda>t. if t_id t = transactionId
                  then t\<lparr>t_status := status,
                         t_failure_reason :=
                           (if truthy failureReason then failureReason else t_failure_reason t)\<rparr>
                  else t)
             (transactions w)\<rparr>"

definition updateTransactionOrder :: "nat \<Rightarrow> string \<Rightarrow> string \<Rightarrow> world \<Rightarrow> world" where
  "updateTransactionOrder transactionId shopifyOrderId shopifyOrderNumber w =
     w\<lparr>transactions :=
         map (\<lambda>t. if t_id t = transactionId
                  then t\<lparr>t_order_id := Some shopifyOrderId,
                         t_order_number := Some shopifyOrderNumber\<rparr>
                  else t)
             (transactions w)\<rparr>"

text \<open>
  The insert into \<^verbatim>\<open>payments\<close>. The database refuses a row whose amount is outside
  the 32-bit \<^verbatim>\<open>INTEGER\<close> column, whose intent id is longer than the
  \<^verbatim>\<open>VARCHAR(255)\<close> column, or whose intent id is already in the table
  (\<^verbatim>\<open>UNIQUE\<close>); the query function logs the error and throws it again.
\<close>

definition createPayment ::
  "nat \<Rightarrow> string \<Rightarrow> int \<Rightarrow> world \<Rightarrow> js_error + (payment \<times> world)" where
  "createPayment transactionId stripePaymentIntentId amount w =
     (if amount < - 2147483648 \<or> 2147483647 < amount
      then Inl \<lparr>err_code = Some ''22003'',
                err_message = ''value '' @ [CHR 0x22] @ decimal_int amount @ [CHR 0x22]
                                @ '' is out of range for type integer''\<rparr>
      else if 255 < length stripePaymentIntentId
      then Inl \<lparr>err_code = Some ''22001'',
                err_message = ''value too long for type character varying(255)''\<rparr>
      else if stripePaymentIntentId \<in> set (map p_stripe_payment_intent_id (payments w))
      then Inl \<lparr>err_code = Some ''23505'',
                err_message = ''duplicate key value violates unique constraint ''
                                @ [CHR 0x22] @ ''payments_stripe_payment_intent_id_key''
                                @ [CHR 0x22]\<rparr>
      else
        let row = \<lparr>p_id = next_id (map p_id (payments w)), p_transaction_id = transactionId,
                   p_stripe_payment_intent_id = stripePaymentIntentId, p_amount = amount,
                   p_status = P_pending, p_failure_code = None, p_failure_message = None\<rparr>
        in Inr (row, w\<lparr>payments := payments w @ [row]\<rparr>))"

definition getPaymentByPaymentIntentId :: "world \<Rightarrow> string \<Rightarrow> payment option" where
  "getPaymentByPaymentIntentId w stripePaymentIntentId =
     find (\<lambda>p. p_stripe_payment_intent_id p = stripePaymentIntentId) (payments w)"

definition getPaymentsByTransactionId :: "world \<Rightarrow> nat \<Rightarrow> payment list" where
  "getPaymentsByTransactionId w transactionId =
     filter (\<lambda>p. p_transaction_id p = transactionId) (payments w)"

text \<open>The failure message is only written when a failure code is given.\<close>

definition updatePaymentStatus ::
  "nat \<Rightarrow> payment_status \<Rightarrow> string option \<Rightarrow> string option \<Rightarrow> world \<Rightarrow> world" where
  "updatePaymentStatus paymentId status failureCode failureMessage w =
     w\<lparr>payments :=
         map (\<lambda>p. if p_id p = paymentId
                  then p\<lparr>p_status := status,
                         p_failure_code :=
                           (if truthy failureCode then failureCode else p_failure_code p),
                         p_failure_message :=
                           (if truthy failureCode \<and> truthy failureMessage then failureMessage
                            else p_failure_message p)\<rparr>
                  else p)
             (payments w)\<rparr>"

definition createRefund ::
  "nat \<Rightarrow> nat \<Rightarrow> string \<Rightarrow> int \<Rightarrow> refund_status \<Rightarrow> world \<Rightarrow> refund \<times> world" where
  "createRefund transactionId paymentId stripeRefundId amount status w =
     (let row = \<lparr>r_id = next_id (map r_id (refunds w)), r_transaction_id = transactionId,
                 r_payment_id = paymentId, r_stripe_refund_id = stripeRefundId,
                 r_amount = amount, r_status = status\<rparr>
      in (row, w\<lparr>refunds := refunds w @ [row]\<rparr>))"

text \<open>\<^verbatim>\<open>ORDER BY created_at DESC\<close>\<close>

definition getRefundsByTransactionId :: "world \<Rightarrow> nat \<Rightarrow> refund list" where
  "getRefundsByTransactionId w transactionId =
     rev (filter (\<lambda>r. r_transaction_id r = transactionId) (refunds w))"

section \<open>Payment service (server/services/paymentService.js)\<close>

definition call :: "stripe_call \<Rightarrow> world \<Rightarrow> world" where
  "call c w = w\<lparr>stripe_calls := stripe_calls w @ [c]\<rparr>"

definition createPaymentIntent ::
  "stripe \<Rightarrow> int \<Rightarrow> world \<Rightarrow> world \<times> (js_error + (string \<times> string))" where
  "createPaymentIntent stripe amount w =
     (call (CreateIntent amount) w, paymentIntents_create stripe (stripe_calls w) amount)"

text \<open>The provider's "already in final state" error counts as a successful cancel.\<close>

definition cancelPaymentIntent :: "stripe \<Rightarrow> string \<Rightarrow> world \<Rightarrow> world \<times> (js_error + bool)" where
  "cancelPaymentIntent stripe paymentIntentId w =
     (call (Cancel paymentIntentId) w,
      case paymentIntents_cancel stripe (stripe_calls w) paymentIntentId of
        None \<Rightarrow> Inr True
      | Some error \<Rightarrow>
          if err_code error = Some ''payment_intent_unexpected_state'' then Inr True
          else Inl error)"

text \<open>\<^verbatim>\<open>Promise.allSettled\<close> over the cancels: failures are logged and dropped. The
  parallel calls are taken in list order.\<close>

definition cancelPaymentIntents :: "stripe \<Rightarrow> string list \<Rightarrow> world \<Rightarrow> world" where
  "cancelPaymentIntents stripe paymentIntentIds w =
     fold (\<lambda>id w'. fst (cancelPaymentIntent stripe id w')) paymentIntentIds w"

definition capturePaymentIntent :: "stripe \<Rightarrow> string \<Rightarrow> world \<Rightarrow> world \<times> js_error option" where
  "capturePaymentIntent stripe paymentIntentId w =
     (call (Capture paymentIntentId) w,
      paymentIntents_capture stripe (stripe_calls w) paymentIntentId)"

text \<open>An entry of the \<^verbatim>\<open>payments\<close> parameter of \<^verbatim>\<open>completeCheckout\<close>.\<close>

record checkout_payment =
  cp_paymentId :: nat
  cp_paymentIntentId :: string
  cp_paymentMethodId :: string
  cp_amount :: int

text \<open>A settled promise of the authorization fan-out.\<close>

datatype settled = Fulfilled | Rejected js_error

text \<open>
  \<^verbatim>\<open>Promise.allSettled(payments.map(async (payment) => ...))\<close>. Each callback runs
  up to its first \<^verbatim>\<open>await\<close> when \<^verbatim>\<open>map\<close> calls it, so every retrieve request is
  issued, in list order, before any answer is handled. The answers are taken to arrive in
  list order.
\<close>

fun retrieve_all ::
  "stripe \<Rightarrow> checkout_payment list \<Rightarrow> world \<Rightarrow> world \<times> (js_error + string) list" where
  "retrieve_all stripe [] w = (w, [])"
| "retrieve_all stripe (payment # rest) w =
     (let retrieved = paymentIntents_retrieve stripe (stripe_calls w) (cp_paymentIntentId payment);
          (w1, answers) = retrieve_all stripe rest (call (Retrieve (cp_paymentIntentId payment)) w)
      in (w1, retrieved # answers))"

text \<open>The rest of the callback, from the answer of the retrieve on.\<close>

definition authorize ::
  "stripe \<Rightarrow> checkout_payment \<Rightarrow> js_error + string \<Rightarrow> world \<Rightarrow> world \<times> settled" where
  "authorize stripe payment retrieved w =
     (case retrieved of
        Inl error \<Rightarrow> (w, Rejected error)
      | Inr status \<Rightarrow>
          if status = ''requires_capture'' \<or> status = ''succeeded'' then (w, Fulfilled)
          else
            let id = cp_paymentIntentId payment;
                w1 = call (Confirm id (cp_paymentMethodId payment)) w
            in case paymentIntents_confirm stripe (stripe_calls w) id
                      (cp_paymentMethodId payment) of
                 Inl error \<Rightarrow> (w1, Rejected error)
               | Inr confirmed \<Rightarrow>
                   if confirmed = ''requires_action''
                   then (w1, Rejected \<lparr>err_code = None, err_message =
                     ''3D Secure authentication required - should be handled on frontend''\<rparr>)
                   else if confirmed \<noteq> ''requires_capture'' \<and> confirmed \<noteq> ''succeeded''
                   then (w1, Rejected \<lparr>err_code = None, err_message =
                     ''PaymentIntent in unexpected state: '' @ confirmed\<rparr>)
                   else (w1, Fulfilled))"

fun authorize_each ::
  "stripe \<Rightarrow> (checkout_payment \<times> (js_error + string)) list \<Rightarrow> world
   \<Rightarrow> world \<times> settled list" where
  "authorize_each stripe [] w = (w, [])"
| "authorize_each stripe ((payment, retrieved) # rest) w =
     (let (w1, result) = authorize stripe payment retrieved w;
          (w2, results) = authorize_each stripe rest w1
      in (w2, result # results))"

definition authorize_all ::
  "stripe \<Rightarrow> checkout_payment list \<Rightarrow> world \<Rightarrow> world \<times> settled list" where
  "authorize_all stripe payments_in w =
     (let (w1, answers) = retrieve_all stripe payments_in w
      in authorize_each stripe (zip payments_in answers) w1)"

text \<open>\<^verbatim>\<open>for (const piId of authorizedPayments)\<close>: mark the cancelled payments voided.\<close>

fun void_authorized :: "string list \<Rightarrow> world \<Rightarrow> world" where
  "void_authorized [] w = w"
| "void_authorized (piId # rest) w =
     void_authorized rest
       (case getPaymentByPaymentIntentId w piId of
          None \<Rightarrow> w
        | Some paymentRecord \<Rightarrow> updatePaymentStatus (p_id paymentRecord) P_voided None None w)"

text \<open>Errors thrown inside the \<^verbatim>\<open>try\<close> block of \<^verbatim>\<open>completeCheckout\<close>.\<close>

datatype thrown = CardPaymentFailed string | CaptureFailed

fun thrown_message :: "thrown \<Rightarrow> string" where
  "thrown_message (CardPaymentFailed error) = ''Card payment failed: '' @ error"
| "thrown_message CaptureFailed = ''Payment capture failed - transaction voided''"

text \<open>
  The loop \<^verbatim>\<open>for (let i = 0; i < authorizationResults.length; i++)\<close>, started with the
  payments zipped with their results and \<^verbatim>\<open>authorizedPayments = []\<close>. At the first
  rejected result it compensates the payments collected so far and throws.
\<close>

fun check_authorizations ::
  "stripe \<Rightarrow> nat \<Rightarrow> (checkout_payment \<times> settled) list \<Rightarrow> string list \<Rightarrow> world
   \<Rightarrow> world \<times> (thrown + string list)" where
  "check_authorizations stripe transactionId [] authorizedPayments w =
     (w, Inr authorizedPayments)"
| "check_authorizations stripe transactionId ((payment, Fulfilled) # rest) authorizedPayments w =
     check_authorizations stripe transactionId rest
       (authorizedPayments @ [cp_paymentIntentId payment])
       (updatePaymentStatus (cp_paymentId payment) P_authorized None None w)"
| "check_authorizations stripe transactionId ((payment, Rejected reason) # rest)
       authorizedPayments w =
     (let error = (if err_message reason \<noteq> [] then err_message reason
                   else ''Authorization failed'');
          w1 = updatePaymentStatus (cp_paymentId payment) P_failed (err_code reason)
                 (Some (err_message reason)) w;
          w2 = (if length authorizedPayments > 0
                then void_authorized authorizedPayments
                       (cancelPaymentIntents stripe authorizedPayments w1)
                else w1);
          w3 = updateTransactionStatus transactionId T_failed
                 (Some (''Payment failed: '' @ error)) w2
      in (w3, Inl (CardPaymentFailed error)))"

text \<open>\<^verbatim>\<open>Promise.allSettled(authorizedPayments.map(piId => capturePaymentIntent(piId)))\<close>\<close>

fun capture_all :: "stripe \<Rightarrow> string list \<Rightarrow> world \<Rightarrow> world \<times> js_error option list" where
  "capture_all stripe [] w = (w, [])"
| "capture_all stripe (piId # rest) w =
     (let (w1, result) = capturePaymentIntent stripe piId w;
          (w2, results) = capture_all stripe rest w1
      in (w2, result # results))"

text \<open>The loop over \<^verbatim>\<open>captureResults\<close>: returns \<^verbatim>\<open>failedCaptures\<close>.\<close>

fun check_captures :: "(string \<times> js_error option) list \<Rightarrow> world \<Rightarrow> world \<times> string list" where
  "check_captures [] w = (w, [])"
| "check_captures ((piId, None) # rest) w =
     check_captures rest
       (case getPaymentByPaymentIntentId w piId of
          None \<Rightarrow> w
        | Some paymentRecord \<Rightarrow> updatePaymentStatus (p_id paymentRecord) P_captured None None w)"
| "check_captures ((piId, Some reason) # rest) w =
     (let (w1, failedCaptures) = check_captures rest w in (w1, piId # failedCaptures))"

text \<open>The \<^verbatim>\<open>try\<close> block of \<^verbatim>\<open>completeCheckout\<close>.\<close>

definition checkout_try ::
  "stripe \<Rightarrow> nat \<Rightarrow> checkout_payment list \<Rightarrow> world \<Rightarrow> world \<times> (thrown + unit)" where
  "checkout_try stripe transactionId payments_in w =
     (let (w1, authorizationResults) = authorize_all stripe payments_in w
      in case check_authorizations stripe transactionId
                (zip payments_in authorizationResults) [] w1 of
           (w2, Inl error) \<Rightarrow> (w2, Inl error)
         | (w2, Inr authorizedPayments) \<Rightarrow>
             let (w3, captureResults) = capture_all stripe authorizedPayments w2;
                 (w4, failedCaptures) =
                   check_captures (zip authorizedPayments captureResults) w3
             in if length failedCaptures > 0
                then (updateTransactionStatus transactionId T_failed
                        (Some ''Capture failed after authorization'')
                        (cancelPaymentIntents stripe failedCaptures w4),
                      Inl CaptureFailed)
                else (updateTransactionStatus transactionId T_completed None w4, Inr ()))"

datatype checkout_error =
    ValidationFailed payment_amounts_error | TransactionNotFound | Thrown thrown

text \<open>\<^verbatim>\<open>completeCheckout({ transactionId, payments, totalAmount })\<close>; the \<^verbatim>\<open>catch\<close>
  block marks the transaction failed with the message of the error and rethrows.\<close>

definition completeCheckout ::
  "stripe \<Rightarrow> nat \<Rightarrow> checkout_payment list \<Rightarrow> int \<Rightarrow> world
   \<Rightarrow> world \<times> (checkout_error + unit)" where
  "completeCheckout stripe transactionId payments_in totalAmount w =
     (case validatePaymentAmounts totalAmount (map cp_amount payments_in) of
        Some error \<Rightarrow> (w, Inl (ValidationFailed error))
      | None \<Rightarrow>
          (case getTransactionById w transactionId of
             None \<Rightarrow> (w, Inl TransactionNotFound)
           | Some transaction \<Rightarrow>
               (case checkout_try stripe transactionId payments_in
                        (updateTransactionStatus transactionId T_processing None w) of
                  (w1, Inl error) \<Rightarrow>
                    (updateTransactionStatus transactionId T_failed
                       (Some (thrown_message error)) w1,
                     Inl (Thrown error))
                | (w1, Inr done) \<Rightarrow> (w1, Inr done))))"

section \<open>Refund service (refundService.js, second part of server/services/paymentService.js)\<close>

record refund_split =
  rs_paymentId :: nat
  rs_stripePaymentIntentId :: string
  rs_originalAmount :: int
  rs_refundAmount :: int

definition calculateProportionalRefunds :: "payment list \<Rightarrow> int \<Rightarrow> refund_split list" where
  "calculateProportionalRefunds payments_in refundAmount =
     (let paymentAmounts = map p_amount payments_in;
          refundAmounts = distributeProportionally refundAmount paymentAmounts
      in map (\<lambda>(payment, index).
                \<lparr>rs_paymentId = p_id payment,
                 rs_stripePaymentIntentId = p_stripe_payment_intent_id payment,
                 rs_originalAmount = p_amount payment,
                 rs_refundAmount = refundAmounts ! index\<rparr>)
             (zip payments_in [0..<length payments_in]))"

text \<open>An entry of \<^verbatim>\<open>refundResults\<close>: a created refund with the provider's status, or a
  failure with its message (its status is \<^verbatim>\<open>'failed'\<close>).\<close>

datatype refund_result =
    RefundCreated nat nat string int string
  | RefundFailed nat string

fun refund_result_status :: "refund_result \<Rightarrow> string" where
  "refund_result_status (RefundCreated paymentId refundId stripeRefundId amount status) = status"
| "refund_result_status (RefundFailed paymentId error) = ''failed''"

text \<open>
  The loop \<^verbatim>\<open>for (const refundSplit of nonZeroRefunds)\<close>. A split whose payment is not
  captured is skipped (\<^verbatim>\<open>continue\<close>) and leaves no entry; an error inside the
  \<^verbatim>\<open>try\<close> leaves a failed entry and the loop goes on. The provider is taken to issue
  fresh refund ids, so the insert does not fail.
\<close>

fun process_splits ::
  "stripe \<Rightarrow> nat \<Rightarrow> refund_split list \<Rightarrow> world \<Rightarrow> world \<times> refund_result list" where
  "process_splits stripe transactionId [] w = (w, [])"
| "process_splits stripe transactionId (refundSplit # rest) w =
     (case getPaymentByPaymentIntentId w (rs_stripePaymentIntentId refundSplit) of
        None \<Rightarrow>
          (let (w1, results) = process_splits stripe transactionId rest w
           in (w1, RefundFailed (rs_paymentId refundSplit)
                     (''Payment not found: '' @ rs_stripePaymentIntentId refundSplit) # results))
      | Some payment \<Rightarrow>
          if p_status payment \<noteq> P_captured then process_splits stripe transactionId rest w
          else
            (let w1 = call (CreateRefund (rs_stripePaymentIntentId refundSplit)
                              (rs_refundAmount refundSplit)) w
             in case refunds_create stripe (stripe_calls w)
                       (rs_stripePaymentIntentId refundSplit) (rs_refundAmount refundSplit) of
                  Inl error \<Rightarrow>
                    (let (w2, results) = process_splits stripe transactionId rest w1
                     in (w2, RefundFailed (rs_paymentId refundSplit) (err_message error)
                               # results))
                | Inr (refundId, status) \<Rightarrow>
                    (let (refundRecord, w2) =
                           createRefund transactionId (p_id payment) refundId
                             (rs_refundAmount refundSplit)
                             (if status = ''succeeded'' then R_succeeded else R_pending) w1;
                         (w3, results) = process_splits stripe transactionId rest w2
                     in (w3, RefundCreated (p_id payment) (r_id refundRecord) refundId
                               (rs_refundAmount refundSplit) status # results))))"

datatype refund_error =
    RefundTransactionNotFound | OnlyCompletedTransactions | NoPaymentsFound
  | ExceedsRemainingRefundable int int | TooSmallToDistribute

record refund_outcome =
  ro_success :: bool
  ro_refunds :: "refund_result list"
  ro_totalRefunded :: int
  ro_transactionStatus :: transaction_status

text \<open>\<^verbatim>\<open>processRefund({ transactionId, refundAmount })\<close>. The \<^verbatim>\<open>reason\<close> and
  \<^verbatim>\<open>initiatedBy\<close> parameters are only passed through and are left out. The amounts
  read from the tables are those of 32-bit \<^verbatim>\<open>INTEGER\<close> columns; the sum of the
  refunds, the remaining amount and the new total are taken in the integers, which is what
  the doubles of the source give as long as the magnitudes stay below \<open>2 ^ 53\<close>.\<close>

definition processRefund ::
  "stripe \<Rightarrow> nat \<Rightarrow> int \<Rightarrow> world \<Rightarrow> world \<times> (refund_error + refund_outcome)" where
  "processRefund stripe transactionId refundAmount w =
     (case getTransactionById w transactionId of
        None \<Rightarrow> (w, Inl RefundTransactionNotFound)
      | Some transaction \<Rightarrow>
          if t_status transaction \<noteq> T_completed then (w, Inl OnlyCompletedTransactions)
          else
            let payments_found = getPaymentsByTransactionId w transactionId in
            if length payments_found = 0 then (w, Inl NoPaymentsFound)
            else
              let existingRefunds = getRefundsByTransactionId w transactionId;
                  totalRefunded =
                    sum_list (map r_amount
                      (filter (\<lambda>r. r_status r = R_succeeded) existingRefunds));
                  remainingRefundable = t_total_amount transaction - totalRefunded
              in
              if refundAmount > remainingRefundable
              then (w, Inl (ExceedsRemainingRefundable refundAmount remainingRefundable))
              else
                let refundSplits = calculateProportionalRefunds payments_found refundAmount;
                    nonZeroRefunds = filter (\<lambda>r. rs_refundAmount r > 0) refundSplits
                in
                if length nonZeroRefunds = 0 then (w, Inl TooSmallToDistribute)
                else
                  let (w1, refundResults) =
                        process_splits stripe transactionId nonZeroRefunds w;
                      newTotalRefunded = totalRefunded + refundAmount;
                      w2 = (if newTotalRefunded \<ge> t_total_amount transaction
                            then updateTransactionStatus transactionId T_refunded None w1
                            else if newTotalRefunded > 0
                            then updateTransactionStatus transactionId T_partially_refunded
                                   None w1
                            else w1);
                      allSucceeded =
                        list_all (\<lambda>r. refund_result_status r = ''succeeded''
                                       \<or> refund_result_status r = ''pending'') refundResults
                  in (w2, Inr \<lparr>ro_success = allSucceeded, ro_refunds = refundResults,
                               ro_totalRefunded = newTotalRefunded,
                               ro_transactionStatus =
                                 (if newTotalRefunded \<ge> t_total_amount transaction
                                  then T_refunded else T_partially_refunded)\<rparr>))"

section \<open>Provider webhooks (stripe webhook route, second part of server/routes/admin.js)\<close>

definition handlePaymentIntentSucceeded :: "string \<Rightarrow> world \<Rightarrow> world" where
  "handlePaymentIntentSucceeded paymentIntentId w =
     (case getPaymentByPaymentIntentId w paymentIntentId of
        Some payment \<Rightarrow>
          if p_status payment \<noteq> P_captured
          then updatePaymentStatus (p_id payment) P_captured None None w
          else w
      | None \<Rightarrow> w)"

text \<open>\<^verbatim>\<open>last_payment_error\<close> may be absent: \<^verbatim>\<open>error?.code\<close>, \<^verbatim>\<open>error?.message\<close>.\<close>

definition handlePaymentIntentFailed :: "string \<Rightarrow> js_error option \<Rightarrow> world \<Rightarrow> world" where
  "handlePaymentIntentFailed paymentIntentId last_payment_error w =
     (case getPaymentByPaymentIntentId w paymentIntentId of
        Some payment \<Rightarrow>
          updatePaymentStatus (p_id payment) P_failed
            (case last_payment_error of None \<Rightarrow> None | Some error \<Rightarrow> err_code error)
            (map_option err_message last_payment_error) w
      | None \<Rightarrow> w)"

section \<open>Order service (src/unnamed/part_004)\<close>

text \<open>The commerce platform is outside the repository: posting the order for a
  transaction either fails or returns the order id and number.\<close>

record shopify =
  orders_post :: "nat \<Rightarrow> js_error + (string \<times> string)"

definition createShopifyOrder ::
  "shopify \<Rightarrow> nat \<Rightarrow> string \<Rightarrow> world \<Rightarrow> world \<times> (js_error + (string \<times> string))" where
  "createShopifyOrder shop transactionId shopDomain w =
     (case getStoreByDomain w shopDomain of
        None \<Rightarrow> (w, Inl \<lparr>err_code = None, err_message = ''Store not found: '' @ shopDomain\<rparr>)
      | Some store \<Rightarrow>
          (case getTransactionById w transactionId of
             None \<Rightarrow> (w, Inl \<lparr>err_code = None,
                             err_message = ''Transaction not found: '' @ decimal transactionId\<rparr>)
           | Some transaction \<Rightarrow>
               (case orders_post shop transactionId of
                  Inl error \<Rightarrow> (w, Inl error)
                | Inr (orderId, orderNumber) \<Rightarrow>
                    (updateTransactionOrder transactionId orderId orderNumber w,
                     Inr (orderId, orderNumber)))))"

section \<open>Widget routes (src/unnamed/part_006)\<close>

datatype checkout_failure = CheckoutError checkout_error | OrderError js_error

text \<open>Error responses of the routes; \<open>UNHANDLED\<close> is an exception that leaves the
  handler and reaches the global error handler.\<close>

datatype api_error =
    MISSING_PARAMS | INVALID_SHOP | INVALID_TOKEN | INVALID_AMOUNT amount_error
  | STORE_NOT_FOUND | SESSION_NOT_FOUND | TRANSACTION_NOT_FOUND | TOO_MANY_CARDS
  | PAYMENT_NOT_FOUND | CHECKOUT_FAILED checkout_failure | UNHANDLED js_error

datatype api_response =
    InitOk string nat int
  | PaymentIntentOk string string nat
  | RemoveOk
  | CheckoutOk string string

text \<open>
  \<^verbatim>\<open>POST /init\<close>. \<open>now\<close> is the clock (\<^verbatim>\<open>Date.now()\<close>) and \<open>rnd\<close> the random
  suffix (\<^verbatim>\<open>Math.random().toString(36).substr(2, 9)\<close>) read by the handler. The session
  record holds no creation or expiry time.
\<close>

definition route_init ::
  "nat \<Rightarrow> string \<Rightarrow> string option \<Rightarrow> string option \<Rightarrow> world
   \<Rightarrow> world \<times> (api_error + api_response)" where
  "route_init now rnd shopDomain checkoutToken w =
     (if \<not> truthy shopDomain \<or> \<not> truthy checkoutToken then (w, Inl MISSING_PARAMS)
      else if \<not> validateShopDomain (the shopDomain) then (w, Inl INVALID_SHOP)
      else if \<not> validateCheckoutToken (the checkoutToken) then (w, Inl INVALID_TOKEN)
      else case getStoreByDomain w (the shopDomain) of
        None \<Rightarrow> (w, Inl STORE_NOT_FOUND)
      | Some store \<Rightarrow>
          let (transaction, w1) =
                (case getTransactionByCheckoutToken w (the checkoutToken) of
                   Some transaction \<Rightarrow> (transaction, w)
                 | None \<Rightarrow> createTransaction (st_id store) (the checkoutToken) 0 w);
              sessionId = ''session_'' @ decimal now @ ''_'' @ rnd;
              w2 = w1\<lparr>widgetSessions := (widgetSessions w1)(sessionId \<mapsto>
                     \<lparr>s_transactionId = t_id transaction, s_shopDomain = the shopDomain,
                      s_checkoutToken = the checkoutToken, s_payments = []\<rparr>)\<rparr>
          in (w2, Inr (InitOk sessionId (t_id transaction) (t_total_amount transaction))))"

text \<open>
  \<^verbatim>\<open>parseInt(amount, 10)\<close> of an integer-valued number. The number is printed
  first. Below \<open>10 ^ 21\<close> in magnitude it is printed in plain digits and read back
  unchanged. From \<open>10 ^ 21\<close> on it is printed in exponent notation, with the fewest
  digits that still denote the same double (\<^verbatim>\<open>1e+21\<close>, \<^verbatim>\<open>1.5e+21\<close>), and
  \<^verbatim>\<open>parseInt\<close> reads the digits before the first character that is not a digit:
  the leading digit of the printed form. That digit is the one of a one-digit decimal
  rounding to the number, when there is one, and the leading decimal digit of the number
  otherwise.
\<close>

function decimal_length :: "int \<Rightarrow> nat" where
  "decimal_length n = (if n < 10 then 1 else Suc (decimal_length (n div 10)))"
  by pat_completeness auto
termination
  by (relation "measure nat") auto

declare decimal_length.simps [simp del]

definition printed_leading_digit :: "int \<Rightarrow> int" where
  "printed_leading_digit x =
     (let m = decimal_length x in
      case filter (\<lambda>(d, k). nearest_double (d * 10 ^ k) 1 = (x, 1))
             (List.product [1..9] [m - 1, m]) of
        (d, k) # rest \<Rightarrow> d
      | [] \<Rightarrow> x div 10 ^ (m - 1))"

definition parseInt :: "int \<Rightarrow> int" where
  "parseInt n = (if \<bar>n\<bar> < 10 ^ 21 then n else sgn n * printed_leading_digit \<bar>n\<bar>)"

text \<open>\<^verbatim>\<open>!amount\<close>: a falsy value or the number 0.\<close>

definition amount_missing :: "json_amount \<Rightarrow> bool" where
  "amount_missing amount = (amount = Falsy \<or> amount = Cents 0)"

text \<open>
  \<^verbatim>\<open>POST /create-payment-intent\<close> (add a card). The amount handed to the provider,
  to the insert and to the session is \<^verbatim>\<open>parseInt(amount, 10)\<close>. An error thrown by
  the insert leaves the handler after the provider has created the intent; the session is
  then not touched.
\<close>

definition route_create_payment_intent ::
  "stripe \<Rightarrow> string option \<Rightarrow> json_amount \<Rightarrow> world \<Rightarrow> world \<times> (api_error + api_response)" where
  "route_create_payment_intent stripe sessionId amount w =
     (if \<not> truthy sessionId \<or> amount_missing amount then (w, Inl MISSING_PARAMS)
      else case validateAmount amount 100 None of
        Some error \<Rightarrow> (w, Inl (INVALID_AMOUNT error))
      | None \<Rightarrow>
          (case widgetSessions w (the sessionId) of
             None \<Rightarrow> (w, Inl SESSION_NOT_FOUND)
           | Some session \<Rightarrow>
               (case getTransactionById w (s_transactionId session) of
                  None \<Rightarrow> (w, Inl TRANSACTION_NOT_FOUND)
                | Some transaction \<Rightarrow>
                    if length (s_payments session) \<ge> 5 then (w, Inl TOO_MANY_CARDS)
                    else
                      let cents = (case amount of Cents n \<Rightarrow> parseInt n | _ \<Rightarrow> 0) in
                      (case createPaymentIntent stripe cents w of
                         (w1, Inl error) \<Rightarrow> (w1, Inl (UNHANDLED error))
                       | (w1, Inr (paymentIntentId, clientSecret)) \<Rightarrow>
                           (case createPayment (t_id transaction) paymentIntentId cents w1 of
                              Inl error \<Rightarrow> (w1, Inl (UNHANDLED error))
                            | Inr (payment, w2) \<Rightarrow>
                                let session' = session\<lparr>s_payments := s_payments session @
                                      [\<lparr>sp_paymentId = p_id payment,
                                        sp_paymentIntentId = paymentIntentId,
                                        sp_amount = cents\<rparr>]\<rparr>;
                                    w3 = w2\<lparr>widgetSessions :=
                                           (widgetSessions w2)(the sessionId \<mapsto> session')\<rparr>
                                in (w3, Inr (PaymentIntentOk paymentIntentId clientSecret
                                               (p_id payment))))))))"

text \<open>\<^verbatim>\<open>session.payments.splice(paymentIndex, 1)\<close> at the first matching index.\<close>

fun remove_first :: "string \<Rightarrow> session_payment list \<Rightarrow> session_payment list" where
  "remove_first paymentIntentId [] = []"
| "remove_first paymentIntentId (p # ps) =
     (if sp_paymentIntentId p = paymentIntentId then ps
      else p # remove_first paymentIntentId ps)"

text \<open>\<^verbatim>\<open>POST /remove-payment\<close>: an error of the cancel is logged and swallowed.\<close>

definition route_remove_payment ::
  "stripe \<Rightarrow> string option \<Rightarrow> string option \<Rightarrow> world \<Rightarrow> world \<times> (api_error + api_response)" where
  "route_remove_payment stripe sessionId paymentIntentId w =
     (if \<not> truthy sessionId \<or> \<not> truthy paymentIntentId then (w, Inl MISSING_PARAMS)
      else case widgetSessions w (the sessionId) of
        None \<Rightarrow> (w, Inl SESSION_NOT_FOUND)
      | Some session \<Rightarrow>
          if find (\<lambda>p. sp_paymentIntentId p = the paymentIntentId) (s_payments session) = None
          then (w, Inl PAYMENT_NOT_FOUND)
          else
            let w1 = fst (cancelPaymentIntent stripe (the paymentIntentId) w);
                session' = session\<lparr>s_payments :=
                  remove_first (the paymentIntentId) (s_payments session)\<rparr>
            in (w1\<lparr>widgetSessions := (widgetSessions w1)(the sessionId \<mapsto> session')\<rparr>,
                Inr RemoveOk))"

text \<open>\<^verbatim>\<open>Promise.all(payments.map(...))\<close> of the complete route: look every submitted
  intent up; a missing payment row throws.\<close>

fun payment_data ::
  "world \<Rightarrow> (string \<times> string) list \<Rightarrow> js_error + checkout_payment list" where
  "payment_data w [] = Inr []"
| "payment_data w ((paymentIntentId, paymentMethodId) # rest) =
     (case getPaymentByPaymentIntentId w paymentIntentId of
        None \<Rightarrow> Inl \<lparr>err_code = None, err_message = ''Payment not found: '' @ paymentIntentId\<rparr>
      | Some payment \<Rightarrow>
          (case payment_data w rest of
             Inl error \<Rightarrow> Inl error
           | Inr data \<Rightarrow>
               Inr (\<lparr>cp_paymentId = p_id payment, cp_paymentIntentId = paymentIntentId,
                     cp_paymentMethodId = paymentMethodId, cp_amount = p_amount payment\<rparr>
                    # data)))"

text \<open>\<^verbatim>\<open>POST /complete-checkout\<close>. The session is deleted only after the order has
  been created.\<close>

definition route_complete_checkout ::
  "stripe \<Rightarrow> shopify \<Rightarrow> string option \<Rightarrow> (string \<times> string) list option \<Rightarrow> world
   \<Rightarrow> world \<times> (api_error + api_response)" where
  "route_complete_checkout stripe shop sessionId payments_in w =
     (if \<not> truthy sessionId \<or> payments_in = None then (w, Inl MISSING_PARAMS)
      else case widgetSessions w (the sessionId) of
        None \<Rightarrow> (w, Inl SESSION_NOT_FOUND)
      | Some session \<Rightarrow>
          (case getTransactionById w (s_transactionId session) of
             None \<Rightarrow> (w, Inl TRANSACTION_NOT_FOUND)
           | Some transaction \<Rightarrow>
               (case payment_data w (the payments_in) of
                  Inl error \<Rightarrow> (w, Inl (UNHANDLED error))
                | Inr paymentData \<Rightarrow>
                    (case completeCheckout stripe (t_id transaction) paymentData
                             (t_total_amount transaction) w of
                       (w1, Inl error) \<Rightarrow> (w1, Inl (CHECKOUT_FAILED (CheckoutError error)))
                     | (w1, Inr done) \<Rightarrow>
                         (case createShopifyOrder shop (t_id transaction)
                                  (s_shopDomain session) w1 of
                            (w2, Inl error) \<Rightarrow> (w2, Inl (CHECKOUT_FAILED (OrderError error)))
                          | (w2, Inr (orderId, orderNumber)) \<Rightarrow>
                              (w2\<lparr>widgetSessions := (widgetSessions w2)(the sessionId := None)\<rparr>,
                               Inr (CheckoutOk orderId orderNumber)))))))"

section \<open>Requests and events\<close>

text \<open>A widget request arrives at a time \<open>now\<close>. Only \<^verbatim>\<open>/init\<close> reads the clock, to
  build the session id; \<open>Init\<close> carries the random suffix its handler draws.\<close>

datatype widget_request =
    Init string "string option" "string option"
  | CreatePaymentIntent "string option" json_amount
  | RemovePayment "string option" "string option"
  | CompleteCheckout "string option" "(string \<times> string) list option"

fun handle_widget_request ::
  "stripe \<Rightarrow> shopify \<Rightarrow> nat \<Rightarrow> widget_request \<Rightarrow> world \<Rightarrow> world \<times> (api_error + api_response)" where
  "handle_widget_request stripe shop now (Init rnd shopDomain checkoutToken) w =
     route_init now rnd shopDomain checkoutToken w"
| "handle_widget_request stripe shop now (CreatePaymentIntent sessionId amount) w =
     route_create_payment_intent stripe sessionId amount w"
| "handle_widget_request stripe shop now (RemovePayment sessionId paymentIntentId) w =
     route_remove_payment stripe sessionId paymentIntentId w"
| "handle_widget_request stripe shop now (CompleteCheckout sessionId payments_in) w =
     route_complete_checkout stripe shop sessionId payments_in w"

text \<open>Widget requests with their arrival times, run in order.\<close>

definition run_requests ::
  "stripe \<Rightarrow> shopify \<Rightarrow> (nat \<times> widget_request) list \<Rightarrow> world \<Rightarrow> world" where
  "run_requests stripe shop reqs w =
     fold (\<lambda>(now, req) w'. fst (handle_widget_request stripe shop now req w')) reqs w"

text \<open>The operations and provider events that can touch a payment's status.\<close>

datatype operation =
    Complete "string option" "(string \<times> string) list option"
  | RemoveCard "string option" "string option"
  | Refund nat int
  | PaymentIntentSucceeded string
  | PaymentIntentPaymentFailed string "js_error option"

fun apply_operation :: "stripe \<Rightarrow> shopify \<Rightarrow> operation \<Rightarrow> world \<Rightarrow> world" where
  "apply_operation stripe shop (Complete sessionId payments_in) w =
     fst (route_complete_checkout stripe shop sessionId payments_in w)"
| "apply_operation stripe shop (RemoveCard sessionId paymentIntentId) w =
     fst (route_remove_payment stripe sessionId paymentIntentId w)"
| "apply_operation stripe shop (Refund transactionId refundAmount) w =
     fst (processRefund stripe transactionId refundAmount w)"
| "apply_operation stripe shop (PaymentIntentSucceeded paymentIntentId) w =
     handlePaymentIntentSucceeded paymentIntentId w"
| "apply_operation stripe shop (PaymentIntentPaymentFailed paymentIntentId error) w =
     handlePaymentIntentFailed paymentIntentId error w"

definition run_operations :: "stripe \<Rightarrow> shopify \<Rightarrow> operation list \<Rightarrow> world \<Rightarrow> world" where
  "run_operations stripe shop ops w = fold (apply_operation stripe shop) ops w"

section \<open>Scenarios used by the witnesses and counterexamples\<close>

text \<open>
  A provider that declines the confirm of the listed intents and authorizes every other
  one, captures and cancels without error, and either accepts every refund call or fails
  every one. Fresh intents are numbered by the calls made so far.
\<close>

definition scripted_stripe :: "string list \<Rightarrow> bool \<Rightarrow> stripe" where
  "scripted_stripe declined refunds_ok =
     \<lparr>paymentIntents_create = (\<lambda>calls amount. Inr (''pi_'' @ decimal (length calls), ''secret'')),
      paymentIntents_retrieve = (\<lambda>calls id. Inr ''requires_confirmation''),
      paymentIntents_confirm = (\<lambda>calls id method.
         if id \<in> set declined
         then Inl \<lparr>err_code = Some ''card_declined'', err_message = ''Your card was declined.''\<rparr>
         else Inr ''requires_capture''),
      paymentIntents_capture = (\<lambda>calls id. None),
      paymentIntents_cancel = (\<lambda>calls id. None),
      refunds_create = (\<lambda>calls id amount.
         if refunds_ok then Inr (''re_'' @ id, ''succeeded'')
         else Inl \<lparr>err_code = Some ''api_connection_error'', err_message = ''Network error''\<rparr>)\<rparr>"

definition scripted_shopify :: shopify where
  "scripted_shopify = \<lparr>orders_post = (\<lambda>transactionId. Inr (''5001'', ''1001''))\<rparr>"

text \<open>A payment row of transaction 1.\<close>

definition payment_row :: "nat \<Rightarrow> string \<Rightarrow> int \<Rightarrow> payment_status \<Rightarrow> payment" where
  "payment_row n intent amount status =
     \<lparr>p_id = n, p_transaction_id = 1, p_stripe_payment_intent_id = intent, p_amount = amount,
      p_status = status, p_failure_code = None, p_failure_message = None\<rparr>"

text \<open>
  One active store, transaction 1 with the given status and total, the given payment
  rows, and a session \<open>session_1\<close> of that transaction holding those cards.
\<close>

definition scenario_world :: "transaction_status \<Rightarrow> int \<Rightarrow> payment list \<Rightarrow> world" where
  "scenario_world status totalAmount cards =
     \<lparr>stores = [\<lparr>st_id = 1, st_shop_domain = ''demo.myshopify.com'', st_is_active = True\<rparr>],
      transactions = [\<lparr>t_id = 1, t_store_id = 1, t_checkout_token = ''tok'',
                       t_order_id = None, t_order_number = None, t_total_amount = totalAmount,
                       t_status = status, t_failure_reason = None\<rparr>],
      payments = cards,
      refunds = [],
      widgetSessions = [''session_1'' \<mapsto>
        \<lparr>s_transactionId = 1, s_shopDomain = ''demo.myshopify.com'', s_checkoutToken = ''tok'',
         s_payments = map (\<lambda>p. \<lparr>sp_paymentId = p_id p,
                                    sp_paymentIntentId = p_stripe_payment_intent_id p,
                                    sp_amount = p_amount p\<rparr>) cards\<rparr>],
      stripe_calls = []\<rparr>"

text \<open>S1: two cards of 10000 and 5000 on a total of 15000, before complete.\<close>

definition s1_world :: world where
  "s1_world = scenario_world T_pending 15000
     [payment_row 1 ''pi_1'' 10000 P_pending, payment_row 2 ''pi_2'' 5000 P_pending]"

text \<open>S2: three cards of 4000 on a total of 12000, before complete, and the
  \<^verbatim>\<open>payments\<close> parameter the route builds for them.\<close>

definition s2_world :: world where
  "s2_world = scenario_world T_pending 12000
     [payment_row 1 ''pi_1'' 4000 P_pending, payment_row 2 ''pi_2'' 4000 P_pending,
      payment_row 3 ''pi_3'' 4000 P_pending]"

definition s2_payments :: "checkout_payment list" where
  "s2_payments =
     [\<lparr>cp_paymentId = 1, cp_paymentIntentId = ''pi_1'', cp_paymentMethodId = ''pm_1'',
       cp_amount = 4000\<rparr>,
      \<lparr>cp_paymentId = 2, cp_paymentIntentId = ''pi_2'', cp_paymentMethodId = ''pm_2'',
       cp_amount = 4000\<rparr>,
      \<lparr>cp_paymentId = 3, cp_paymentIntentId = ''pi_3'', cp_paymentMethodId = ''pm_3'',
       cp_amount = 4000\<rparr>]"

text \<open>S3: a completed transaction of 12000 with captured payments of 8000 and 4000.\<close>

definition s3_world :: world where
  "s3_world = scenario_world T_completed 12000
     [payment_row 1 ''pi_1'' 8000 P_captured, payment_row 2 ''pi_2'' 4000 P_captured]"

text \<open>A completed transaction of 500 with five captured payments of 100.\<close>

definition five_cards_world :: world where
  "five_cards_world = scenario_world T_completed 500
     [payment_row 1 ''pi_1'' 100 P_captured, payment_row 2 ''pi_2'' 100 P_captured,
      payment_row 3 ''pi_3'' 100 P_captured, payment_row 4 ''pi_4'' 100 P_captured,
      payment_row 5 ''pi_5'' 100 P_captured]"

text \<open>The same transaction after a refund request of \<open>-3\<close>: still completed, with one
  succeeded refund of 1.\<close>

definition one_refunded_world :: world where
  "one_refunded_world = fst (processRefund (scripted_stripe [] True) 1 (- 3) five_cards_world)"

text \<open>The state of S1 while a first complete request is in flight: the transaction is
  processing and the session is still there.\<close>

definition processing_world :: world where
  "processing_world = scenario_world T_processing 15000
     [payment_row 1 ''pi_1'' 10000 P_pending, payment_row 2 ''pi_2'' 5000 P_pending]"

text \<open>A total of 1000 with one card of 600 already in the session.\<close>

definition over_balance_world :: world where
  "over_balance_world = scenario_world T_pending 1000
     [payment_row 1 ''pi_1'' 600 P_pending]"

text \<open>No card yet.\<close>

definition fresh_world :: world where
  "fresh_world = scenario_world T_pending 15000 []"


section \<open>Auxiliary notions for the statements\<close>

text \<open>What has already been refunded on a transaction, read off the refunds table: the
  sum of the amounts of its refund rows whose status is succeeded.\<close>

definition already_refunded :: "world \<Rightarrow> nat \<Rightarrow> int" where
  "already_refunded w tid =
     sum_list (map r_amount
       (filter (\<lambda>r. r_transaction_id r = tid \<and> r_status r = R_succeeded) (refunds w)))"


text \<open>Payment rows rewritten in place: same ids, each status unchanged or set to one
  of \<open>S\<close>.\<close>

definition status_writes :: "payment_status set \<Rightarrow> payment list \<Rightarrow> payment list \<Rightarrow> bool" where
  "status_writes S ps ps' =
     list_all2 (\<lambda>p p'. p_id p' = p_id p \<and> (p_status p' = p_status p \<or> p_status p' \<in> S)) ps ps'"

section \<open>Proofs: proportional distribution\<close>

lemma fold_largest_bound:
  "m < n \<Longrightarrow> set js \<subseteq> {..<n} \<Longrightarrow>
   fold (\<lambda>idx maxIdx. if (arr::int list) ! idx > arr ! maxIdx then idx else maxIdx) js m < n"
  by (induction js arbitrary: m) auto

lemma largestIndex_less: "arr \<noteq> [] \<Longrightarrow> largestIndex arr < length arr"
  unfolding largestIndex_def by (rule fold_largest_bound) auto

lemma largestIndex_prefix_max:
  "k \<le> length arr \<Longrightarrow> i < k \<Longrightarrow>
   arr ! i \<le> arr ! fold (\<lambda>idx maxIdx. if (arr::int list) ! idx > arr ! maxIdx
                              then idx else maxIdx) [0..<k] 0"
proof (induction k arbitrary: i)
  case 0
  then show ?case by simp
next
  case (Suc k)
  show ?case
  proof (cases "i < k")
    case True
    with Suc show ?thesis by (fastforce simp: less_Suc_eq)
  next
    case False
    with Suc.prems have "i = k" by simp
    then show ?thesis by simp
  qed
qed

lemma largestIndex_max: "i < length arr \<Longrightarrow> arr ! i \<le> arr ! largestIndex arr"
  unfolding largestIndex_def by (rule largestIndex_prefix_max) auto

lemma sum_list_adjust:
  "i < length (xs::int list) \<Longrightarrow> sum_list (xs[i := xs ! i + d]) = sum_list xs + d"
  by (induction xs arbitrary: i) (auto split: nat.splits)

lemma distribute_with_length:
  "length (distributeProportionally_with share totalAmount portions) = length portions"
  by (simp add: distributeProportionally_with_def Let_def)

lemma distribute_with_sum:
  assumes "sum_list portions \<noteq> 0"
  shows "sum_list (distributeProportionally_with share totalAmount portions) = totalAmount"
proof -
  let ?d = "map (\<lambda>portion. share totalAmount portion (sum_list portions)) portions"
  from assms have "portions \<noteq> []" by auto
  then have "largestIndex ?d < length ?d" by (intro largestIndex_less) simp
  then show ?thesis using assms
    by (simp add: distributeProportionally_with_def Let_def sum_list_adjust del: length_map)
qed

lemma sum_list_pos_elem:
  "0 < sum_list (xs::int list) \<Longrightarrow> \<exists>i<length xs. 0 < xs ! i"
proof (induction xs)
  case Nil
  then show ?case by simp
next
  case (Cons x xs)
  show ?case
  proof (cases "0 < x")
    case True
    then show ?thesis by (intro exI [of _ 0]) simp
  next
    case False
    with Cons.prems have "0 < sum_list xs" by simp
    with Cons.IH obtain i where "i < length xs" "0 < xs ! i" by blast
    then show ?thesis by (intro exI [of _ "Suc i"]) simp
  qed
qed

subsection \<open>Rounding to the nearest double\<close>

lemma ilog2_bounds: "1 \<le> n \<Longrightarrow> 2 ^ ilog2 n \<le> n \<and> n < 2 ^ Suc (ilog2 n)"
proof (induction n rule: ilog2.induct)
  case (1 n)
  show ?case
  proof (cases "n < 2")
    case True
    with 1(2) have "n = 1" by simp
    then show ?thesis by (simp add: ilog2.simps)
  next
    case False
    then have h: "1 \<le> n div 2" by simp
    from 1(1) [OF False h] have ih: "2 ^ ilog2 (n div 2) \<le> n div 2"
      "n div 2 < 2 ^ Suc (ilog2 (n div 2))" by simp_all
    have il: "ilog2 n = Suc (ilog2 (n div 2))"
      using False by (subst ilog2.simps) simp
    from ih(1) have "2 * 2 ^ ilog2 (n div 2) \<le> n" by linarith
    moreover from ih(2) have "n < 2 * 2 ^ Suc (ilog2 (n div 2))" by linarith
    ultimately show ?thesis unfolding il by simp
  qed
qed

lemma round_half_even_le:
  assumes "0 < b" and "a \<le> c * b"
  shows "round_half_even a b \<le> c"
proof -
  have q: "a div b \<le> c"
    using assms by (metis mult.commute pos_imp_zdiv_nonneg_iff zdiv_mono1 nonzero_mult_div_cancel_right less_irrefl)
  show ?thesis
  proof (cases "a div b = c")
    case True
    have "a = b * (a div b) + a mod b" by simp
    with True assms have "a mod b \<le> 0" by (simp add: mult.commute)
    moreover have "0 \<le> a mod b" using assms(1) by simp
    ultimately have "a mod b = 0" by simp
    with True assms(1) show ?thesis by (simp add: round_half_even_def Let_def)
  next
    case False
    with q have "a div b + 1 \<le> c" by simp
    then show ?thesis by (simp add: round_half_even_def Let_def)
  qed
qed

lemma round_half_even_ge:
  assumes "0 < b" and "c * b \<le> a"
  shows "c \<le> round_half_even a b"
proof -
  have "c \<le> a div b"
    using assms by (metis mult.commute nonzero_mult_div_cancel_right less_irrefl zdiv_mono1)
  then show ?thesis by (simp add: round_half_even_def Let_def)
qed

lemma round_half_even_one: "round_half_even a 1 = a"
  by (simp add: round_half_even_def Let_def)


lemma round_half_even_nonneg: "0 < b \<Longrightarrow> 0 \<le> a \<Longrightarrow> 0 \<le> round_half_even a b"
  using round_half_even_ge [of b 0 a] by simp

lemma exponent_lower:
  assumes "0 < b" and "0 < a" and "0 \<le> exponent a b"
  shows "b * 2 ^ nat (exponent a b) \<le> a"
proof -
  have ba: "b \<le> a"
  proof (rule ccontr)
    assume "\<not> b \<le> a"
    then have "exponent a b < 0" by (simp add: exponent_def)
    with assms(3) show False by simp
  qed
  then have e: "exponent a b = int (ilog2 (a div b))" by (simp add: exponent_def)
  from ba assms(1) have "1 \<le> a div b"
    by (metis div_self less_irrefl zdiv_mono1)
  from ilog2_bounds [OF this] have "2 ^ ilog2 (a div b) \<le> a div b" by simp
  then have "b * 2 ^ ilog2 (a div b) \<le> b * (a div b)"
    using assms(1) by simp
  also have "\<dots> \<le> a"
    using assms(1) by (metis mult_div_mod_eq add_increasing2 pos_mod_sign order_refl)
  finally show ?thesis by (simp add: e)
qed

lemma nearest_double_le:
  assumes b: "0 < b" and a: "0 \<le> a" and ac: "a \<le> c * b" and c: "c < 2 ^ 53"
  shows "0 \<le> fst (nearest_double a b) \<and> fst (nearest_double a b) \<le> c * snd (nearest_double a b)
         \<and> 0 < snd (nearest_double a b)"
proof (cases "a = 0")
  case True
  with ac b have "0 \<le> c" by (simp add: zero_le_mult_iff)
  with True show ?thesis by (simp add: nearest_double_def)
next
  case False
  with a have a0: "0 < a" by simp
  show ?thesis
  proof (cases "52 \<le> exponent a b")
    case True
    then have "0 \<le> exponent a b" by simp
    from exponent_lower [OF b a0 this] have low: "b * 2 ^ nat (exponent a b) \<le> a" .
    have "exponent a b = 52"
    proof (rule ccontr)
      assume "exponent a b \<noteq> 52"
      with True have "53 \<le> nat (exponent a b)" by simp
      then have "(2::int) ^ 53 \<le> 2 ^ nat (exponent a b)"
        by (rule power_increasing) simp
      then have "b * 2 ^ 53 \<le> b * 2 ^ nat (exponent a b)"
        using b by simp
      with low have "b * 2 ^ 53 \<le> a" by simp
      with ac have "b * 2 ^ 53 \<le> c * b" by simp
      then have "2 ^ 53 * b \<le> c * b" by (simp add: mult.commute)
      with b have "2 ^ 53 \<le> c" by simp
      with c show False by simp
    qed
    then have nd: "nearest_double a b = (round_half_even a b, 1)"
      using False by (simp add: nearest_double_def Let_def)
    show ?thesis
      using round_half_even_le [OF b ac] round_half_even_nonneg [OF b a]
      by (simp add: nd)
  next
    case False
    define v :: int where "v = 2 ^ nat (52 - exponent a b)"
    have v: "0 < v" by (simp add: v_def)
    have nd: "nearest_double a b = (round_half_even (a * v) b, v)"
      using False \<open>a \<noteq> 0\<close> by (simp add: nearest_double_def Let_def v_def)
    have "a * v \<le> (c * v) * b"
      using ac v by (simp add: mult.commute mult.left_commute)
    from round_half_even_le [OF b this] round_half_even_nonneg [OF b, of "a * v"] a v
    show ?thesis by (simp add: nd)
  qed
qed

lemma nearest_double_int:
  assumes a: "0 \<le> a" and c: "a < 2 ^ 53"
  shows "fst (nearest_double a 1) = a * snd (nearest_double a 1) \<and> 0 < snd (nearest_double a 1)"
proof (cases "a = 0")
  case True
  then show ?thesis by (simp add: nearest_double_def)
next
  case False
  with a have a0: "0 < a" by simp
  show ?thesis
  proof (cases "52 \<le> exponent a 1")
    case True
    then have "0 \<le> exponent a 1" by simp
    from exponent_lower [OF _ a0 this] have low: "2 ^ nat (exponent a 1) \<le> a" by simp
    have "exponent a 1 = 52"
    proof (rule ccontr)
      assume "exponent a 1 \<noteq> 52"
      with True have "53 \<le> nat (exponent a 1)" by simp
      then have "(2::int) ^ 53 \<le> 2 ^ nat (exponent a 1)"
        by (rule power_increasing) simp
      with low c show False by simp
    qed
    then show ?thesis
      using False by (simp add: nearest_double_def Let_def round_half_even_one)
  next
    case False
    then show ?thesis
      using \<open>a \<noteq> 0\<close> by (simp add: nearest_double_def Let_def round_half_even_one)
  qed
qed

lemma double_int_exact:
  assumes "\<bar>x\<bar> < 2 ^ 53"
  shows "double_int x = x"
proof -
  obtain n d where nd: "nearest_double \<bar>x\<bar> 1 = (n, d)" by (cases "nearest_double \<bar>x\<bar> 1")
  from nearest_double_int [of "\<bar>x\<bar>"] assms nd have n: "n = \<bar>x\<bar> * d" and d: "0 < d" by simp_all
  have "sgn x * n = x * d" by (simp add: n mult.assoc [symmetric] mult_sgn_abs)
  then show ?thesis using d by (simp add: double_int_def signed_nearest_def nd)
qed

lemma foldl_double_int:
  "0 \<le> acc \<Longrightarrow> \<forall>x\<in>set xs. 0 \<le> x \<Longrightarrow> acc + sum_list xs < 2 ^ 53 \<Longrightarrow>
   foldl (\<lambda>sum x. double_int (sum + x)) acc xs = acc + sum_list xs"
proof (induction xs arbitrary: acc)
  case Nil
  then show ?case by simp
next
  case (Cons x xs)
  have "0 \<le> sum_list xs" using Cons.prems(2) by (simp add: sum_list_nonneg)
  with Cons.prems have "0 \<le> acc + x" "acc + x < 2 ^ 53" by simp_all
  then have "double_int (acc + x) = acc + x" by (intro double_int_exact) simp
  moreover have "foldl (\<lambda>sum x. double_int (sum + x)) (acc + x) xs = (acc + x) + sum_list xs"
    using Cons.prems \<open>0 \<le> acc + x\<close> by (intro Cons.IH) simp_all
  ultimately show ?case by simp
qed

lemma double_sum_exact:
  "\<forall>x\<in>set xs. 0 \<le> x \<Longrightarrow> sum_list xs < 2 ^ 53 \<Longrightarrow> double_sum xs = sum_list xs"
  using foldl_double_int [of 0 xs] by (simp add: double_sum_def)

lemma int_div_less:
  fixes a b c :: int
  assumes "0 < b" and "a < c * b"
  shows "a div b < c"
proof (rule ccontr)
  assume "\<not> a div b < c"
  then have "c \<le> a div b" by simp
  then have "c * b \<le> (a div b) * b" using assms(1) by (simp add: mult_right_mono)
  also have "\<dots> \<le> a"
    using assms(1) by (metis mult.commute mult_div_mod_eq add_increasing2 pos_mod_sign order_refl)
  finally show False using assms(2) by simp
qed

lemma round_share_bounds:
  assumes t: "0 \<le> t" "t < 2 ^ 53" and p: "0 \<le> p" "p \<le> W" and W: "0 < W"
  shows "0 \<le> round_share t p W \<and> round_share t p W \<le> t"
proof -
  obtain qn qd where q: "nearest_double p W = (qn, qd)" by (cases "nearest_double p W")
  from nearest_double_le [OF W p(1), of 1] p(2) q
  have qb: "0 \<le> qn" "qn \<le> qd" "0 < qd" by simp_all
  have dd: "double_div p W = (sgn p * qn, qd)"
    using W p(1) q by (simp add: double_div_def signed_nearest_def)
  have sq: "0 \<le> sgn p * qn" "sgn p * qn \<le> qd"
    using p(1) qb by (cases "p = 0"; simp)+
  define a where "a = t * (sgn p * qn)"
  have a: "0 \<le> a" "a \<le> t * qd"
    using t(1) sq by (simp_all add: a_def mult_left_mono)
  obtain yn yd where y: "nearest_double a qd = (yn, yd)" by (cases "nearest_double a qd")
  from nearest_double_le [OF qb(3) a(1) a(2) t(2)] y
  have yb: "0 \<le> yn" "yn \<le> t * yd" "0 < yd" by simp_all
  have dm: "double_mul t (double_div p W) = (sgn a * yn, yd)"
    using a(1) y by (simp add: double_mul_def signed_nearest_def dd a_def [symmetric])
  have sy: "0 \<le> sgn a * yn" "sgn a * yn \<le> t * yd"
    using a(1) yb by (cases "a = 0"; simp add: zero_le_mult_iff t)+
  define z where "z = sgn a * yn"
  have share: "round_share t p W = (2 * z + yd) div (2 * yd)"
    by (simp add: round_share_def dm math_round_def z_def)
  have "0 \<le> (2 * z + yd) div (2 * yd)"
    using sy(1) yb(3) by (simp add: z_def pos_imp_zdiv_nonneg_iff)
  moreover have "(2 * z + yd) div (2 * yd) \<le> t"
  proof -
    have "2 * z + yd < (t + 1) * (2 * yd)"
      using sy(2) yb(3) by (simp add: z_def algebra_simps)
    then have "(2 * z + yd) div (2 * yd) < t + 1"
      using yb(3) by (intro int_div_less) simp_all
    then show ?thesis by simp
  qed
  ultimately show ?thesis by (simp add: share)
qed

lemma elem_le_sum_list:
  "\<forall>x\<in>set xs. 0 \<le> x \<Longrightarrow> x \<in> set xs \<Longrightarrow> x \<le> sum_list (xs::int list)"
proof (induction xs)
  case Nil
  then show ?case by simp
next
  case (Cons a xs)
  have "0 \<le> sum_list xs" using Cons.prems(1) by (simp add: sum_list_nonneg)
  with Cons show ?case by auto
qed

lemma sum_list_le_length_times:
  "\<forall>x\<in>set xs. x \<le> t \<Longrightarrow> sum_list (xs::int list) \<le> int (length xs) * t"
  by (induction xs) (auto simp: algebra_simps)

lemma shares_in_range:
  assumes t: "0 \<le> t" "t < 2 ^ 53" and ps: "\<forall>w\<in>set ps. 0 \<le> w" and W: "0 < sum_list ps"
  shows "\<forall>x\<in>set (map (\<lambda>p. round_share t p (sum_list ps)) ps). 0 \<le> x \<and> x \<le> t"
proof
  fix x assume "x \<in> set (map (\<lambda>p. round_share t p (sum_list ps)) ps)"
  then obtain p where p: "p \<in> set ps" "x = round_share t p (sum_list ps)" by auto
  from p(1) ps have "0 \<le> p" "p \<le> sum_list ps" by (auto intro: elem_le_sum_list)
  from round_share_bounds [OF t this W] p(2) show "0 \<le> x \<and> x \<le> t" by simp
qed

lemma distribute_double_exact:
  assumes t: "0 \<le> t" and ne: "ps \<noteq> []" and ps: "\<forall>w\<in>set ps. 0 \<le> w"
    and W: "0 < sum_list ps" and Wb: "sum_list ps < 2 ^ 53"
    and nb: "int (length ps) * t < 2 ^ 53"
  shows "distributeProportionally_double t ps = distributeProportionally t ps"
proof -
  let ?W = "sum_list ps"
  let ?d = "map (\<lambda>p. round_share t p ?W) ps"
  let ?D = "sum_list ?d"
  let ?k = "largestIndex ?d"
  from ne have "1 \<le> int (length ps)" by (cases ps) simp_all
  then have "1 * t \<le> int (length ps) * t" using t by (intro mult_right_mono) simp_all
  with nb have tb: "t < 2 ^ 53" by simp
  have dW: "double_sum ps = ?W" using ps Wb by (rule double_sum_exact)
  have range: "\<forall>x\<in>set ?d. 0 \<le> x \<and> x \<le> t"
    using t tb ps W by (rule shares_in_range)
  then have D0: "0 \<le> ?D" by (intro sum_list_nonneg) blast
  have "?D \<le> int (length ?d) * t" using range by (intro sum_list_le_length_times) blast
  with nb have Db: "?D \<le> int (length ps) * t" "?D < 2 ^ 53" by simp_all
  have dD: "double_sum ?d = ?D" using range Db(2) by (intro double_sum_exact) blast
  have "\<bar>t - ?D\<bar> < 2 ^ 53" using t tb D0 Db(2) by linarith
  then have dd: "double_int (t - ?D) = t - ?D" by (rule double_int_exact)
  have kl: "?k < length ?d" using ne by (intro largestIndex_less) simp
  then have kin: "?d ! ?k \<in> set ?d" by (rule nth_mem)
  with range have k0: "0 \<le> ?d ! ?k" "?d ! ?k \<le> t" by blast+
  have "?d ! ?k \<le> ?D" using range kin by (intro elem_le_sum_list) blast
  with k0 t tb D0 Db(2) have "\<bar>?d ! ?k + (t - ?D)\<bar> < 2 ^ 53" by linarith
  then have da: "double_int (?d ! ?k + (t - ?D)) = ?d ! ?k + (t - ?D)" by (rule double_int_exact)
  show ?thesis
    using W by (simp add: distributeProportionally_double_def distributeProportionally_def
        distributeProportionally_with_def Let_def dW dD dd da del: length_map)
qed

lemma distribute_double_length:
  "length (distributeProportionally_double totalAmount portions) = length portions"
  by (simp add: distributeProportionally_double_def Let_def)

lemma round_half_even_upper:
  assumes "0 < b"
  shows "2 * b * round_half_even a b \<le> 2 * a + b"
proof -
  define q r where "q = a div b" and "r = a mod b"
  have eq: "a = b * q + r" by (simp add: q_def r_def)
  have m: "0 \<le> r" "r < b" using assms by (simp_all add: r_def)
  have rhe: "round_half_even a b =
     (if 2 * r < b then q else if b < 2 * r then q + 1 else if even q then q else q + 1)"
    by (simp add: round_half_even_def Let_def q_def r_def)
  have e1: "2 * b * (q + 1) = 2 * (b * q) + 2 * b" by (simp add: algebra_simps)
  have e0: "2 * b * q = 2 * (b * q)" by simp
  have "2 * b * round_half_even a b \<le> 2 * (b * q + r) + b"
    unfolding rhe using m assms by (auto simp: algebra_simps)
  then show ?thesis unfolding eq [symmetric] .
qed

lemma exponent_upper_neg:
  assumes "0 < b" and "0 < a" and "exponent a b < 0"
  shows "b \<le> a * 2 ^ nat (- exponent a b)"
proof -
  have ab: "a < b"
  proof (rule ccontr)
    assume "\<not> a < b"
    then have "0 \<le> exponent a b" by (simp add: exponent_def)
    with assms(3) show False by simp
  qed
  define c where "c = (b + a - 1) div a"
  have e: "exponent a b = - int (Suc (ilog2 (c - 1)))"
    using ab by (simp add: exponent_def c_def)
  have "2 * a \<le> b + a - 1" using ab by simp
  then have "(2 * a) div a \<le> (b + a - 1) div a" by (rule zdiv_mono1) (rule assms(2))
  then have c2: "2 \<le> c" using assms(2) by (simp add: c_def)
  then have "1 \<le> c - 1" by simp
  from ilog2_bounds [OF this] have "c - 1 < 2 ^ Suc (ilog2 (c - 1))" by simp
  then have cle: "c \<le> 2 ^ Suc (ilog2 (c - 1))" by simp
  have "a * c + (b + a - 1) mod a = b + a - 1" unfolding c_def by simp
  moreover have "(b + a - 1) mod a < a" using assms(2) by simp
  ultimately have "b \<le> a * c" by linarith
  also have "\<dots> \<le> a * 2 ^ Suc (ilog2 (c - 1))"
    using cle assms(2) by (intro mult_left_mono) simp_all
  finally have "b \<le> a * 2 ^ Suc (ilog2 (c - 1))" .
  moreover have "nat (- exponent a b) = Suc (ilog2 (c - 1))" unfolding e by simp
  ultimately show ?thesis by simp
qed

lemma nearest_double_rel:
  assumes a: "0 < a" and b: "0 < b"
  shows "fst (nearest_double a b) * b * 2 ^ 53 \<le> a * snd (nearest_double a b) * (2 ^ 53 + 1)
       \<and> 0 < snd (nearest_double a b) \<and> 0 \<le> fst (nearest_double a b)"
proof (cases "52 \<le> exponent a b")
  case True
  define u :: int where "u = 2 ^ nat (exponent a b - 52)"
  define r where "r = round_half_even a (b * u)"
  have u: "0 < u" by (simp add: u_def)
  have nd: "nearest_double a b = (r * u, 1)"
    using True a by (simp add: nearest_double_def Let_def u_def r_def)
  have bu: "0 < b * u" using b u by simp
  from round_half_even_upper [OF bu, of a] have h: "2 * (b * u) * r \<le> 2 * a + b * u"
    by (simp add: r_def)
  have "0 \<le> exponent a b" using True by simp
  from exponent_lower [OF b a this] have low: "b * 2 ^ nat (exponent a b) \<le> a" .
  have "nat (exponent a b) = 52 + nat (exponent a b - 52)" using True by simp
  then have "(2::int) ^ nat (exponent a b) = 2 ^ 52 * u"
    unfolding u_def by (simp only: power_add)
  with low have low2: "2 ^ 52 * (b * u) \<le> a" by (simp add: mult.assoc mult.left_commute)
  have "r * u * b * 2 ^ 53 = 2 ^ 52 * (2 * (b * u) * r)" by simp
  also have "\<dots> \<le> 2 ^ 52 * (2 * a + b * u)" using h by simp
  also have "\<dots> = a * 2 ^ 53 + 2 ^ 52 * (b * u)" by simp
  also have "\<dots> \<le> a * 2 ^ 53 + a" using low2 by simp
  also have "\<dots> = a * 1 * (2 ^ 53 + 1)" by simp
  finally have main: "r * u * b * 2 ^ 53 \<le> a * 1 * (2 ^ 53 + 1)" .
  have "0 \<le> r" unfolding r_def using bu a by (intro round_half_even_nonneg) simp_all
  with u main show ?thesis by (simp add: nd)
next
  case False
  define v :: int where "v = 2 ^ nat (52 - exponent a b)"
  define n where "n = round_half_even (a * v) b"
  have v: "0 < v" by (simp add: v_def)
  have nd: "nearest_double a b = (n, v)"
    using False a by (simp add: nearest_double_def Let_def v_def n_def)
  from round_half_even_upper [OF b, of "a * v"] have h: "2 * b * n \<le> 2 * (a * v) + b"
    by (simp add: n_def)
  have low2: "2 ^ 52 * b \<le> a * v"
  proof (cases "0 \<le> exponent a b")
    case True
    from exponent_lower [OF b a this] have low: "b * 2 ^ nat (exponent a b) \<le> a" .
    have "52 = nat (exponent a b) + nat (52 - exponent a b)" using True False by simp
    then have "(2::int) ^ 52 = 2 ^ nat (exponent a b) * v"
      unfolding v_def by (simp only: power_add [symmetric])
    then have "2 ^ 52 * b = (b * 2 ^ nat (exponent a b)) * v" by (simp add: algebra_simps)
    also have "\<dots> \<le> a * v" using low v by (intro mult_right_mono) simp_all
    finally show ?thesis .
  next
    case False
    then have neg: "exponent a b < 0" by simp
    from exponent_upper_neg [OF b a this] have up: "b \<le> a * 2 ^ nat (- exponent a b)" .
    have "nat (52 - exponent a b) = 52 + nat (- exponent a b)" using neg by simp
    then have "v = 2 ^ 52 * 2 ^ nat (- exponent a b)"
      unfolding v_def by (simp only: power_add)
    then have "a * v = 2 ^ 52 * (a * 2 ^ nat (- exponent a b))" by (simp add: algebra_simps)
    moreover have "(2::int) ^ 52 * b \<le> 2 ^ 52 * (a * 2 ^ nat (- exponent a b))"
      using up by (intro mult_left_mono) simp_all
    ultimately show ?thesis by (simp only:)
  qed
  have "n * b * 2 ^ 53 = 2 ^ 52 * (2 * b * n)" by simp
  also have "\<dots> \<le> 2 ^ 52 * (2 * (a * v) + b)" using h by simp
  also have "\<dots> = a * v * 2 ^ 53 + 2 ^ 52 * b" by simp
  also have "\<dots> \<le> a * v * 2 ^ 53 + a * v" using low2 by simp
  also have "\<dots> = a * v * (2 ^ 53 + 1)" by (simp add: algebra_simps)
  finally have main: "n * b * 2 ^ 53 \<le> a * v * (2 ^ 53 + 1)" .
  have "0 \<le> n" unfolding n_def using b a v by (intro round_half_even_nonneg) simp_all
  with v main show ?thesis by (simp add: nd)
qed

lemma chain_bound:
  fixes s yn yd qn qd t p W c c1 :: int
  assumes pos: "0 < yd" "0 < qd" "0 \<le> t" "0 \<le> W" "0 < c" "0 \<le> c1"
    and h1: "2 * yd * s \<le> 2 * yn + yd"
    and h2: "yn * qd * c \<le> t * qn * yd * c1"
    and h3: "qn * W * c \<le> p * qd * c1"
  shows "2 * s * (c * c) * W \<le> 2 * t * p * (c1 * c1) + (c * c) * W"
proof -
  have f1: "0 \<le> qd * c * c * W" using pos by simp
  have f2: "0 \<le> 2 * (c * W)" using pos by simp
  have f3: "0 \<le> 2 * t * yd * c1" using pos by simp
  have "(yd * qd) * (2 * s * (c * c) * W) = (2 * yd * s) * (qd * c * c * W)"
    by (simp add: algebra_simps)
  also have "\<dots> \<le> (2 * yn + yd) * (qd * c * c * W)"
    using h1 f1 by (rule mult_right_mono)
  also have "\<dots> = (yn * qd * c) * (2 * (c * W)) + yd * qd * (c * c * W)"
    by (simp add: algebra_simps)
  also have "\<dots> \<le> (t * qn * yd * c1) * (2 * (c * W)) + yd * qd * (c * c * W)"
    using mult_right_mono [OF h2 f2] by simp
  also have "\<dots> = (2 * t * yd * c1) * (qn * W * c) + yd * qd * (c * c * W)"
    by (simp add: algebra_simps)
  also have "\<dots> \<le> (2 * t * yd * c1) * (p * qd * c1) + yd * qd * (c * c * W)"
    using mult_left_mono [OF h3 f3] by simp
  also have "\<dots> = (yd * qd) * (2 * t * p * (c1 * c1) + (c * c) * W)"
    by (simp add: algebra_simps)
  finally have "(yd * qd) * (2 * s * (c * c) * W)
                \<le> (yd * qd) * (2 * t * p * (c1 * c1) + (c * c) * W)" .
  moreover have "0 < yd * qd" using pos by simp
  ultimately show ?thesis by (simp only: mult_le_cancel_left_pos)
qed

lemma round_share_zero_portion: "0 < W \<Longrightarrow> round_share t 0 W = 0"
  by (simp add: round_share_def double_div_def double_mul_def signed_nearest_def
      nearest_double_def math_round_def)

lemma round_share_zero_total: "round_share 0 p W = 0"
  by (simp add: round_share_def double_mul_def signed_nearest_def
      nearest_double_def math_round_def split_beta)

lemma round_share_upper:
  assumes t: "0 \<le> t" and p: "0 \<le> p" and W: "0 < W"
  shows "2 * round_share t p W * (2 ^ 53 * 2 ^ 53) * W
         \<le> 2 * t * p * ((2 ^ 53 + 1) * (2 ^ 53 + 1)) + (2 ^ 53 * 2 ^ 53) * W"
proof (cases "p = 0 \<or> t = 0")
  case True
  then show ?thesis using W t p
    by (auto simp: round_share_zero_portion round_share_zero_total)
next
  case False
  with t p have t0: "0 < t" and p0: "0 < p" by simp_all
  obtain qn qd where q: "nearest_double p W = (qn, qd)" by (cases "nearest_double p W")
  from nearest_double_rel [OF p0 W] q
  have qb: "qn * W * 2 ^ 53 \<le> p * qd * (2 ^ 53 + 1)" "0 < qd" "0 \<le> qn" by simp_all
  have dd: "double_div p W = (qn, qd)"
    using W p0 q by (simp add: double_div_def signed_nearest_def)
  show ?thesis
  proof (cases "qn = 0")
    case True
    then have "round_share t p W = 0"
      by (simp add: round_share_def dd double_mul_def signed_nearest_def nearest_double_def
          math_round_def)
    then show ?thesis using t p W by simp
  next
    case False
    with qb(3) have qn0: "0 < qn" by simp
    then have a0: "0 < t * qn" using t0 by simp
    obtain yn yd where y: "nearest_double (t * qn) qd = (yn, yd)"
      by (cases "nearest_double (t * qn) qd")
    from nearest_double_rel [OF a0 qb(2)] y
    have yb: "yn * qd * 2 ^ 53 \<le> t * qn * yd * (2 ^ 53 + 1)" "0 < yd" "0 \<le> yn" by simp_all
    have dm: "double_mul t (double_div p W) = (yn, yd)"
      using a0 y by (simp add: double_mul_def signed_nearest_def dd)
    have share: "round_share t p W = (2 * yn + yd) div (2 * yd)"
      by (simp add: round_share_def dm math_round_def)
    have "(2 * yd) * ((2 * yn + yd) div (2 * yd)) + (2 * yn + yd) mod (2 * yd) = 2 * yn + yd"
      by (rule mult_div_mod_eq)
    moreover have "0 \<le> (2 * yn + yd) mod (2 * yd)" using yb(2) by simp
    ultimately have h1: "2 * yd * round_share t p W \<le> 2 * yn + yd"
      unfolding share by linarith
    show ?thesis
      by (rule chain_bound [OF yb(2) qb(2) t _ _ _ h1 yb(1) qb(1)]) (use W in simp_all)
  qed
qed

lemma sum_round_share_upper:
  assumes t: "0 \<le> t" and W: "0 < W" and ps: "\<forall>p\<in>set ps. 0 \<le> p"
  shows "2 * sum_list (map (\<lambda>p. round_share t p W) ps) * (2 ^ 53 * 2 ^ 53) * W
         \<le> 2 * t * sum_list ps * ((2 ^ 53 + 1) * (2 ^ 53 + 1))
            + int (length ps) * ((2 ^ 53 * 2 ^ 53) * W)"
  using ps
proof (induction ps)
  case Nil
  then show ?case by simp
next
  case (Cons p ps)
  then have "0 \<le> p" by simp
  from round_share_upper [OF t this W] Cons show ?case
    by (simp add: algebra_simps)
qed

lemma distribute_nth_other:
  assumes "0 \<le> t" "ps \<noteq> []" "\<forall>w\<in>set ps. 0 \<le> w" "0 < sum_list ps"
    "sum_list ps < 2 ^ 53" "int (length ps) * t < 2 ^ 53" "i < length ps"
    "i \<noteq> largestIndex (map (\<lambda>p. round_share t p (double_sum ps)) ps)"
  shows "0 \<le> distributeProportionally_double t ps ! i
       \<and> distributeProportionally_double t ps ! i \<le> t"
proof -
  have dW: "double_sum ps = sum_list ps" using assms(3,5) by (rule double_sum_exact)
  from assms(2) have "1 \<le> int (length ps)" by (cases ps) simp_all
  then have "1 * t \<le> int (length ps) * t" using assms(1) by (intro mult_right_mono) simp_all
  with assms(6) have tb: "t < 2 ^ 53" by simp
  have "ps ! i \<in> set ps" using assms(7) by simp
  with assms(3) have "0 \<le> ps ! i" "ps ! i \<le> sum_list ps" by (auto intro: elem_le_sum_list)
  from round_share_bounds [OF assms(1) tb this assms(4)]
  have "0 \<le> round_share t (ps ! i) (sum_list ps) \<and> round_share t (ps ! i) (sum_list ps) \<le> t" .
  moreover have "distributeProportionally_double t ps ! i = round_share t (ps ! i) (sum_list ps)"
    using assms(4,7,8) by (simp add: distributeProportionally_double_def Let_def dW)
  ultimately show ?thesis by simp
qed

lemma distribute_nth_largest:
  assumes "0 \<le> t" "t < 2 ^ 50" "\<forall>w\<in>set ps. 0 \<le> w" "0 < sum_list ps"
    "sum_list ps < 2 ^ 53" "length ps \<le> 3"
    "i = largestIndex (map (\<lambda>p. round_share t p (double_sum ps)) ps)"
  shows "0 \<le> distributeProportionally_double t ps ! i"
proof -
  let ?W = "sum_list ps"
  let ?d = "map (\<lambda>p. round_share t p ?W) ps"
  let ?D = "sum_list ?d"
  have dW: "double_sum ps = ?W" using assms(3,5) by (rule double_sum_exact)
  from assms(4) have ne: "ps \<noteq> []" by auto
  have "int (length ps) \<le> 3" using assms(6) by simp
  then have "int (length ps) * t \<le> 3 * t" using assms(1) by (intro mult_right_mono) simp_all
  with assms(2) have nb: "int (length ps) * t < 2 ^ 53" by simp
  have eq: "distributeProportionally_double t ps = distributeProportionally t ps"
    using assms(1) ne assms(3,4,5) nb by (rule distribute_double_exact)
  have il: "i < length ?d" unfolding assms(7) dW using ne by (intro largestIndex_less) simp
  have tb: "t < 2 ^ 53" using assms(2) by simp
  have range: "\<forall>x\<in>set ?d. 0 \<le> x \<and> x \<le> t"
    using assms(1) tb assms(3,4) by (rule shares_in_range)
  from il have "?d ! i \<in> set ?d" by (rule nth_mem)
  with range have rs: "0 \<le> ?d ! i" by blast
  have "2 * ?D * (2 ^ 53 * 2 ^ 53) * ?W
         \<le> 2 * t * ?W * ((2 ^ 53 + 1) * (2 ^ 53 + 1)) + int (length ps) * ((2 ^ 53 * 2 ^ 53) * ?W)"
    using assms(1,4,3) by (rule sum_round_share_upper)
  also have "\<dots> \<le> 2 * t * ?W * ((2 ^ 53 + 1) * (2 ^ 53 + 1)) + 3 * ((2 ^ 53 * 2 ^ 53) * ?W)"
    using assms(4,6) by simp
  finally have "?W * (2 * ?D * (2 ^ 53 * 2 ^ 53))
                \<le> ?W * (2 * t * ((2 ^ 53 + 1) * (2 ^ 53 + 1)) + 3 * (2 ^ 53 * 2 ^ 53))"
    by (simp add: algebra_simps)
  with assms(4) have "2 * ?D * (2 ^ 53 * 2 ^ 53)
                \<le> 2 * t * ((2 ^ 53 + 1) * (2 ^ 53 + 1)) + 3 * (2 ^ 53 * 2 ^ 53)"
    by (simp only: mult_le_cancel_left_pos)
  moreover have "\<And>a::int. 2 * a * (2 ^ 53 * 2 ^ 53)
                \<le> 2 * t * ((2 ^ 53 + 1) * (2 ^ 53 + 1)) + 3 * (2 ^ 53 * 2 ^ 53) \<Longrightarrow>
                t < 2 ^ 50 \<Longrightarrow> - 1 \<le> t - a"
    by simp
  ultimately have diff: "- 1 \<le> t - ?D" using assms(2) by blast
  show ?thesis
  proof (cases "t - ?D < 0")
    case False
    with rs il assms(4) show ?thesis
      unfolding eq
      by (simp add: distributeProportionally_def distributeProportionally_with_def Let_def
          assms(7) dW del: length_map)
  next
    case True
    with assms(1) have "0 < ?D" by linarith
    then obtain j where j: "j < length ?d" "0 < ?d ! j" using sum_list_pos_elem by blast
    then have "?d ! j \<le> ?d ! i" unfolding assms(7) dW by (intro largestIndex_max)
    with j have "1 \<le> ?d ! i" by linarith
    with diff have "0 \<le> ?d ! i + (t - ?D)" by linarith
    with il True assms(4) show ?thesis
      unfolding eq
      by (simp add: distributeProportionally_def distributeProportionally_with_def Let_def
          assms(7) dW del: length_map)
  qed
qed

lemma foldl_double_int_abs:
  "\<bar>acc\<bar> + sum_list (map abs xs) < 2 ^ 53 \<Longrightarrow>
   foldl (\<lambda>sum x. double_int (sum + x)) acc xs = acc + sum_list xs"
proof (induction xs arbitrary: acc)
  case Nil
  then show ?case by simp
next
  case (Cons x xs)
  have "0 \<le> sum_list (map abs xs)" by (intro sum_list_nonneg) auto
  with Cons.prems have "\<bar>acc + x\<bar> < 2 ^ 53" by simp
  then have e: "double_int (acc + x) = acc + x" by (rule double_int_exact)
  have "\<bar>acc + x\<bar> + sum_list (map abs xs) < 2 ^ 53" using Cons.prems by simp
  then have "foldl (\<lambda>sum x. double_int (sum + x)) (acc + x) xs = (acc + x) + sum_list xs"
    by (rule Cons.IH)
  with e show ?case by simp
qed

lemma double_sum_exact_nonpos:
  assumes "\<forall>x\<in>set xs. x \<le> 0" and "- (2 ^ 53) < sum_list xs"
  shows "double_sum xs = sum_list xs"
proof -
  have "sum_list (map abs xs) = - sum_list xs"
    using assms(1) by (induction xs) auto
  with assms(2) have "\<bar>0::int\<bar> + sum_list (map abs xs) < 2 ^ 53" by simp
  from foldl_double_int_abs [OF this] show ?thesis by (simp add: double_sum_def)
qed

lemma round_share_bounds_neg:
  assumes t: "t \<le> 0" "- (2 ^ 53) < t" and p: "0 \<le> p" "p \<le> W" and W: "0 < W"
  shows "t \<le> round_share t p W \<and> round_share t p W \<le> 0"
proof -
  obtain qn qd where q: "nearest_double p W = (qn, qd)" by (cases "nearest_double p W")
  from nearest_double_le [OF W p(1), of 1] p(2) q
  have qb: "0 \<le> qn" "qn \<le> qd" "0 < qd" by simp_all
  have dd: "double_div p W = (sgn p * qn, qd)"
    using W p(1) q by (simp add: double_div_def signed_nearest_def)
  have sq: "0 \<le> sgn p * qn" "sgn p * qn \<le> qd"
    using p(1) qb by (cases "p = 0"; simp)+
  define a where "a = t * (sgn p * qn)"
  have a0: "a \<le> 0" using t(1) sq(1) by (simp add: a_def mult_nonpos_nonneg)
  have "(- t) * (sgn p * qn) \<le> (- t) * qd" using t(1) sq(2) by (intro mult_left_mono) simp_all
  then have a: "0 \<le> \<bar>a\<bar>" "\<bar>a\<bar> \<le> (- t) * qd"
    using a0 by (simp_all add: a_def)
  obtain yn yd where y: "nearest_double \<bar>a\<bar> qd = (yn, yd)" by (cases "nearest_double \<bar>a\<bar> qd")
  have tb: "- t < 2 ^ 53" using t(2) by simp
  from nearest_double_le [OF qb(3) a(1) a(2) tb] y
  have yb: "0 \<le> yn" "yn \<le> (- t) * yd" "0 < yd" by simp_all
  have dm: "double_mul t (double_div p W) = (sgn a * yn, yd)"
    using y by (simp add: double_mul_def signed_nearest_def dd a_def [symmetric])
  define z where "z = sgn a * yn"
  have sy: "z \<le> 0" "t * yd \<le> z"
    using a0 yb by (cases "a = 0"; simp add: z_def)+
  have share: "round_share t p W = (2 * z + yd) div (2 * yd)"
    by (simp add: round_share_def dm math_round_def z_def)
  have "(2 * z + yd) div (2 * yd) < 1"
    using sy(1) yb(3) by (intro int_div_less) simp_all
  moreover have "t \<le> (2 * z + yd) div (2 * yd)"
  proof -
    have "t * (2 * yd) \<le> 2 * z + yd" using sy(2) yb(3) by (simp add: algebra_simps)
    then have "(t * (2 * yd)) div (2 * yd) \<le> (2 * z + yd) div (2 * yd)"
      using yb(3) by (intro zdiv_mono1) simp_all
    then show ?thesis using yb(3) by simp
  qed
  ultimately show ?thesis by (simp add: share)
qed

lemma elem_ge_sum_list:
  "\<forall>x\<in>set xs. x \<le> 0 \<Longrightarrow> x \<in> set xs \<Longrightarrow> sum_list (xs::int list) \<le> x"
proof (induction xs)
  case Nil
  then show ?case by simp
next
  case (Cons a xs)
  have "sum_list xs \<le> 0" using Cons.prems(1) by (simp add: sum_list_nonpos)
  with Cons show ?case by auto
qed

lemma sum_list_ge_length_times:
  "\<forall>x\<in>set xs. t \<le> x \<Longrightarrow> int (length xs) * t \<le> sum_list (xs::int list)"
  by (induction xs) (auto simp: algebra_simps)

lemma distribute_double_exact_neg:
  assumes t: "t \<le> 0" and ne: "ps \<noteq> []" and ps: "\<forall>w\<in>set ps. 0 \<le> w"
    and W: "0 < sum_list ps" and Wb: "sum_list ps < 2 ^ 53"
    and nb: "- (2 ^ 53) < int (length ps) * t"
  shows "distributeProportionally_double t ps = distributeProportionally t ps"
proof -
  let ?W = "sum_list ps"
  let ?d = "map (\<lambda>p. round_share t p ?W) ps"
  let ?D = "sum_list ?d"
  let ?k = "largestIndex ?d"
  from ne have "1 \<le> int (length ps)" by (cases ps) simp_all
  then have "int (length ps) * t \<le> 1 * t" using t by (intro mult_right_mono_neg) simp_all
  with nb have tb: "- (2 ^ 53) < t" by simp
  have dW: "double_sum ps = ?W" using ps Wb by (rule double_sum_exact)
  have range: "\<forall>x\<in>set ?d. t \<le> x \<and> x \<le> 0"
  proof
    fix x assume "x \<in> set ?d"
    then obtain p where p: "p \<in> set ps" "x = round_share t p ?W" by auto
    from p(1) ps have "0 \<le> p" "p \<le> ?W" by (auto intro: elem_le_sum_list)
    from round_share_bounds_neg [OF t tb this W] p(2) show "t \<le> x \<and> x \<le> 0" by simp
  qed
  then have D0: "?D \<le> 0" by (intro sum_list_nonpos) blast
  have "int (length ?d) * t \<le> ?D" using range by (intro sum_list_ge_length_times) blast
  with nb have Db: "- (2 ^ 53) < ?D" by simp
  have dD: "double_sum ?d = ?D" using range Db by (intro double_sum_exact_nonpos) blast
  have "\<bar>t - ?D\<bar> < 2 ^ 53" using t tb D0 Db by linarith
  then have dd: "double_int (t - ?D) = t - ?D" by (rule double_int_exact)
  have kl: "?k < length ?d" using ne by (intro largestIndex_less) simp
  then have kin: "?d ! ?k \<in> set ?d" by (rule nth_mem)
  with range have k0: "t \<le> ?d ! ?k" "?d ! ?k \<le> 0" by blast+
  have "?D \<le> ?d ! ?k" using range kin by (intro elem_ge_sum_list) blast
  with k0 t tb D0 Db have "\<bar>?d ! ?k + (t - ?D)\<bar> < 2 ^ 53" by linarith
  then have da: "double_int (?d ! ?k + (t - ?D)) = ?d ! ?k + (t - ?D)" by (rule double_int_exact)
  show ?thesis
    using W by (simp add: distributeProportionally_double_def distributeProportionally_def
        distributeProportionally_with_def Let_def dW dD dd da del: length_map)
qed

text \<open>The two forms of the distribution agree on every total and every vector of
  non-negative weights, as long as the sum of the weights and the number of weights
  times the magnitude of the total stay below \<open>2 ^ 53\<close>.\<close>

lemma distribute_double_agrees:
  assumes ps: "\<forall>w\<in>set ps. 0 \<le> w" and Wb: "sum_list ps < 2 ^ 53"
    and nb: "int (length ps) * \<bar>t\<bar> < 2 ^ 53"
  shows "distributeProportionally_double t ps = distributeProportionally t ps"
proof (cases "sum_list ps = 0")
  case True
  moreover have "double_sum ps = sum_list ps" using ps Wb by (rule double_sum_exact)
  ultimately show ?thesis
    by (simp add: distributeProportionally_double_def distributeProportionally_def
        distributeProportionally_with_def)
next
  case False
  moreover have "0 \<le> sum_list ps" using ps by (simp add: sum_list_nonneg)
  ultimately have W: "0 < sum_list ps" by simp
  then have ne: "ps \<noteq> []" by auto
  show ?thesis
  proof (cases "0 \<le> t")
    case True
    with ne ps W Wb nb show ?thesis by (intro distribute_double_exact) simp_all
  next
    case False
    then have "t \<le> 0" "\<bar>t\<bar> = - t" by simp_all
    with ne ps W Wb nb show ?thesis by (intro distribute_double_exact_neg) simp_all
  qed
qed


text \<open>Rounded shares of the scenarios, evaluated once.\<close>

lemma round_share_values:
  "round_share 3000 8000 12000 = 2000"
  "round_share 3000 4000 12000 = 1000"
  "round_share 10000 10000 20000 = 5000"
  "round_share 10000 5000 20000 = 2500"
  "round_share 10000 5000 10000 = 5000"
  "round_share (- 3) 100 500 = - 1"
  "round_share 200 100 500 = 40"
  by code_simp+

subsection \<open>Claims C3 and C4\<close>

text \<open>
  Counterexample to C3 as stated: a total of \<open>2 ^ 53\<close> over three equal weights. Each
  share is 3002399751580331; their exact sum is \<open>2 ^ 53 + 1\<close>, which the running sum in
  doubles rounds to \<open>2 ^ 53\<close>, so the difference is 0, nothing is adjusted and the
  returned elements sum to one more than the total.
\<close>

theorem distribute_sum_counterexample:
  "(0::int) \<le> 9007199254740992 \<and> [1, 1, 1] \<noteq> ([]::int list)
   \<and> list_all (\<lambda>w. 0 \<le> w) [1, 1, 1 :: int] \<and> 0 < sum_list [1, 1, 1 :: int]
   \<and> (9007199254740992::int) = 2 ^ 53
   \<and> distributeProportionally_double 9007199254740992 [1, 1, 1]
       = [3002399751580331, 3002399751580331, 3002399751580331]
   \<and> length (distributeProportionally_double 9007199254740992 [1, 1, 1]) = 3
   \<and> sum_list (distributeProportionally_double 9007199254740992 [1, 1, 1]) = 9007199254740993
   \<and> sum_list (distributeProportionally_double 9007199254740992 [1, 1, 1]) \<noteq> 9007199254740992"
  by code_simp

text \<open>
  Claim C3, amended. For every total \<open>\<ge> 0\<close> and every non-empty vector of non-negative
  weights whose sum is positive, provided the sum of the weights and the number of weights
  times the total are both below \<open>2 ^ 53\<close>, the distribution computed in doubles has the
  length of the weights and its elements sum exactly to the total.
\<close>

theorem distribute_length_and_sum_amended:
  assumes "0 \<le> totalAmount" and "portions \<noteq> []"
    and "\<forall>w\<in>set portions. 0 \<le> w" and "0 < sum_list portions"
    and "sum_list portions < 2 ^ 53"
    and "int (length portions) * totalAmount < 2 ^ 53"
  shows "length (distributeProportionally_double totalAmount portions) = length portions
       \<and> sum_list (distributeProportionally_double totalAmount portions) = totalAmount"
proof -
  have "distributeProportionally_double totalAmount portions
        = distributeProportionally totalAmount portions"
    using assms by (rule distribute_double_exact)
  moreover have "sum_list (distributeProportionally totalAmount portions) = totalAmount"
    unfolding distributeProportionally_def using assms(4) by (intro distribute_with_sum) simp
  ultimately have "sum_list (distributeProportionally_double totalAmount portions) = totalAmount"
    by simp
  then show ?thesis by (simp add: distribute_double_length)
qed

text \<open>Witness for the amended C3: 22 cents over the weights \<open>[15, 29]\<close> gives
  \<open>[7, 15]\<close> (the first share is \<open>7.499999999999999\<close> in doubles, below the exact 7.5).\<close>

theorem distribute_length_and_sum_amended_witness:
  "(0::int) \<le> 22 \<and> [15, 29] \<noteq> ([]::int list) \<and> list_all (\<lambda>w. 0 \<le> w) [15, 29 :: int]
   \<and> 0 < sum_list [15, 29 :: int] \<and> sum_list [15, 29 :: int] < 2 ^ 53
   \<and> int (length [15, 29 :: int]) * 22 < 2 ^ 53
   \<and> distributeProportionally_double 22 [15, 29] = [7, 15]
   \<and> length (distributeProportionally_double 22 [15, 29]) = length [15, 29 :: int]
   \<and> sum_list (distributeProportionally_double 22 [15, 29]) = 22"
proof -
  have v: "distributeProportionally_double 22 [15, 29] = [7, 15]" by code_simp
  from distribute_length_and_sum_amended [of 22 "[15, 29]"]
  have "length (distributeProportionally_double 22 [15, 29]) = length [15, 29 :: int]
      \<and> sum_list (distributeProportionally_double 22 [15, 29]) = 22"
    by simp
  with v show ?thesis by simp
qed

text \<open>
  Counterexample to C4 as stated: two cents over four equal weights. Every share is
  \<open>2 * (1 / 4) = 0.5\<close>, exact in doubles, and rounds to 1; the difference \<open>-2\<close>
  lands on index 0, which becomes \<open>-1\<close>.
\<close>

theorem distribute_nonneg_counterexample:
  "(0::int) \<le> 2 \<and> [1, 1, 1, 1] \<noteq> ([]::int list) \<and> list_all (\<lambda>w. 0 \<le> w) [1, 1, 1, 1 :: int]
   \<and> 0 < sum_list [1, 1, 1, 1 :: int]
   \<and> distributeProportionally_double 2 [1, 1, 1, 1] = [- 1, 1, 1, 1]
   \<and> \<not> list_all (\<lambda>x. 0 \<le> x) (distributeProportionally_double 2 [1, 1, 1, 1])"
  by code_simp

text \<open>
  The negative element sits at the first index of the largest rounded share, which need
  not be index 0: 55 cents over sixteen weights, the shares being rounded in doubles to
  3, 3, 3, 3 and twelve times 4.
\<close>

lemma distribute_negative_at_largest:
  "map (\<lambda>portion. round_share 55 portion 330)
       [21, 15, 15, 15, 22, 22, 22, 22, 22, 22, 22, 22, 22, 22, 22, 22]
     = [3, 3, 3, 3, 4, 4, 4, 4, 4, 4, 4, 4, 4, 4, 4, 4]
   \<and> largestIndex [3, 3, 3, 3, 4, 4, 4, 4, 4, 4, 4, 4, 4, 4, 4, 4] = 4
   \<and> distributeProportionally_double 55
         [21, 15, 15, 15, 22, 22, 22, 22, 22, 22, 22, 22, 22, 22, 22, 22]
       = [3, 3, 3, 3, - 1, 4, 4, 4, 4, 4, 4, 4, 4, 4, 4, 4]"
  by code_simp

text \<open>
  Claim C4, amended. For every total \<open>\<ge> 0\<close> and every non-empty vector of non-negative
  weights whose sum is positive, provided the sum of the weights and the number of weights
  times the total are both below \<open>2 ^ 53\<close>: every element of the distribution computed
  in doubles, other than the one at the first index of the largest rounded share (the
  element that absorbs the rounding difference), lies between 0 and the total; and with at
  most three weights and a total below \<open>2 ^ 50\<close> every element is \<open>\<ge> 0\<close>.
\<close>

theorem distribute_nonneg_amended:
  assumes "0 \<le> totalAmount" and "portions \<noteq> []"
    and "\<forall>w\<in>set portions. 0 \<le> w" and "0 < sum_list portions"
    and "sum_list portions < 2 ^ 53"
    and "int (length portions) * totalAmount < 2 ^ 53"
  shows "(\<forall>i<length portions.
            i \<noteq> largestIndex
                  (map (\<lambda>portion. round_share totalAmount portion (double_sum portions)) portions)
            \<longrightarrow> 0 \<le> distributeProportionally_double totalAmount portions ! i
                \<and> distributeProportionally_double totalAmount portions ! i \<le> totalAmount)
       \<and> (length portions \<le> 3 \<and> totalAmount < 2 ^ 50 \<longrightarrow>
            (\<forall>i<length portions. 0 \<le> distributeProportionally_double totalAmount portions ! i))"
proof (intro conjI allI impI)
  fix i
  assume i: "i < length portions"
    and "i \<noteq> largestIndex
                  (map (\<lambda>portion. round_share totalAmount portion (double_sum portions)) portions)"
  with assms have "0 \<le> distributeProportionally_double totalAmount portions ! i
      \<and> distributeProportionally_double totalAmount portions ! i \<le> totalAmount"
    by (intro distribute_nth_other) auto
  then show "0 \<le> distributeProportionally_double totalAmount portions ! i"
    and "distributeProportionally_double totalAmount portions ! i \<le> totalAmount"
    by simp_all
next
  fix i
  assume len: "length portions \<le> 3 \<and> totalAmount < 2 ^ 50" and i: "i < length portions"
  show "0 \<le> distributeProportionally_double totalAmount portions ! i"
  proof (cases "i = largestIndex
                  (map (\<lambda>portion. round_share totalAmount portion (double_sum portions)) portions)")
    case True
    with assms len show ?thesis by (intro distribute_nth_largest) auto
  next
    case False
    with assms i show ?thesis using distribute_nth_other by blast
  qed
qed

text \<open>Witness for the amended C4: 10 cents over the weights \<open>[33, 33, 34]\<close>. The
  shares are rounded to 3, 3, 3 and the difference of 1 goes to index 0.\<close>

theorem distribute_nonneg_amended_witness:
  "(0::int) \<le> 10 \<and> [33, 33, 34] \<noteq> ([]::int list) \<and> list_all (\<lambda>w. 0 \<le> w) [33, 33, 34 :: int]
   \<and> 0 < sum_list [33, 33, 34 :: int] \<and> sum_list [33, 33, 34 :: int] < 2 ^ 53
   \<and> int (length [33, 33, 34 :: int]) * 10 < 2 ^ 53
   \<and> length [33, 33, 34 :: int] \<le> 3 \<and> (10::int) < 2 ^ 50
   \<and> largestIndex (map (\<lambda>portion. round_share 10 portion (double_sum [33, 33, 34]))
         [33, 33, 34]) = 0
   \<and> distributeProportionally_double 10 [33, 33, 34] = [4, 3, 3]
   \<and> 0 \<le> distributeProportionally_double 10 [33, 33, 34] ! 1
   \<and> distributeProportionally_double 10 [33, 33, 34] ! 1 \<le> 10
   \<and> list_all (\<lambda>x. 0 \<le> x) (distributeProportionally_double 10 [33, 33, 34])"
proof -
  have v: "distributeProportionally_double 10 [33, 33, 34] = [4, 3, 3]" by code_simp
  have k: "largestIndex (map (\<lambda>portion. round_share 10 portion (double_sum [33, 33, 34]))
         [33, 33, 34]) = 0"
    by code_simp
  note t = distribute_nonneg_amended [of 10 "[33, 33, 34]"]
  from t have "\<forall>i<length [33, 33, 34 :: int].
          0 \<le> distributeProportionally_double 10 [33, 33, 34] ! i"
    by simp
  moreover from t k have "0 \<le> distributeProportionally_double 10 [33, 33, 34] ! 1
      \<and> distributeProportionally_double 10 [33, 33, 34] ! 1 \<le> 10"
    by simp
  ultimately show ?thesis using v k by simp
qed

section \<open>Proofs: frame lemmas\<close>

lemma parseInt_plain: "\<bar>n\<bar> < 10 ^ 21 \<Longrightarrow> parseInt n = n"
  by (simp add: parseInt_def)

lemmas model_defs =
  completeCheckout_def validatePaymentAmounts_def getTransactionById_def checkout_try_def
  authorize_def authorize_all_def call_def updateTransactionStatus_def updatePaymentStatus_def
  cancelPaymentIntents_def cancelPaymentIntent_def capturePaymentIntent_def
  getPaymentByPaymentIntentId_def getPaymentsByTransactionId_def getRefundsByTransactionId_def
  truthy_def Let_def processRefund_def calculateProportionalRefunds_def
  distributeProportionally_def distributeProportionally_with_def round_share_values
  largestIndex_def createRefund_def next_id_def createPayment_def createPaymentIntent_def
  handlePaymentIntentSucceeded_def handlePaymentIntentFailed_def
  route_complete_checkout_def route_remove_payment_def route_create_payment_intent_def
  route_init_def createShopifyOrder_def getStoreByDomain_def updateTransactionOrder_def
  getTransactionByCheckoutToken_def createTransaction_def amount_missing_def
  run_operations_def scripted_stripe_def scripted_shopify_def payment_row_def scenario_world_def
  validateShopDomain_def validateCheckoutToken_def is_alnum_def parseInt_plain

lemma call_fields [simp]:
  "payments (call c w) = payments w" "transactions (call c w) = transactions w"
  "refunds (call c w) = refunds w" "widgetSessions (call c w) = widgetSessions w"
  "stores (call c w) = stores w" "stripe_calls (call c w) = stripe_calls w @ [c]"
  by (simp_all add: call_def)

lemma updateTransactionStatus_fields [simp]:
  "payments (updateTransactionStatus tid s r w) = payments w"
  "refunds (updateTransactionStatus tid s r w) = refunds w"
  "widgetSessions (updateTransactionStatus tid s r w) = widgetSessions w"
  "stores (updateTransactionStatus tid s r w) = stores w"
  "stripe_calls (updateTransactionStatus tid s r w) = stripe_calls w"
  by (simp_all add: updateTransactionStatus_def)

lemma updatePaymentStatus_fields [simp]:
  "transactions (updatePaymentStatus pid s c m w) = transactions w"
  "refunds (updatePaymentStatus pid s c m w) = refunds w"
  "widgetSessions (updatePaymentStatus pid s c m w) = widgetSessions w"
  "stores (updatePaymentStatus pid s c m w) = stores w"
  "stripe_calls (updatePaymentStatus pid s c m w) = stripe_calls w"
  by (simp_all add: updatePaymentStatus_def)

lemma createRefund_fields [simp]:
  "payments (snd (createRefund tid pid rid a s w)) = payments w"
  "transactions (snd (createRefund tid pid rid a s w)) = transactions w"
  "widgetSessions (snd (createRefund tid pid rid a s w)) = widgetSessions w"
  "stores (snd (createRefund tid pid rid a s w)) = stores w"
  "stripe_calls (snd (createRefund tid pid rid a s w)) = stripe_calls w"
  by (simp_all add: createRefund_def Let_def)


lemma find_update_same:
  "find (\<lambda>t. t_id t = tid) ts = Some t \<Longrightarrow>
   find (\<lambda>t. t_id t = tid) (map (\<lambda>t. if t_id t = tid then f t else t) ts) = Some (f t)"
  if "\<And>t. t_id (f t) = t_id t"
  using that by (induction ts) (auto split: if_splits)

lemma getTransactionById_updateTransactionStatus:
  assumes "getTransactionById w tid = Some t"
  shows "map_option t_status (getTransactionById (updateTransactionStatus tid s r w) tid) = Some s"
proof -
  let ?f = "\<lambda>t. t\<lparr>t_status := s,
     t_failure_reason := (if truthy r then r else t_failure_reason t)\<rparr>"
  have "find (\<lambda>t. t_id t = tid) (map (\<lambda>t. if t_id t = tid then ?f t else t) (transactions w))
        = Some (?f t)"
    using assms unfolding getTransactionById_def by (intro find_update_same) auto
  then show ?thesis
    by (simp add: getTransactionById_def updateTransactionStatus_def)
qed

lemma process_splits_payments [simp]:
  "payments (fst (process_splits stripe tid ss w)) = payments w"
  by (induction ss arbitrary: w)
     (simp_all add: split_beta Let_def createRefund_def split: option.splits sum.splits)

lemma process_splits_transactions [simp]:
  "transactions (fst (process_splits stripe tid ss w)) = transactions w"
  by (induction ss arbitrary: w)
     (simp_all add: split_beta Let_def createRefund_def split: option.splits sum.splits)

lemma process_splits_sessions [simp]:
  "widgetSessions (fst (process_splits stripe tid ss w)) = widgetSessions w"
  by (induction ss arbitrary: w)
     (simp_all add: split_beta Let_def createRefund_def split: option.splits sum.splits)


lemma div_twice_self: "(W::int) div (2 * W) = 0"
proof (cases "W = 0")
  case True
  then show ?thesis by simp
next
  case False
  show ?thesis
  proof (cases "0 < W")
    case True
    then show ?thesis by (simp add: div_pos_pos_trivial)
  next
    case False
    with \<open>W \<noteq> 0\<close> have "W < 0" by simp
    then show ?thesis by (simp add: div_neg_neg_trivial)
  qed
qed

lemma round_share_zero: "round_share 0 p W = 0"
  by (rule round_share_zero_total)

lemma sum_list_zeros: "sum_list (map (\<lambda>_. 0::int) ps) = 0"
  by (induction ps) auto

lemma distribute_zero: "distributeProportionally 0 ps = map (\<lambda>_. 0) ps"
  by (simp add: distributeProportionally_def distributeProportionally_with_def Let_def
      round_share_zero sum_list_zeros)

lemma splits_zero:
  "filter (\<lambda>r. rs_refundAmount r > 0) (calculateProportionalRefunds ps 0) = []"
  by (auto simp: calculateProportionalRefunds_def distribute_zero Let_def filter_empty_conv
      in_set_zip)

lemma already_refunded_nonneg:
  "\<forall>r\<in>set (refunds w). 0 \<le> r_amount r \<Longrightarrow> 0 \<le> already_refunded w tid"
  unfolding already_refunded_def
  by (intro sum_list_nonneg) auto

text \<open>The \<^verbatim>\<open>totalRefunded\<close> that \<^verbatim>\<open>processRefund\<close> computes from the rows returned by
  \<^verbatim>\<open>getRefundsByTransactionId\<close> is the sum read off the table.\<close>

lemma totalRefunded_already_refunded:
  "sum_list (map r_amount (filter (\<lambda>r. r_status r = R_succeeded)
     (getRefundsByTransactionId w tid))) = already_refunded w tid"
proof -
  have "filter (\<lambda>r. r_status r = R_succeeded) (getRefundsByTransactionId w tid)
        = rev (filter (\<lambda>r. r_transaction_id r = tid \<and> r_status r = R_succeeded) (refunds w))"
    by (simp add: getRefundsByTransactionId_def rev_filter [symmetric] conj_commute)
  then show ?thesis
    by (simp add: already_refunded_def rev_map [symmetric] sum_list_rev)
qed


lemma processRefund_accepted:
  assumes "getTransactionById w tid = Some t" "t_status t = T_completed"
    "amount \<le> t_total_amount t - already_refunded w tid"
    "filter (\<lambda>r. rs_refundAmount r > 0)
       (calculateProportionalRefunds (getPaymentsByTransactionId w tid) amount) \<noteq> []"
    "getPaymentsByTransactionId w tid \<noteq> []"
  shows "processRefund stripe tid amount w =
     (let splits = filter (\<lambda>r. rs_refundAmount r > 0)
            (calculateProportionalRefunds (getPaymentsByTransactionId w tid) amount);
          w1 = fst (process_splits stripe tid splits w);
          results = snd (process_splits stripe tid splits w);
          new = already_refunded w tid + amount
      in ((if new \<ge> t_total_amount t then updateTransactionStatus tid T_refunded None w1
           else if new > 0 then updateTransactionStatus tid T_partially_refunded None w1
           else w1),
          Inr \<lparr>ro_success = list_all (\<lambda>r. refund_result_status r = ''succeeded''
                                       \<or> refund_result_status r = ''pending'') results,
               ro_refunds = results, ro_totalRefunded = new,
               ro_transactionStatus = (if new \<ge> t_total_amount t then T_refunded
                                       else T_partially_refunded)\<rparr>))"
  using assms unfolding processRefund_def
  by (simp add: Let_def split_beta totalRefunded_already_refunded)



section \<open>Proofs: refunds\<close>

text \<open>
  Claim C7, amended. For a transaction that exists, a refund request is rejected by the
  status check exactly when the transaction's status is not \<open>completed\<close>, and then
  nothing is changed; in particular a transaction in \<open>partially_refunded\<close> is rejected.
  A request on a \<open>completed\<close> transaction that has payments, passes the amount check
  and has a positive split is accepted.
\<close>

theorem refund_status_guard:
  assumes "getTransactionById w transactionId = Some transaction"
  shows "(snd (processRefund stripe transactionId refundAmount w) = Inl OnlyCompletedTransactions
            \<longleftrightarrow> t_status transaction \<noteq> T_completed)
       \<and> (t_status transaction \<noteq> T_completed \<longrightarrow>
            fst (processRefund stripe transactionId refundAmount w) = w)
       \<and> (t_status transaction = T_completed
            \<and> getPaymentsByTransactionId w transactionId \<noteq> []
            \<and> refundAmount \<le> t_total_amount transaction - already_refunded w transactionId
            \<and> filter (\<lambda>r. rs_refundAmount r > 0)
                 (calculateProportionalRefunds (getPaymentsByTransactionId w transactionId)
                    refundAmount) \<noteq> []
            \<longrightarrow> (\<exists>outcome. snd (processRefund stripe transactionId refundAmount w) = Inr outcome))"
proof (intro conjI impI)
  show "snd (processRefund stripe transactionId refundAmount w) = Inl OnlyCompletedTransactions
        \<longleftrightarrow> t_status transaction \<noteq> T_completed"
    using assms unfolding processRefund_def
    by (auto simp: Let_def split_beta)
next
  assume "t_status transaction \<noteq> T_completed"
  with assms show "fst (processRefund stripe transactionId refundAmount w) = w"
    unfolding processRefund_def by simp
next
  assume a: "t_status transaction = T_completed
     \<and> getPaymentsByTransactionId w transactionId \<noteq> []
     \<and> refundAmount \<le> t_total_amount transaction - already_refunded w transactionId
     \<and> filter (\<lambda>r. rs_refundAmount r > 0)
          (calculateProportionalRefunds (getPaymentsByTransactionId w transactionId)
             refundAmount) \<noteq> []"
  show "\<exists>outcome. snd (processRefund stripe transactionId refundAmount w) = Inr outcome"
    using a assms by (simp add: processRefund_accepted Let_def)
qed

text \<open>
  Witness for the amended C7: the completed transaction of scenario S3 (payments of
  8000 and 4000 captured) is not rejected by the status check.
\<close>

theorem refund_status_guard_witness:
  "getTransactionById s3_world 1 \<noteq> None
   \<and> t_status (the (getTransactionById s3_world 1)) = T_completed
   \<and> snd (processRefund (scripted_stripe [] True) 1 3000 s3_world)
       \<noteq> Inl OnlyCompletedTransactions"
proof -
  have tx: "getTransactionById s3_world 1 = Some (hd (transactions s3_world))"
    by (simp add: model_defs s3_world_def)
  have st: "t_status (hd (transactions s3_world)) = T_completed"
    by (simp add: model_defs s3_world_def)
  from refund_status_guard [OF tx, of "scripted_stripe [] True" 3000] st
  have "snd (processRefund (scripted_stripe [] True) 1 3000 s3_world)
        \<noteq> Inl OnlyCompletedTransactions"
    by blast
  with tx st show ?thesis by simp
qed

text \<open>
  Counterexample to C7 as stated: after a first refund of 3000 the transaction of
  scenario S3 is \<open>partially_refunded\<close>; a further refund of 1000, well within the
  remaining 9000, is rejected by the status check.
\<close>

theorem refund_partially_refunded_counterexample:
  "map t_status (transactions (fst (processRefund (scripted_stripe [] True) 1 3000 s3_world)))
     = [T_partially_refunded]
   \<and> map r_amount (refunds (fst (processRefund (scripted_stripe [] True) 1 3000 s3_world)))
     = [2000, 1000]
   \<and> snd (processRefund (scripted_stripe [] True) 1 1000
            (fst (processRefund (scripted_stripe [] True) 1 3000 s3_world)))
     = Inl OnlyCompletedTransactions"
  by (simp add: model_defs s3_world_def)

lemma split_length [simp]:
  "length (calculateProportionalRefunds ps amount) = length ps"
  by (simp add: calculateProportionalRefunds_def Let_def)

lemma split_nth:
  "i < length ps \<Longrightarrow>
   calculateProportionalRefunds ps amount ! i =
     \<lparr>rs_paymentId = p_id (ps ! i),
      rs_stripePaymentIntentId = p_stripe_payment_intent_id (ps ! i),
      rs_originalAmount = p_amount (ps ! i),
      rs_refundAmount = distributeProportionally amount (map p_amount ps) ! i\<rparr>"
  by (simp add: calculateProportionalRefunds_def Let_def)

lemma split_amounts:
  "map rs_refundAmount (calculateProportionalRefunds ps amount)
   = distributeProportionally amount (map p_amount ps)"
  by (intro nth_equalityI)
     (simp_all add: split_nth distributeProportionally_def distribute_with_length)

text \<open>Within the range of the doubles the split is the one computed in doubles.\<close>

lemma split_amounts_double:
  assumes "\<forall>p\<in>set ps. 0 \<le> p_amount p" and "sum_list (map p_amount ps) < 2 ^ 53"
    and "int (length ps) * \<bar>amount\<bar> < 2 ^ 53"
  shows "map rs_refundAmount (calculateProportionalRefunds ps amount)
         = distributeProportionally_double amount (map p_amount ps)"
  using assms by (simp add: split_amounts distribute_double_agrees)










lemma sum_list_positive:
  "xs \<noteq> [] \<Longrightarrow> \<forall>x\<in>set xs. 0 < x \<Longrightarrow> 0 < sum_list (xs::int list)"
proof (induction xs)
  case Nil
  then show ?case by simp
next
  case (Cons a xs)
  have "0 \<le> sum_list xs"
    using Cons.prems by (intro sum_list_nonneg) (auto simp: less_imp_le)
  with Cons.prems show ?case by simp
qed

lemma positive_split_exists:
  assumes "0 < refundAmount" and "ps \<noteq> []" and "\<forall>p\<in>set ps. 0 < p_amount p"
  shows "filter (\<lambda>r. rs_refundAmount r > 0) (calculateProportionalRefunds ps refundAmount) \<noteq> []"
proof -
  have "0 < sum_list (map p_amount ps)"
    using assms(2,3) by (intro sum_list_positive) auto
  then have "sum_list (distributeProportionally refundAmount (map p_amount ps)) = refundAmount"
    unfolding distributeProportionally_def by (intro distribute_with_sum) simp
  with assms(1) have "0 < sum_list (map rs_refundAmount (calculateProportionalRefunds ps refundAmount))"
    by (simp add: split_amounts)
  then obtain i where "i < length (calculateProportionalRefunds ps refundAmount)"
    "0 < rs_refundAmount (calculateProportionalRefunds ps refundAmount ! i)"
    using sum_list_pos_elem [of "map rs_refundAmount (calculateProportionalRefunds ps refundAmount)"]
    by auto
  then have "\<exists>r\<in>set (calculateProportionalRefunds ps refundAmount). 0 < rs_refundAmount r"
    using nth_mem by blast
  then show ?thesis by (simp add: filter_empty_conv)
qed

text \<open>
  Counterexample to C10 as stated: a refund of \<open>-3\<close> on a completed transaction of 500
  with five captured payments of 100. The request passes the status check and the
  remaining-refundable check (\<open>-3 \<le> 500\<close>); the split is \<open>[1, -1, -1, -1, -1]\<close>, so a
  refund of 1 is created on the first payment. The returned total is \<open>-3\<close> and the
  returned status is \<open>partially_refunded\<close>, but the new total is not positive, no status
  is written and the transaction stays \<open>completed\<close>. The split is the same when every
  step of the distribution is taken in doubles.
\<close>

theorem refund_negative_amount_counterexample:
  "map t_status (transactions five_cards_world) = [T_completed]
   \<and> map t_total_amount (transactions five_cards_world) = [500]
   \<and> map p_status (getPaymentsByTransactionId five_cards_world 1)
       = [P_captured, P_captured, P_captured, P_captured, P_captured]
   \<and> already_refunded five_cards_world 1 = 0
   \<and> map rs_refundAmount
         (calculateProportionalRefunds (getPaymentsByTransactionId five_cards_world 1) (- 3))
       = [1, - 1, - 1, - 1, - 1]
   \<and> snd (processRefund (scripted_stripe [] True) 1 (- 3) five_cards_world)
       = Inr \<lparr>ro_success = True,
              ro_refunds = [RefundCreated 1 1 ''re_pi_1'' 1 ''succeeded''],
              ro_totalRefunded = - 3, ro_transactionStatus = T_partially_refunded\<rparr>
   \<and> map t_status
         (transactions (fst (processRefund (scripted_stripe [] True) 1 (- 3) five_cards_world)))
       = [T_completed]
   \<and> map r_amount
         (refunds (fst (processRefund (scripted_stripe [] True) 1 (- 3) five_cards_world)))
       = [1]
   \<and> distributeProportionally_double (- 3) [100, 100, 100, 100, 100] = [1, - 1, - 1, - 1, - 1]"
proof -
  have "distributeProportionally_double (- 3) [100, 100, 100, 100, 100] = [1, - 1, - 1, - 1, - 1]"
    by code_simp
  then show ?thesis
    by (simp add: already_refunded_def model_defs five_cards_world_def)
qed

text \<open>
  Claim C10, amended. Take a refund request that passes the status check and the
  remaining-refundable check, for any provider. If the transaction has no payment row the
  request is rejected, and if no split is positive it is rejected as too small; in both
  cases nothing is changed. Otherwise \<^verbatim>\<open>processRefund\<close> returns: the returned total
  is the already refunded sum plus the whole requested amount; the returned status is
  \<open>refunded\<close> when that total reaches the transaction's total and \<open>partially_refunded\<close>
  otherwise; the transaction row is set to \<open>refunded\<close> when that total reaches the
  transaction's total, to \<open>partially_refunded\<close> when it is positive and below it, and is
  left \<open>completed\<close> when it is not positive. None of this depends on the outcome of the
  provider's refund calls; only the success flag reflects the per-split results.
\<close>

theorem refund_total_and_status_amended:
  assumes "getTransactionById w transactionId = Some transaction"
    and "t_status transaction = T_completed"
    and "refundAmount \<le> t_total_amount transaction - already_refunded w transactionId"
  shows "(getPaymentsByTransactionId w transactionId = [] \<longrightarrow>
            processRefund stripe transactionId refundAmount w = (w, Inl NoPaymentsFound))
       \<and> (getPaymentsByTransactionId w transactionId \<noteq> []
            \<and> filter (\<lambda>r. rs_refundAmount r > 0)
                 (calculateProportionalRefunds (getPaymentsByTransactionId w transactionId)
                    refundAmount) = [] \<longrightarrow>
            processRefund stripe transactionId refundAmount w = (w, Inl TooSmallToDistribute))
       \<and> (getPaymentsByTransactionId w transactionId \<noteq> []
            \<and> filter (\<lambda>r. rs_refundAmount r > 0)
                 (calculateProportionalRefunds (getPaymentsByTransactionId w transactionId)
                    refundAmount) \<noteq> [] \<longrightarrow>
            (\<exists>outcome.
               snd (processRefund stripe transactionId refundAmount w) = Inr outcome
             \<and> ro_totalRefunded outcome = already_refunded w transactionId + refundAmount
             \<and> ro_transactionStatus outcome =
                 (if already_refunded w transactionId + refundAmount
                       \<ge> t_total_amount transaction
                  then T_refunded else T_partially_refunded)
             \<and> map_option t_status
                 (getTransactionById (fst (processRefund stripe transactionId refundAmount w))
                    transactionId)
                 = Some (if already_refunded w transactionId + refundAmount
                              \<ge> t_total_amount transaction then T_refunded
                         else if already_refunded w transactionId + refundAmount > 0
                         then T_partially_refunded else T_completed)
             \<and> ro_success outcome =
                 list_all (\<lambda>r. refund_result_status r = ''succeeded''
                                \<or> refund_result_status r = ''pending'') (ro_refunds outcome)))"
proof (intro conjI impI)
  assume "getPaymentsByTransactionId w transactionId = []"
  with assms show "processRefund stripe transactionId refundAmount w = (w, Inl NoPaymentsFound)"
    unfolding processRefund_def by simp
next
  assume "getPaymentsByTransactionId w transactionId \<noteq> []
     \<and> filter (\<lambda>r. rs_refundAmount r > 0)
          (calculateProportionalRefunds (getPaymentsByTransactionId w transactionId)
             refundAmount) = []"
  with assms
  show "processRefund stripe transactionId refundAmount w = (w, Inl TooSmallToDistribute)"
    unfolding processRefund_def
    by (simp add: Let_def totalRefunded_already_refunded)
next
  let ?splits = "filter (\<lambda>r. rs_refundAmount r > 0)
       (calculateProportionalRefunds (getPaymentsByTransactionId w transactionId) refundAmount)"
  let ?new = "already_refunded w transactionId + refundAmount"
  let ?status = "if ?new \<ge> t_total_amount transaction then T_refunded else T_partially_refunded"
  let ?row = "if ?new \<ge> t_total_amount transaction then T_refunded
              else if ?new > 0 then T_partially_refunded else T_completed"
  let ?w1 = "fst (process_splits stripe transactionId ?splits w)"
  let ?results = "snd (process_splits stripe transactionId ?splits w)"
  assume a: "getPaymentsByTransactionId w transactionId \<noteq> [] \<and> ?splits \<noteq> []"
  then have ne: "?splits \<noteq> []" and ps: "getPaymentsByTransactionId w transactionId \<noteq> []"
    by simp_all
  have eq: "processRefund stripe transactionId refundAmount w =
     ((if ?new \<ge> t_total_amount transaction
       then updateTransactionStatus transactionId T_refunded None ?w1
       else if ?new > 0
       then updateTransactionStatus transactionId T_partially_refunded None ?w1
       else ?w1),
      Inr \<lparr>ro_success = list_all (\<lambda>r. refund_result_status r = ''succeeded''
                                       \<or> refund_result_status r = ''pending'') ?results,
           ro_refunds = ?results, ro_totalRefunded = ?new, ro_transactionStatus = ?status\<rparr>)"
    by (simp add: processRefund_accepted [OF assms(1,2,3) ne ps] Let_def)
  have found: "getTransactionById ?w1 transactionId = Some transaction"
    using assms(1) by (simp add: getTransactionById_def)
  have db: "map_option t_status
       (getTransactionById (fst (processRefund stripe transactionId refundAmount w))
          transactionId) = Some ?row"
    unfolding eq fst_conv
    using getTransactionById_updateTransactionStatus [OF found] found assms(2)
    by simp
  show "\<exists>outcome.
               snd (processRefund stripe transactionId refundAmount w) = Inr outcome
             \<and> ro_totalRefunded outcome = ?new
             \<and> ro_transactionStatus outcome = ?status
             \<and> map_option t_status
                 (getTransactionById (fst (processRefund stripe transactionId refundAmount w))
                    transactionId)
                 = Some ?row
             \<and> ro_success outcome =
                 list_all (\<lambda>r. refund_result_status r = ''succeeded''
                                \<or> refund_result_status r = ''pending'') (ro_refunds outcome)"
    unfolding db by (simp add: eq)
qed

text \<open>
  Witness for the amended C10. After the refund of \<open>-3\<close> above, 1 is already refunded on
  the transaction of 500, which is still \<open>completed\<close>. A refund of 200 with a provider
  whose refund calls all fail creates no refund row, yet 201 is reported as refunded and
  the transaction becomes \<open>partially_refunded\<close>. A refund of 0 passes both checks and is
  rejected as too small, and a refund on a completed transaction without payment rows is
  rejected for that.
\<close>

theorem refund_total_and_status_amended_witness:
  "getTransactionById one_refunded_world 1 \<noteq> None
   \<and> t_status (the (getTransactionById one_refunded_world 1)) = T_completed
   \<and> t_total_amount (the (getTransactionById one_refunded_world 1)) = 500
   \<and> already_refunded one_refunded_world 1 = 1
   \<and> (200::int) \<le> t_total_amount (the (getTransactionById one_refunded_world 1))
         - already_refunded one_refunded_world 1
   \<and> map rs_refundAmount
         (calculateProportionalRefunds (getPaymentsByTransactionId one_refunded_world 1) 200)
       = [40, 40, 40, 40, 40]
   \<and> snd (processRefund (scripted_stripe [] False) 1 200 one_refunded_world) =
       Inr \<lparr>ro_success = False,
            ro_refunds = [RefundFailed 1 ''Network error'', RefundFailed 2 ''Network error'',
                          RefundFailed 3 ''Network error'', RefundFailed 4 ''Network error'',
                          RefundFailed 5 ''Network error''],
            ro_totalRefunded = 201, ro_transactionStatus = T_partially_refunded\<rparr>
   \<and> map r_amount
        (refunds (fst (processRefund (scripted_stripe [] False) 1 200 one_refunded_world))) = [1]
   \<and> map_option t_status
        (getTransactionById
           (fst (processRefund (scripted_stripe [] False) 1 200 one_refunded_world)) 1)
      = Some T_partially_refunded
   \<and> map rs_refundAmount
         (calculateProportionalRefunds (getPaymentsByTransactionId one_refunded_world 1) 0)
       = [0, 0, 0, 0, 0]
   \<and> processRefund (scripted_stripe [] True) 1 0 one_refunded_world
       = (one_refunded_world, Inl TooSmallToDistribute)
   \<and> getPaymentsByTransactionId (scenario_world T_completed 500 []) 1 = []
   \<and> processRefund (scripted_stripe [] True) 1 200 (scenario_world T_completed 500 [])
       = (scenario_world T_completed 500 [], Inl NoPaymentsFound)"
proof -
  let ?w = one_refunded_world
  let ?tx = "the (getTransactionById ?w 1)"
  let ?out = "\<lparr>ro_success = False,
            ro_refunds = [RefundFailed 1 ''Network error'', RefundFailed 2 ''Network error'',
                          RefundFailed 3 ''Network error'', RefundFailed 4 ''Network error'',
                          RefundFailed 5 ''Network error''],
            ro_totalRefunded = 201, ro_transactionStatus = T_partially_refunded\<rparr>"
  let ?e = "scenario_world T_completed 500 []"
  let ?etx = "the (getTransactionById ?e 1)"
  have ne: "getTransactionById ?w 1 \<noteq> None"
    by (simp add: one_refunded_world_def model_defs five_cards_world_def)
  then have tx: "getTransactionById ?w 1 = Some ?tx" by simp
  have st: "t_status ?tx = T_completed" and tot: "t_total_amount ?tx = 500"
    by (simp_all add: one_refunded_world_def model_defs five_cards_world_def)
  have al: "already_refunded ?w 1 = 1"
    by (simp add: already_refunded_def one_refunded_world_def model_defs five_cards_world_def)
  have le: "(200::int) \<le> t_total_amount ?tx - already_refunded ?w 1"
    unfolding al tot by simp
  have le0: "(0::int) \<le> t_total_amount ?tx - already_refunded ?w 1"
    unfolding al tot by simp
  have sp: "map rs_refundAmount
         (calculateProportionalRefunds (getPaymentsByTransactionId ?w 1) 200)
       = [40, 40, 40, 40, 40]"
    by (simp add: one_refunded_world_def model_defs five_cards_world_def)
  then have ps: "getPaymentsByTransactionId ?w 1 \<noteq> []"
    "filter (\<lambda>r. rs_refundAmount r > 0)
       (calculateProportionalRefunds (getPaymentsByTransactionId ?w 1) 200) \<noteq> []"
    by (auto simp: filter_empty_conv calculateProportionalRefunds_def Let_def)
  have sp0: "map rs_refundAmount
         (calculateProportionalRefunds (getPaymentsByTransactionId ?w 1) 0)
       = [0, 0, 0, 0, 0]"
    by (simp add: one_refunded_world_def model_defs five_cards_world_def round_share_zero_total)
  have ps0: "filter (\<lambda>r. rs_refundAmount r > 0)
       (calculateProportionalRefunds (getPaymentsByTransactionId ?w 1) 0) = []"
    by (rule splits_zero)
  have r: "snd (processRefund (scripted_stripe [] False) 1 200 ?w) = Inr ?out"
    by (simp add: one_refunded_world_def model_defs five_cards_world_def)
  have rows: "map r_amount (refunds (fst (processRefund (scripted_stripe [] False) 1 200 ?w)))
              = [1]"
    by (simp add: one_refunded_world_def model_defs five_cards_world_def)
  from refund_total_and_status_amended [OF tx st le, of "scripted_stripe [] False"] ps r al tot
  have a: "map_option t_status
        (getTransactionById (fst (processRefund (scripted_stripe [] False) 1 200 ?w)) 1)
      = Some T_partially_refunded"
    by auto
  from refund_total_and_status_amended [OF tx st le0, of "scripted_stripe [] True"] ps(1) ps0
  have b: "processRefund (scripted_stripe [] True) 1 0 ?w = (?w, Inl TooSmallToDistribute)"
    by blast
  have etx: "getTransactionById ?e 1 = Some ?etx" "t_status ?etx = T_completed"
    "(200::int) \<le> t_total_amount ?etx - already_refunded ?e 1"
    "getPaymentsByTransactionId ?e 1 = []"
    by (simp_all add: already_refunded_def model_defs)
  from refund_total_and_status_amended [OF etx(1,2,3), of "scripted_stripe [] True"] etx(4)
  have c: "processRefund (scripted_stripe [] True) 1 200 ?e = (?e, Inl NoPaymentsFound)"
    by blast
  from ne st tot al le sp r rows a sp0 b etx(4) c show ?thesis by simp
qed

section \<open>Proofs: payment status writes\<close>

lemma status_writes_refl [simp]: "status_writes S ps ps"
  by (simp add: status_writes_def list_all2_refl)

lemma status_writes_trans:
  assumes "status_writes S ps ps'" and "status_writes S ps' ps''"
  shows "status_writes S ps ps''"
proof -
  let ?R = "\<lambda>p p'. p_id p' = p_id p \<and> (p_status p' = p_status p \<or> p_status p' \<in> S)"
  have "\<And>a b c. ?R a b \<Longrightarrow> ?R b c \<Longrightarrow> ?R a c" by auto
  then have "list_all2 ?R ps ps''"
    using assms unfolding status_writes_def by (rule list_all2_trans)
  then show ?thesis by (simp add: status_writes_def)
qed

lemma status_writes_updatePaymentStatus:
  "s \<in> S \<Longrightarrow> status_writes S (payments w) (payments (updatePaymentStatus pid s c m w))"
  by (simp add: status_writes_def updatePaymentStatus_def list_all2_map2 list_all2_refl)

lemma cancelPaymentIntent_payments [simp]:
  "payments (fst (cancelPaymentIntent stripe pi w)) = payments w"
  by (simp add: cancelPaymentIntent_def)

lemma cancelPaymentIntents_payments [simp]:
  "payments (cancelPaymentIntents stripe pis w) = payments w"
  unfolding cancelPaymentIntents_def
  by (induction pis arbitrary: w) simp_all

lemma retrieve_all_payments [simp]:
  "payments (fst (retrieve_all stripe ps w)) = payments w"
  by (induction ps arbitrary: w) (simp_all add: split_beta Let_def)

lemma authorize_payments [simp]: "payments (fst (authorize stripe p r w)) = payments w"
  by (simp add: authorize_def Let_def split: sum.splits)

lemma authorize_each_payments [simp]:
  "payments (fst (authorize_each stripe prs w)) = payments w"
proof (induction prs arbitrary: w)
  case Nil
  then show ?case by simp
next
  case (Cons a prs)
  obtain p r where "a = (p, r)" by (cases a)
  with Cons show ?case by (simp add: split_beta)
qed

lemma authorize_all_payments [simp]:
  "payments (fst (authorize_all stripe ps w)) = payments w"
  by (simp add: authorize_all_def split_beta)

lemma capture_all_payments [simp]:
  "payments (fst (capture_all stripe pis w)) = payments w"
  by (induction pis arbitrary: w) (simp_all add: split_beta capturePaymentIntent_def)

lemma status_writes_void_authorized:
  "P_voided \<in> S \<Longrightarrow> status_writes S (payments w) (payments (void_authorized pis w))"
proof (induction pis arbitrary: w)
  case Nil
  then show ?case by simp
next
  case (Cons a pis)
  show ?case
  proof (cases "getPaymentByPaymentIntentId w a")
    case None
    with Cons show ?thesis by simp
  next
    case (Some rec)
    have "status_writes S (payments w) (payments (updatePaymentStatus (p_id rec) P_voided None None w))"
      using Cons.prems by (rule status_writes_updatePaymentStatus)
    moreover have "status_writes S (payments (updatePaymentStatus (p_id rec) P_voided None None w))
       (payments (void_authorized pis (updatePaymentStatus (p_id rec) P_voided None None w)))"
      using Cons.prems by (rule Cons.IH)
    ultimately show ?thesis using Some by (auto intro: status_writes_trans)
  qed
qed

lemma status_writes_check_authorizations:
  assumes "{P_authorized, P_failed, P_voided} \<subseteq> S"
  shows "status_writes S (payments w)
           (payments (fst (check_authorizations stripe tid prs auth w)))"
proof (induction stripe tid prs auth w rule: check_authorizations.induct)
  case (1 stripe tid auth w)
  then show ?case by simp
next
  case (2 stripe tid payment rest auth w)
  have "status_writes S (payments w)
          (payments (updatePaymentStatus (cp_paymentId payment) P_authorized None None w))"
    using assms by (intro status_writes_updatePaymentStatus) auto
  with 2 show ?case by (auto intro: status_writes_trans)
next
  case (3 stripe tid payment reason rest auth w)
  let ?w1 = "updatePaymentStatus (cp_paymentId payment) P_failed (err_code reason)
               (Some (err_message reason)) w"
  have a: "status_writes S (payments w) (payments ?w1)"
    using assms by (intro status_writes_updatePaymentStatus) auto
  have "status_writes S (payments (cancelPaymentIntents stripe auth ?w1))
          (payments (void_authorized auth (cancelPaymentIntents stripe auth ?w1)))"
    using assms by (intro status_writes_void_authorized) auto
  then have b: "status_writes S (payments ?w1)
          (payments (void_authorized auth (cancelPaymentIntents stripe auth ?w1)))"
    by simp
  from a b have "status_writes S (payments w)
          (payments (void_authorized auth (cancelPaymentIntents stripe auth ?w1)))"
    by (rule status_writes_trans)
  with a show ?case by (simp add: Let_def)
qed

lemma status_writes_check_captures:
  "P_captured \<in> S \<Longrightarrow> status_writes S (payments w) (payments (fst (check_captures prs w)))"
proof (induction prs w rule: check_captures.induct)
  case (1 w)
  then show ?case by simp
next
  case (2 piId rest w)
  show ?case
  proof (cases "getPaymentByPaymentIntentId w piId")
    case None
    with 2 show ?thesis by simp
  next
    case (Some rec)
    have "status_writes S (payments w) (payments (updatePaymentStatus (p_id rec) P_captured None None w))"
      using 2(2) by (rule status_writes_updatePaymentStatus)
    with 2 Some show ?thesis by (auto intro: status_writes_trans)
  qed
next
  case (3 piId reason rest w)
  then show ?case by (simp add: split_beta)
qed

lemma status_writes_checkout_try:
  assumes "{P_authorized, P_failed, P_voided, P_captured} \<subseteq> S"
  shows "status_writes S (payments w) (payments (fst (checkout_try stripe tid ps w)))"
proof -
  let ?w1 = "fst (authorize_all stripe ps w)"
  let ?ca = "check_authorizations stripe tid (zip ps (snd (authorize_all stripe ps w))) [] ?w1"
  have a: "status_writes S (payments w) (payments (fst ?ca))"
    using status_writes_check_authorizations [of S ?w1 stripe tid _ "[]"] assms by simp
  show ?thesis
  proof (cases "snd ?ca")
    case (Inl e)
    with a show ?thesis
      by (simp add: checkout_try_def split_beta Let_def split: prod.splits)
  next
    case (Inr auth)
    let ?w3 = "fst (capture_all stripe auth (fst ?ca))"
    let ?cc = "check_captures (zip auth (snd (capture_all stripe auth (fst ?ca)))) ?w3"
    have "status_writes S (payments ?w3) (payments (fst ?cc))"
      using assms by (intro status_writes_check_captures) auto
    then have "status_writes S (payments (fst ?ca)) (payments (fst ?cc))" by simp
    with a have "status_writes S (payments w) (payments (fst ?cc))" by (rule status_writes_trans)
    with Inr show ?thesis
      by (simp add: checkout_try_def split_beta Let_def split: prod.splits)
  qed
qed

lemma status_writes_completeCheckout:
  assumes "{P_authorized, P_failed, P_voided, P_captured} \<subseteq> S"
  shows "status_writes S (payments w) (payments (fst (completeCheckout stripe tid ps total_in w)))"
proof -
  have "status_writes S (payments (updateTransactionStatus tid T_processing None w))
     (payments (fst (checkout_try stripe tid ps (updateTransactionStatus tid T_processing None w))))"
    using assms by (rule status_writes_checkout_try)
  then show ?thesis
    by (auto simp: completeCheckout_def split: option.splits prod.splits sum.splits)
qed

lemma createShopifyOrder_payments [simp]:
  "payments (fst (createShopifyOrder shop tid shopDomain w)) = payments w"
  by (simp add: createShopifyOrder_def updateTransactionOrder_def
      split: option.splits sum.splits prod.splits)

lemma status_writes_route_complete_checkout:
  assumes "{P_authorized, P_failed, P_voided, P_captured} \<subseteq> S"
  shows "status_writes S (payments w)
           (payments (fst (route_complete_checkout stripe shop sid ps w)))"
  using status_writes_completeCheckout [OF assms, of w stripe]
  by (auto simp: route_complete_checkout_def split_beta
      split: option.splits sum.splits prod.splits)

lemma route_remove_payment_payments [simp]:
  "payments (fst (route_remove_payment stripe sid pid w)) = payments w"
  by (simp add: route_remove_payment_def Let_def split: option.splits)

lemma processRefund_payments [simp]:
  "payments (fst (processRefund stripe tid amount w)) = payments w"
  by (simp add: processRefund_def Let_def split_beta split: option.splits)

lemma status_writes_succeeded:
  "P_captured \<in> S \<Longrightarrow>
   status_writes S (payments w) (payments (handlePaymentIntentSucceeded pid w))"
  by (auto simp: handlePaymentIntentSucceeded_def intro: status_writes_updatePaymentStatus
      split: option.splits)

lemma status_writes_failed:
  "P_failed \<in> S \<Longrightarrow>
   status_writes S (payments w) (payments (handlePaymentIntentFailed pid e w))"
  by (auto simp: handlePaymentIntentFailed_def intro: status_writes_updatePaymentStatus
      split: option.splits)

lemma status_writes_apply_operation:
  "status_writes {P_authorized, P_captured, P_voided, P_failed} (payments w)
     (payments (apply_operation stripe shop operation w))"
  by (cases operation)
     (auto intro: status_writes_route_complete_checkout status_writes_succeeded
        status_writes_failed)

lemma status_writes_run_operations:
  "status_writes {P_authorized, P_captured, P_voided, P_failed} (payments w)
     (payments (run_operations stripe shop ops w))"
  unfolding run_operations_def
proof (induction ops arbitrary: w)
  case Nil
  then show ?case by simp
next
  case (Cons operation ops)
  have "status_writes {P_authorized, P_captured, P_voided, P_failed} (payments w)
          (payments (apply_operation stripe shop operation w))"
    by (rule status_writes_apply_operation)
  with Cons [of "apply_operation stripe shop operation w"] show ?case
    by (auto intro: status_writes_trans)
qed

lemma status_writes_nth:
  "status_writes S ps ps' \<Longrightarrow>
   length ps' = length ps
   \<and> (\<forall>i<length ps. p_id (ps' ! i) = p_id (ps ! i)
         \<and> (p_status (ps' ! i) = p_status (ps ! i) \<or> p_status (ps' ! i) \<in> S))"
  by (auto simp: status_writes_def list_all2_conv_all_nth)

text \<open>
  Claim C2, amended. Across any sequence of complete, remove-card and refund operations
  and of \<^verbatim>\<open>payment_intent.succeeded\<close> and \<^verbatim>\<open>payment_intent.payment_failed\<close>
  events, payment rows keep their place and id, and the status of each is either what it
  was or one of authorized, captured, voided, failed: no operation sets a payment back to
  pending or to refunded. Remove-card and refund change no payment status; a succeeded
  event leaves each status unchanged or sets it to captured (so a captured payment stays
  captured); a failed event leaves each status unchanged or sets it to failed. No write
  is guarded by the current status beyond that, so terminal states can be left.
\<close>

theorem payment_status_writes:
  "length (payments (run_operations stripe shop ops w)) = length (payments w)
   \<and> (\<forall>i<length (payments w).
         p_id (payments (run_operations stripe shop ops w) ! i) = p_id (payments w ! i)
         \<and> (p_status (payments (run_operations stripe shop ops w) ! i)
              = p_status (payments w ! i)
            \<or> p_status (payments (run_operations stripe shop ops w) ! i)
              \<in> {P_authorized, P_captured, P_voided, P_failed}))
   \<and> map p_status (payments (apply_operation stripe shop (RemoveCard sessionId removedIntentId) w))
       = map p_status (payments w)
   \<and> map p_status (payments (apply_operation stripe shop (Refund transactionId refundAmount) w))
       = map p_status (payments w)
   \<and> (\<forall>i<length (payments w).
         p_status (payments (apply_operation stripe shop (PaymentIntentSucceeded intentId) w) ! i)
           = p_status (payments w ! i)
         \<or> p_status (payments (apply_operation stripe shop (PaymentIntentSucceeded intentId) w) ! i)
           = P_captured)
   \<and> (\<forall>i<length (payments w).
         p_status (payments (apply_operation stripe shop
                     (PaymentIntentPaymentFailed intentId error) w) ! i)
           = p_status (payments w ! i)
         \<or> p_status (payments (apply_operation stripe shop
                       (PaymentIntentPaymentFailed intentId error) w) ! i)
           = P_failed)"
proof -
  have a: "status_writes {P_captured} (payments w)
             (payments (handlePaymentIntentSucceeded intentId w))"
    by (rule status_writes_succeeded) simp
  have b: "status_writes {P_failed} (payments w)
             (payments (handlePaymentIntentFailed intentId error w))"
    by (rule status_writes_failed) simp
  show ?thesis
    using status_writes_nth [OF status_writes_run_operations [of w stripe shop ops]]
      status_writes_nth [OF a] status_writes_nth [OF b]
    by simp
qed

text \<open>
  Counterexample to C2 as stated: scenario S1 completes, both payments are captured;
  a \<^verbatim>\<open>payment_intent.payment_failed\<close> event for the first intent then moves that
  payment from captured, a terminal state, to failed.
\<close>

theorem payment_status_counterexample:
  "map p_status (payments s1_world) = [P_pending, P_pending]
   \<and> map p_status (payments (run_operations (scripted_stripe [] True) scripted_shopify
         [Complete (Some ''session_1'') (Some [(''pi_1'', ''pm_1''), (''pi_2'', ''pm_2'')])]
         s1_world)) = [P_captured, P_captured]
   \<and> map p_status (payments (run_operations (scripted_stripe [] True) scripted_shopify
         [Complete (Some ''session_1'') (Some [(''pi_1'', ''pm_1''), (''pi_2'', ''pm_2'')]),
          PaymentIntentPaymentFailed ''pi_1''
            (Some \<lparr>err_code = Some ''card_declined'', err_message = ''Declined''\<rparr>)]
         s1_world)) = [P_failed, P_captured]"
  by (simp add: model_defs s1_world_def)

text \<open>
  Witness for the amended C2: the first payment of scenario S1 goes from pending to
  captured when the checkout completes.
\<close>

theorem payment_status_writes_witness:
  "(0::nat) < length (payments s1_world)
   \<and> p_status (payments s1_world ! 0) = P_pending
   \<and> p_status (payments (run_operations (scripted_stripe [] True) scripted_shopify
         [Complete (Some ''session_1'') (Some [(''pi_1'', ''pm_1''), (''pi_2'', ''pm_2'')])]
         s1_world) ! 0) = P_captured
   \<and> p_status (payments (run_operations (scripted_stripe [] True) scripted_shopify
         [Complete (Some ''session_1'') (Some [(''pi_1'', ''pm_1''), (''pi_2'', ''pm_2'')])]
         s1_world) ! 0) \<in> {P_authorized, P_captured, P_voided, P_failed}"
proof -
  have l: "(0::nat) < length (payments s1_world)"
    and p: "p_status (payments s1_world ! 0) = P_pending"
    by (simp_all add: model_defs s1_world_def)
  have c: "p_status (payments (run_operations (scripted_stripe [] True) scripted_shopify
         [Complete (Some ''session_1'') (Some [(''pi_1'', ''pm_1''), (''pi_2'', ''pm_2'')])]
         s1_world) ! 0) = P_captured"
    by (simp add: model_defs s1_world_def)
  from payment_status_writes [of "scripted_stripe [] True" scripted_shopify
      "[Complete (Some ''session_1'') (Some [(''pi_1'', ''pm_1''), (''pi_2'', ''pm_2'')])]"
      s1_world] l p c
  have "p_status (payments (run_operations (scripted_stripe [] True) scripted_shopify
         [Complete (Some ''session_1'') (Some [(''pi_1'', ''pm_1''), (''pi_2'', ''pm_2'')])]
         s1_world) ! 0) \<in> {P_authorized, P_captured, P_voided, P_failed}"
    by auto
  with l p c show ?thesis by simp
qed

section \<open>Proofs: complete\<close>

text \<open>
  Claim C1, evaluated on scenario S2 (three cards of 4000, the provider authorizes cards
  1 and 3 and declines card 2). The loop over the settled results throws at card 2, having
  collected only card 1: card 1 is cancelled and voided, card 2 is failed, and card 3,
  whose authorization succeeded, is neither cancelled with the provider nor marked: its
  row stays pending. The transaction is failed.
\<close>

theorem complete_second_card_declines:
  "snd (authorize_all (scripted_stripe [''pi_2''] True) s2_payments
          (updateTransactionStatus 1 T_processing None s2_world))
     = [Fulfilled,
        Rejected \<lparr>err_code = Some ''card_declined'', err_message = ''Your card was declined.''\<rparr>,
        Fulfilled]
   \<and> snd (completeCheckout (scripted_stripe [''pi_2''] True) 1 s2_payments 12000 s2_world)
     = Inl (Thrown (CardPaymentFailed ''Your card was declined.''))
   \<and> map p_status
        (payments (fst (completeCheckout (scripted_stripe [''pi_2''] True) 1 s2_payments 12000
           s2_world)))
     = [P_voided, P_failed, P_pending]
   \<and> set (stripe_calls (fst (completeCheckout (scripted_stripe [''pi_2''] True) 1 s2_payments
        12000 s2_world)))
     = {Retrieve ''pi_1'', Confirm ''pi_1'' ''pm_1'', Retrieve ''pi_2'', Confirm ''pi_2'' ''pm_2'',
        Retrieve ''pi_3'', Confirm ''pi_3'' ''pm_3'', Cancel ''pi_1''}
   \<and> Cancel ''pi_3'' \<notin> set (stripe_calls (fst (completeCheckout
        (scripted_stripe [''pi_2''] True) 1 s2_payments 12000 s2_world)))
   \<and> map t_status
        (transactions (fst (completeCheckout (scripted_stripe [''pi_2''] True) 1 s2_payments
           12000 s2_world)))
     = [T_failed]"
  by (simp add: model_defs s2_world_def s2_payments_def insert_commute)

lemma find_update_None:
  assumes "\<And>t. t_id (f t) = t_id t"
  shows "(find (\<lambda>t. t_id t = k) (map (\<lambda>t. if t_id t = tid then f t else t) ts) = None)
         = (find (\<lambda>t. t_id t = k) ts = None)"
  using assms by (induction ts) auto

lemma getTransactionById_update_None:
  "(getTransactionById (updateTransactionStatus tid s r w) tid' = None)
   = (getTransactionById w tid' = None)"
  unfolding getTransactionById_def updateTransactionStatus_def
  by (simp add: find_update_None)

lemma updateTransactionStatus_twice:
  "updateTransactionStatus tid s' None (updateTransactionStatus tid s None w)
   = updateTransactionStatus tid s' None w"
  by (simp add: updateTransactionStatus_def truthy_def o_def)

text \<open>
  Claim C5, amended. \<^verbatim>\<open>completeCheckout\<close> has no guard on the transaction's status:
  whatever status the transaction is in when the call starts, the call returns the same
  result, makes the same provider calls and leaves the same payment rows.
\<close>

theorem complete_ignores_transaction_status:
  "snd (completeCheckout stripe transactionId payments_in totalAmount
          (updateTransactionStatus transactionId status None w))
     = snd (completeCheckout stripe transactionId payments_in totalAmount w)
   \<and> stripe_calls (fst (completeCheckout stripe transactionId payments_in totalAmount
          (updateTransactionStatus transactionId status None w)))
     = stripe_calls (fst (completeCheckout stripe transactionId payments_in totalAmount w))
   \<and> payments (fst (completeCheckout stripe transactionId payments_in totalAmount
          (updateTransactionStatus transactionId status None w)))
     = payments (fst (completeCheckout stripe transactionId payments_in totalAmount w))"
proof (cases "validatePaymentAmounts totalAmount (map cp_amount payments_in)")
  case (Some e)
  then show ?thesis by (simp add: completeCheckout_def)
next
  case None
  show ?thesis
  proof (cases "getTransactionById w transactionId")
    case None
    then have "getTransactionById (updateTransactionStatus transactionId status None w)
                 transactionId = None"
      by (simp add: getTransactionById_update_None)
    with None \<open>validatePaymentAmounts totalAmount (map cp_amount payments_in) = None\<close>
    show ?thesis by (simp add: completeCheckout_def)
  next
    case (Some t)
    then have "getTransactionById (updateTransactionStatus transactionId status None w)
                 transactionId \<noteq> None"
      by (simp add: getTransactionById_update_None)
    then obtain t' where
      "getTransactionById (updateTransactionStatus transactionId status None w) transactionId
       = Some t'"
      by auto
    with Some \<open>validatePaymentAmounts totalAmount (map cp_amount payments_in) = None\<close>
    have "completeCheckout stripe transactionId payments_in totalAmount
            (updateTransactionStatus transactionId status None w)
          = completeCheckout stripe transactionId payments_in totalAmount w"
      by (simp add: completeCheckout_def updateTransactionStatus_twice)
    then show ?thesis by simp
  qed
qed

text \<open>
  Counterexample to C5 as stated: a complete request on a transaction that is already
  \<open>processing\<close> (the state a second concurrent request would see) is not rejected: it
  confirms and captures both intents and completes the transaction.
\<close>

theorem complete_on_processing_counterexample:
  "map t_status (transactions processing_world) = [T_processing]
   \<and> snd (route_complete_checkout (scripted_stripe [] True) scripted_shopify
            (Some ''session_1'') (Some [(''pi_1'', ''pm_1''), (''pi_2'', ''pm_2'')])
            processing_world)
     = Inr (CheckoutOk ''5001'' ''1001'')
   \<and> set (stripe_calls (fst (route_complete_checkout (scripted_stripe [] True)
            scripted_shopify (Some ''session_1'')
            (Some [(''pi_1'', ''pm_1''), (''pi_2'', ''pm_2'')]) processing_world)))
     = {Retrieve ''pi_1'', Confirm ''pi_1'' ''pm_1'', Retrieve ''pi_2'', Confirm ''pi_2'' ''pm_2'',
        Capture ''pi_1'', Capture ''pi_2''}
   \<and> map t_status (transactions (fst (route_complete_checkout (scripted_stripe [] True)
            scripted_shopify (Some ''session_1'')
            (Some [(''pi_1'', ''pm_1''), (''pi_2'', ''pm_2'')]) processing_world)))
     = [T_completed]"
  by (simp add: model_defs processing_world_def insert_commute)

section \<open>Proofs: add card and sessions\<close>

text \<open>
  Claim C8, amended. Add-card makes no remaining-balance check. Take a request with a
  session id, an integer amount of at least 100, an existing session with fewer than five
  cards and an existing transaction. Whatever the transaction's total and the amounts
  already in the session, the provider is asked for an intent of that amount when the
  amount is below \<open>10 ^ 21\<close>. When the provider creates the intent, the amount fits the
  32-bit column and the intent id fits its column and is new, the request is accepted: a
  pending payment row of that amount is appended and the card is added to the session.
  When the amount is above 2147483647 the insert fails after the provider has created the
  intent: the request ends in an unhandled error, with no payment row and the session
  unchanged. Every rejection creates no payment row and leaves the sessions unchanged,
  and a rejection by one of the route's own checks changes nothing and calls no provider.
\<close>

theorem add_card_amended:
  "(truthy sessionId \<and> 100 \<le> cents \<and> cents \<le> 2147483647
     \<and> widgetSessions w (the sessionId) = Some session
     \<and> getTransactionById w (s_transactionId session) = Some transaction
     \<and> length (s_payments session) < 5
     \<and> paymentIntents_create stripe (stripe_calls w) cents = Inr (paymentIntentId, clientSecret)
     \<and> length paymentIntentId \<le> 255
     \<and> paymentIntentId \<notin> set (map p_stripe_payment_intent_id (payments w))
    \<longrightarrow> snd (route_create_payment_intent stripe sessionId (Cents cents) w)
          = Inr (PaymentIntentOk paymentIntentId clientSecret (next_id (map p_id (payments w))))
        \<and> payments (fst (route_create_payment_intent stripe sessionId (Cents cents) w))
          = payments w @
              [\<lparr>p_id = next_id (map p_id (payments w)), p_transaction_id = t_id transaction,
                p_stripe_payment_intent_id = paymentIntentId, p_amount = cents,
                p_status = P_pending, p_failure_code = None, p_failure_message = None\<rparr>]
        \<and> stripe_calls (fst (route_create_payment_intent stripe sessionId (Cents cents) w))
          = stripe_calls w @ [CreateIntent cents]
        \<and> widgetSessions (fst (route_create_payment_intent stripe sessionId (Cents cents) w))
          = (widgetSessions w)(the sessionId \<mapsto>
               session\<lparr>s_payments := s_payments session @
                 [\<lparr>sp_paymentId = next_id (map p_id (payments w)),
                   sp_paymentIntentId = paymentIntentId, sp_amount = cents\<rparr>]\<rparr>))
   \<and> (truthy sessionId \<and> 2147483647 < cents \<and> cents < 10 ^ 21
     \<and> widgetSessions w (the sessionId) = Some session
     \<and> getTransactionById w (s_transactionId session) = Some transaction
     \<and> length (s_payments session) < 5
     \<and> paymentIntents_create stripe (stripe_calls w) cents = Inr (paymentIntentId, clientSecret)
    \<longrightarrow> (\<exists>error. snd (route_create_payment_intent stripe sessionId (Cents cents) w)
                    = Inl (UNHANDLED error) \<and> err_code error = Some ''22003'')
        \<and> payments (fst (route_create_payment_intent stripe sessionId (Cents cents) w))
          = payments w
        \<and> stripe_calls (fst (route_create_payment_intent stripe sessionId (Cents cents) w))
          = stripe_calls w @ [CreateIntent cents]
        \<and> widgetSessions (fst (route_create_payment_intent stripe sessionId (Cents cents) w))
          = widgetSessions w)
   \<and> (snd (route_create_payment_intent stripe sessionId amount w) = Inl error
    \<longrightarrow> payments (fst (route_create_payment_intent stripe sessionId amount w)) = payments w
        \<and> widgetSessions (fst (route_create_payment_intent stripe sessionId amount w))
          = widgetSessions w
        \<and> ((\<forall>e. error \<noteq> UNHANDLED e) \<longrightarrow>
             fst (route_create_payment_intent stripe sessionId amount w) = w))"
proof (intro conjI impI)
  assume a: "truthy sessionId \<and> 100 \<le> cents \<and> cents \<le> 2147483647
     \<and> widgetSessions w (the sessionId) = Some session
     \<and> getTransactionById w (s_transactionId session) = Some transaction
     \<and> length (s_payments session) < 5
     \<and> paymentIntents_create stripe (stripe_calls w) cents = Inr (paymentIntentId, clientSecret)
     \<and> length paymentIntentId \<le> 255
     \<and> paymentIntentId \<notin> set (map p_stripe_payment_intent_id (payments w))"
  then have p: "parseInt cents = cents" by (intro parseInt_plain) simp
  let ?r = "route_create_payment_intent stripe sessionId (Cents cents) w"
  let ?row = "\<lparr>p_id = next_id (map p_id (payments w)), p_transaction_id = t_id transaction,
                p_stripe_payment_intent_id = paymentIntentId, p_amount = cents,
                p_status = P_pending, p_failure_code = None, p_failure_message = None\<rparr>"
  let ?session = "session\<lparr>s_payments := s_payments session @
                 [\<lparr>sp_paymentId = next_id (map p_id (payments w)),
                   sp_paymentIntentId = paymentIntentId, sp_amount = cents\<rparr>]\<rparr>"
  have r: "?r = (w\<lparr>stripe_calls := stripe_calls w @ [CreateIntent cents],
                   payments := payments w @ [?row],
                   widgetSessions := (widgetSessions w)(the sessionId \<mapsto> ?session)\<rparr>,
                 Inr (PaymentIntentOk paymentIntentId clientSecret
                        (next_id (map p_id (payments w)))))"
    using a by (simp add: route_create_payment_intent_def amount_missing_def p
        createPaymentIntent_def createPayment_def call_def Let_def)
  show "snd ?r = Inr (PaymentIntentOk paymentIntentId clientSecret
                        (next_id (map p_id (payments w))))"
    and "payments (fst ?r) = payments w @ [?row]"
    and "stripe_calls (fst ?r) = stripe_calls w @ [CreateIntent cents]"
    and "widgetSessions (fst ?r) = (widgetSessions w)(the sessionId \<mapsto> ?session)"
    unfolding r by simp_all
next
  assume a: "truthy sessionId \<and> 2147483647 < cents \<and> cents < 10 ^ 21
     \<and> widgetSessions w (the sessionId) = Some session
     \<and> getTransactionById w (s_transactionId session) = Some transaction
     \<and> length (s_payments session) < 5
     \<and> paymentIntents_create stripe (stripe_calls w) cents = Inr (paymentIntentId, clientSecret)"
  then have p: "parseInt cents = cents" by (intro parseInt_plain) simp
  let ?r = "route_create_payment_intent stripe sessionId (Cents cents) w"
  have r: "?r = (w\<lparr>stripe_calls := stripe_calls w @ [CreateIntent cents]\<rparr>,
                 Inl (UNHANDLED \<lparr>err_code = Some ''22003'',
                        err_message = ''value '' @ [CHR 0x22] @ decimal_int cents @ [CHR 0x22]
                                        @ '' is out of range for type integer''\<rparr>))"
    using a by (simp add: route_create_payment_intent_def amount_missing_def p
        createPaymentIntent_def createPayment_def call_def Let_def)
  show "\<exists>error. snd ?r = Inl (UNHANDLED error) \<and> err_code error = Some ''22003''"
    and "payments (fst ?r) = payments w"
    and "stripe_calls (fst ?r) = stripe_calls w @ [CreateIntent cents]"
    and "widgetSessions (fst ?r) = widgetSessions w"
    unfolding r by simp_all
next
  assume "snd (route_create_payment_intent stripe sessionId amount w) = Inl error"
  then show "payments (fst (route_create_payment_intent stripe sessionId amount w)) = payments w"
    and "widgetSessions (fst (route_create_payment_intent stripe sessionId amount w))
          = widgetSessions w"
    by (auto simp: route_create_payment_intent_def amount_missing_def createPaymentIntent_def
        Let_def split: sum.splits option.splits if_splits prod.splits)
next
  assume "snd (route_create_payment_intent stripe sessionId amount w) = Inl error"
    and "\<forall>e. error \<noteq> UNHANDLED e"
  then show "fst (route_create_payment_intent stripe sessionId amount w) = w"
    by (auto simp: route_create_payment_intent_def amount_missing_def createPaymentIntent_def
        Let_def split: sum.splits option.splits if_splits prod.splits)
qed

text \<open>
  Counterexample to C8 as stated: the total is 1000 and the session already holds a
  card of 600; a second card of 600, above the remaining 400, is accepted: the provider
  is called and a payment row is created.
\<close>

theorem add_card_over_balance_counterexample:
  "map t_total_amount (transactions over_balance_world) = [1000]
   \<and> map sp_amount (s_payments (the (widgetSessions over_balance_world ''session_1'')))
       = [600]
   \<and> (600::int) > 1000 - 600
   \<and> snd (route_create_payment_intent (scripted_stripe [] True) (Some ''session_1'')
            (Cents 600) over_balance_world)
     = Inr (PaymentIntentOk ''pi_0'' ''secret'' 2)
   \<and> map p_amount (payments (fst (route_create_payment_intent (scripted_stripe [] True)
            (Some ''session_1'') (Cents 600) over_balance_world))) = [600, 600]
   \<and> stripe_calls (fst (route_create_payment_intent (scripted_stripe [] True)
            (Some ''session_1'') (Cents 600) over_balance_world)) = [CreateIntent 600]"
  by (simp add: model_defs over_balance_world_def decimal.simps digit_char_def)

text \<open>
  Witness for the amended C8: the accepted request above; a card of 3000000000 cents,
  for which the provider creates an intent and the insert then fails; and a request with
  an unknown session id, which is rejected and changes nothing.
\<close>

theorem add_card_amended_witness:
  "truthy (Some ''session_1'') \<and> (100::int) \<le> 600 \<and> (600::int) \<le> 2147483647
   \<and> widgetSessions over_balance_world ''session_1'' \<noteq> None
   \<and> length (s_payments (the (widgetSessions over_balance_world ''session_1''))) < 5
   \<and> map p_stripe_payment_intent_id (payments over_balance_world) = [''pi_1'']
   \<and> snd (route_create_payment_intent (scripted_stripe [] True) (Some ''session_1'')
            (Cents 600) over_balance_world)
     = Inr (PaymentIntentOk ''pi_0'' ''secret'' (next_id (map p_id (payments over_balance_world))))
   \<and> (2147483647::int) < 3000000000 \<and> (3000000000::int) < 10 ^ 21
   \<and> stripe_calls (fst (route_create_payment_intent (scripted_stripe [] True)
            (Some ''session_1'') (Cents 3000000000) over_balance_world))
     = [CreateIntent 3000000000]
   \<and> payments (fst (route_create_payment_intent (scripted_stripe [] True)
            (Some ''session_1'') (Cents 3000000000) over_balance_world))
     = payments over_balance_world
   \<and> snd (route_create_payment_intent (scripted_stripe [] True) (Some ''session_9'')
            (Cents 600) over_balance_world) = Inl SESSION_NOT_FOUND
   \<and> fst (route_create_payment_intent (scripted_stripe [] True) (Some ''session_9'')
            (Cents 600) over_balance_world) = over_balance_world"
proof -
  let ?session = "the (widgetSessions over_balance_world ''session_1'')"
  let ?tx = "hd (transactions over_balance_world)"
  have h: "truthy (Some ''session_1'')" "(100::int) \<le> 600" "(600::int) \<le> 2147483647"
    "widgetSessions over_balance_world (the (Some ''session_1'')) = Some ?session"
    "getTransactionById over_balance_world (s_transactionId ?session) = Some ?tx"
    "length (s_payments ?session) < 5"
    "paymentIntents_create (scripted_stripe [] True) (stripe_calls over_balance_world) 600
       = Inr (''pi_0'', ''secret'')"
    "length ''pi_0'' \<le> 255"
    "''pi_0'' \<notin> set (map p_stripe_payment_intent_id (payments over_balance_world))"
    by (simp_all add: model_defs over_balance_world_def decimal.simps digit_char_def)
  have g: "(2147483647::int) < 3000000000" "(3000000000::int) < 10 ^ 21"
    "paymentIntents_create (scripted_stripe [] True) (stripe_calls over_balance_world)
       3000000000 = Inr (''pi_0'', ''secret'')"
    by (simp_all add: model_defs over_balance_world_def decimal.simps digit_char_def)
  have ids: "map p_stripe_payment_intent_id (payments over_balance_world) = [''pi_1'']"
    by (simp add: model_defs over_balance_world_def)
  have r: "snd (route_create_payment_intent (scripted_stripe [] True) (Some ''session_9'')
            (Cents 600) over_balance_world) = Inl SESSION_NOT_FOUND"
    by (simp add: model_defs over_balance_world_def)
  note t = add_card_amended [where sessionId = "Some ''session_1''" and cents = 600
      and w = over_balance_world and session = ?session and transaction = ?tx
      and stripe = "scripted_stripe [] True" and paymentIntentId = "''pi_0''"
      and clientSecret = "''secret''"]
  note t2 = add_card_amended [where sessionId = "Some ''session_1''" and cents = 3000000000
      and w = over_balance_world and session = ?session and transaction = ?tx
      and stripe = "scripted_stripe [] True" and paymentIntentId = "''pi_0''"
      and clientSecret = "''secret''"]
  note t' = add_card_amended [where sessionId = "Some ''session_9''"
      and w = over_balance_world and stripe = "scripted_stripe [] True"
      and amount = "Cents 600" and error = SESSION_NOT_FOUND]
  from t h have a: "snd (route_create_payment_intent (scripted_stripe [] True)
      (Some ''session_1'') (Cents 600) over_balance_world)
     = Inr (PaymentIntentOk ''pi_0'' ''secret'' (next_id (map p_id (payments over_balance_world))))"
    by blast
  from t2 h(1,4,5,6) g have c: "stripe_calls (fst (route_create_payment_intent
      (scripted_stripe [] True) (Some ''session_1'') (Cents 3000000000) over_balance_world))
     = stripe_calls over_balance_world @ [CreateIntent 3000000000]"
    "payments (fst (route_create_payment_intent (scripted_stripe [] True)
            (Some ''session_1'') (Cents 3000000000) over_balance_world))
     = payments over_balance_world"
    by blast+
  have sc: "stripe_calls over_balance_world = []"
    by (simp add: model_defs over_balance_world_def)
  from t' r have b: "fst (route_create_payment_intent (scripted_stripe [] True)
      (Some ''session_9'') (Cents 600) over_balance_world) = over_balance_world"
    by blast
  have ne: "widgetSessions over_balance_world ''session_1'' \<noteq> None"
    by (simp add: model_defs over_balance_world_def)
  from h(1,2,3,6) ne ids a g(1,2) c sc r b show ?thesis by simp
qed

text \<open>
  From \<open>10 ^ 21\<close> on the amount that passes the validation and the amount handed on
  differ: a request of \<open>10 ^ 21\<close> cents, printed \<^verbatim>\<open>1e+21\<close>, creates an intent and a
  payment row of one cent.
\<close>

lemma parseInt_values:
  "parseInt 600 = 600" "parseInt 1000000000000000000000 = 1"
  "parseInt 1500000000000000000000 = 1"
  "parseInt 99999999999999991611392 = 1"
  "parseInt 9000000000000000000000 = 9"
  by code_simp+

lemma add_card_exponent_notation:
  "validateAmount (Cents 1000000000000000000000) 100 None = None
   \<and> snd (route_create_payment_intent (scripted_stripe [] True) (Some ''session_1'')
            (Cents 1000000000000000000000) over_balance_world)
     = Inr (PaymentIntentOk ''pi_0'' ''secret'' 2)
   \<and> map p_amount (payments (fst (route_create_payment_intent (scripted_stripe [] True)
            (Some ''session_1'') (Cents 1000000000000000000000) over_balance_world)))
     = [600, 1]
   \<and> stripe_calls (fst (route_create_payment_intent (scripted_stripe [] True)
            (Some ''session_1'') (Cents 1000000000000000000000) over_balance_world))
     = [CreateIntent 1]"
  by (simp add: model_defs over_balance_world_def decimal.simps digit_char_def parseInt_values)

lemma route_init_session:
  "snd (route_init now rnd shopDomain checkoutToken w) = Inr (InitOk sid tid tot) \<Longrightarrow>
   widgetSessions (fst (route_init now rnd shopDomain checkoutToken w)) sid \<noteq> None"
  by (auto simp: route_init_def Let_def split_beta split: if_splits option.splits)

lemma route_init_keeps:
  "widgetSessions w sid \<noteq> None \<Longrightarrow>
   widgetSessions (fst (route_init now rnd shopDomain checkoutToken w)) sid \<noteq> None"
  by (auto simp: route_init_def Let_def split_beta createTransaction_def
      split: if_splits option.splits)

lemma createPayment_sessions [simp]:
  "createPayment tid pid a w = Inr (row, w') \<Longrightarrow> widgetSessions w' = widgetSessions w"
  by (auto simp: createPayment_def Let_def split: if_splits)

lemma route_create_keeps:
  "widgetSessions w sid \<noteq> None \<Longrightarrow>
   widgetSessions (fst (route_create_payment_intent stripe sessionId amount w)) sid \<noteq> None"
  by (auto simp: route_create_payment_intent_def Let_def split_beta createPaymentIntent_def
      dest!: createPayment_sessions
      split: if_splits option.splits sum.splits prod.splits)

lemma route_remove_keeps:
  "widgetSessions w sid \<noteq> None \<Longrightarrow>
   widgetSessions (fst (route_remove_payment stripe sessionId pid w)) sid \<noteq> None"
  by (auto simp: route_remove_payment_def Let_def cancelPaymentIntent_def
      split: if_splits option.splits)

lemma cancelPaymentIntents_sessions [simp]:
  "widgetSessions (cancelPaymentIntents stripe pis w) = widgetSessions w"
  unfolding cancelPaymentIntents_def
  by (induction pis arbitrary: w) (simp_all add: cancelPaymentIntent_def)

lemma retrieve_all_sessions [simp]:
  "widgetSessions (fst (retrieve_all stripe ps w)) = widgetSessions w"
  by (induction ps arbitrary: w) (simp_all add: split_beta Let_def)

lemma authorize_sessions [simp]:
  "widgetSessions (fst (authorize stripe p r w)) = widgetSessions w"
  by (simp add: authorize_def Let_def split: sum.splits)

lemma authorize_each_sessions [simp]:
  "widgetSessions (fst (authorize_each stripe prs w)) = widgetSessions w"
proof (induction prs arbitrary: w)
  case Nil
  then show ?case by simp
next
  case (Cons a prs)
  obtain p r where "a = (p, r)" by (cases a)
  with Cons show ?case by (simp add: split_beta)
qed

lemma authorize_all_sessions [simp]:
  "widgetSessions (fst (authorize_all stripe ps w)) = widgetSessions w"
  by (simp add: authorize_all_def split_beta)

lemma capture_all_sessions [simp]:
  "widgetSessions (fst (capture_all stripe pis w)) = widgetSessions w"
  by (induction pis arbitrary: w) (simp_all add: split_beta capturePaymentIntent_def)

lemma void_authorized_sessions [simp]:
  "widgetSessions (void_authorized pis w) = widgetSessions w"
  by (induction pis arbitrary: w) (simp_all split: option.splits)

lemma check_authorizations_sessions [simp]:
  "widgetSessions (fst (check_authorizations stripe tid prs auth w)) = widgetSessions w"
  by (induction stripe tid prs auth w rule: check_authorizations.induct)
     (simp_all add: Let_def)

lemma check_captures_sessions [simp]:
  "widgetSessions (fst (check_captures prs w)) = widgetSessions w"
  by (induction prs w rule: check_captures.induct)
     (simp_all add: split_beta split: option.splits)

lemma checkout_try_sessions [simp]:
  "widgetSessions (fst (checkout_try stripe tid ps w)) = widgetSessions w"
  by (simp add: checkout_try_def split_beta Let_def split: sum.splits)

lemma completeCheckout_sessions [simp]:
  "widgetSessions (fst (completeCheckout stripe tid ps total_in w)) = widgetSessions w"
  by (simp add: completeCheckout_def split_beta split: option.splits sum.splits)

lemma createShopifyOrder_sessions [simp]:
  "widgetSessions (fst (createShopifyOrder shop tid shopDomain w)) = widgetSessions w"
  by (simp add: createShopifyOrder_def updateTransactionOrder_def
      split: option.splits sum.splits prod.splits)

lemma route_complete_keeps:
  "widgetSessions w sid \<noteq> None \<Longrightarrow>
   widgetSessions (fst (route_complete_checkout stripe shop sessionId ps w)) sid \<noteq> None
   \<or> (sessionId = Some sid
       \<and> (\<exists>orderId orderNumber.
            snd (route_complete_checkout stripe shop sessionId ps w)
              = Inr (CheckoutOk orderId orderNumber)))"
  by (auto simp: route_complete_checkout_def split_beta truthy_def
      split: if_splits option.splits sum.splits)

lemma route_complete_deletes:
  "snd (route_complete_checkout stripe shop (Some sid) ps w) = Inr (CheckoutOk orderId orderNumber)
   \<Longrightarrow> widgetSessions (fst (route_complete_checkout stripe shop (Some sid) ps w)) sid = None"
  by (auto simp: route_complete_checkout_def split_beta
      split: if_splits option.splits sum.splits)

lemma handle_widget_request_keeps:
  assumes "widgetSessions w sid \<noteq> None"
  shows "widgetSessions (fst (handle_widget_request stripe shop now request w)) sid \<noteq> None
       \<or> (\<exists>payments_in orderId orderNumber.
            request = CompleteCheckout (Some sid) payments_in
            \<and> snd (handle_widget_request stripe shop now request w)
                = Inr (CheckoutOk orderId orderNumber))"
  using assms route_complete_keeps [of w sid stripe shop]
  by (cases request) (auto simp: route_init_keeps route_create_keeps route_remove_keeps)

lemma run_requests_keeps:
  "widgetSessions w sid \<noteq> None \<Longrightarrow>
   \<forall>(now, request)\<in>set requests. \<forall>payments_in. request \<noteq> CompleteCheckout (Some sid) payments_in
   \<Longrightarrow> widgetSessions (run_requests stripe shop requests w) sid \<noteq> None"
proof (induction requests arbitrary: w)
  case Nil
  then show ?case by (simp add: run_requests_def)
next
  case (Cons x requests)
  obtain now request where x: "x = (now, request)" by (cases x)
  from Cons.prems(2) x have no: "\<forall>payments_in. request \<noteq> CompleteCheckout (Some sid) payments_in"
    by simp
  with handle_widget_request_keeps [OF Cons.prems(1), of stripe shop now request]
  have "widgetSessions (fst (handle_widget_request stripe shop now request w)) sid \<noteq> None"
    by blast
  then have "widgetSessions (run_requests stripe shop requests
               (fst (handle_widget_request stripe shop now request w))) sid \<noteq> None"
    using Cons.prems(2) by (intro Cons.IH) simp_all
  then show ?case by (simp add: run_requests_def x)
qed

lemma create_session_not_found:
  "snd (route_create_payment_intent stripe sessionId amount w) = Inl SESSION_NOT_FOUND
   \<longleftrightarrow> truthy sessionId \<and> \<not> amount_missing amount \<and> validateAmount amount 100 None = None
       \<and> widgetSessions w (the sessionId) = None"
  by (auto simp: route_create_payment_intent_def createPaymentIntent_def Let_def
      split: option.splits sum.splits prod.splits)

lemma remove_session_not_found:
  "snd (route_remove_payment stripe sessionId paymentIntentId w) = Inl SESSION_NOT_FOUND
   \<longleftrightarrow> truthy sessionId \<and> truthy paymentIntentId \<and> widgetSessions w (the sessionId) = None"
  by (auto simp: route_remove_payment_def Let_def split: option.splits)

lemma complete_session_not_found:
  "snd (route_complete_checkout stripe shop sessionId payments_in w) = Inl SESSION_NOT_FOUND
   \<longleftrightarrow> truthy sessionId \<and> payments_in \<noteq> None \<and> widgetSessions w (the sessionId) = None"
  by (auto simp: route_complete_checkout_def split: option.splits sum.splits prod.splits)

lemma init_session_found:
  "snd (route_init now rnd shopDomain checkoutToken w) \<noteq> Inl SESSION_NOT_FOUND"
  by (auto simp: route_init_def Let_def split_beta split: option.splits)

lemma route_init_stores:
  "snd (route_init now rnd shopDomain checkoutToken w) = Inr (InitOk sid tid tot) \<Longrightarrow>
   widgetSessions (fst (route_init now rnd shopDomain checkoutToken w)) sid
     = Some \<lparr>s_transactionId = tid, s_shopDomain = the shopDomain,
             s_checkoutToken = the checkoutToken, s_payments = []\<rparr>"
  by (auto simp: route_init_def Let_def split_beta split: if_splits option.splits)

text \<open>
  Claim C9, amended. A session never expires. The session created by a successful init
  is stored under the returned id, with no creation or expiry time. A stored session
  stays stored across every widget request at every time, except that a complete request
  for that very session that succeeds deletes it; so it is still stored after any sequence
  of requests, at any times, that holds no complete request for it. Add-card, remove-card
  and complete answer \<open>SESSION_NOT_FOUND\<close> exactly when the request passes the checks on
  its parameters and no session is stored under its session id, whatever the time; init
  never answers it. No handler but init reads the clock: a request that is not an init is
  answered the same whatever the time.
\<close>

theorem session_never_expires:
  "(snd (route_init now rnd shopDomain checkoutToken w) = Inr (InitOk sid tid tot) \<longrightarrow>
      widgetSessions (fst (route_init now rnd shopDomain checkoutToken w)) sid
        = Some \<lparr>s_transactionId = tid, s_shopDomain = the shopDomain,
                s_checkoutToken = the checkoutToken, s_payments = []\<rparr>)
   \<and> (widgetSessions w sessionId \<noteq> None \<longrightarrow>
        widgetSessions (fst (handle_widget_request stripe shop later request w)) sessionId
          \<noteq> None
        \<or> (\<exists>payments_in orderId orderNumber.
             request = CompleteCheckout (Some sessionId) payments_in
             \<and> snd (handle_widget_request stripe shop later request w)
                 = Inr (CheckoutOk orderId orderNumber)))
   \<and> (snd (handle_widget_request stripe shop later (CompleteCheckout (Some sessionId) submitted) w)
         = Inr (CheckoutOk orderId orderNumber) \<longrightarrow>
        widgetSessions (fst (handle_widget_request stripe shop later
          (CompleteCheckout (Some sessionId) submitted) w)) sessionId = None)
   \<and> (widgetSessions w sessionId \<noteq> None
        \<and> (\<forall>(time, r)\<in>set requests.
              \<forall>payments_in. r \<noteq> CompleteCheckout (Some sessionId) payments_in)
      \<longrightarrow> widgetSessions (run_requests stripe shop requests w) sessionId \<noteq> None)
   \<and> (snd (handle_widget_request stripe shop later (CreatePaymentIntent requested amount) w)
         = Inl SESSION_NOT_FOUND
       \<longleftrightarrow> truthy requested \<and> \<not> amount_missing amount \<and> validateAmount amount 100 None = None
           \<and> widgetSessions w (the requested) = None)
   \<and> (snd (handle_widget_request stripe shop later (RemovePayment requested paymentIntentId) w)
         = Inl SESSION_NOT_FOUND
       \<longleftrightarrow> truthy requested \<and> truthy paymentIntentId \<and> widgetSessions w (the requested) = None)
   \<and> (snd (handle_widget_request stripe shop later (CompleteCheckout requested submitted) w)
         = Inl SESSION_NOT_FOUND
       \<longleftrightarrow> truthy requested \<and> submitted \<noteq> None \<and> widgetSessions w (the requested) = None)
   \<and> snd (handle_widget_request stripe shop later (Init rnd shopDomain checkoutToken) w)
        \<noteq> Inl SESSION_NOT_FOUND
   \<and> ((\<forall>rnd' a b. request \<noteq> Init rnd' a b) \<longrightarrow>
        handle_widget_request stripe shop later request w
          = handle_widget_request stripe shop now request w)"
proof (intro conjI impI)
  assume "snd (route_init now rnd shopDomain checkoutToken w) = Inr (InitOk sid tid tot)"
  then show "widgetSessions (fst (route_init now rnd shopDomain checkoutToken w)) sid
        = Some \<lparr>s_transactionId = tid, s_shopDomain = the shopDomain,
                s_checkoutToken = the checkoutToken, s_payments = []\<rparr>"
    by (rule route_init_stores)
next
  assume "widgetSessions w sessionId \<noteq> None"
  then show "widgetSessions (fst (handle_widget_request stripe shop later request w)) sessionId
          \<noteq> None
        \<or> (\<exists>payments_in orderId orderNumber.
             request = CompleteCheckout (Some sessionId) payments_in
             \<and> snd (handle_widget_request stripe shop later request w)
                 = Inr (CheckoutOk orderId orderNumber))"
    by (rule handle_widget_request_keeps)
next
  assume "snd (handle_widget_request stripe shop later
            (CompleteCheckout (Some sessionId) submitted) w)
         = Inr (CheckoutOk orderId orderNumber)"
  then show "widgetSessions (fst (handle_widget_request stripe shop later
          (CompleteCheckout (Some sessionId) submitted) w)) sessionId = None"
    by (simp add: route_complete_deletes)
next
  assume "widgetSessions w sessionId \<noteq> None
        \<and> (\<forall>(time, r)\<in>set requests.
              \<forall>payments_in. r \<noteq> CompleteCheckout (Some sessionId) payments_in)"
  then show "widgetSessions (run_requests stripe shop requests w) sessionId \<noteq> None"
    by (intro run_requests_keeps) simp_all
next
  show "snd (handle_widget_request stripe shop later (CreatePaymentIntent requested amount) w)
         = Inl SESSION_NOT_FOUND
       \<longleftrightarrow> truthy requested \<and> \<not> amount_missing amount \<and> validateAmount amount 100 None = None
           \<and> widgetSessions w (the requested) = None"
    by (simp add: create_session_not_found)
next
  show "snd (handle_widget_request stripe shop later (RemovePayment requested paymentIntentId) w)
         = Inl SESSION_NOT_FOUND
       \<longleftrightarrow> truthy requested \<and> truthy paymentIntentId \<and> widgetSessions w (the requested) = None"
    by (simp add: remove_session_not_found)
next
  show "snd (handle_widget_request stripe shop later (CompleteCheckout requested submitted) w)
         = Inl SESSION_NOT_FOUND
       \<longleftrightarrow> truthy requested \<and> submitted \<noteq> None \<and> widgetSessions w (the requested) = None"
    by (simp add: complete_session_not_found)
next
  show "snd (handle_widget_request stripe shop later (Init rnd shopDomain checkoutToken) w)
        \<noteq> Inl SESSION_NOT_FOUND"
    by (simp add: init_session_found)
next
  assume "\<forall>rnd' a b. request \<noteq> Init rnd' a b"
  then show "handle_widget_request stripe shop later request w
          = handle_widget_request stripe shop now request w"
    by (cases request) simp_all
qed

text \<open>
  Counterexample to C9 as stated: a session is created at time 1000 (milliseconds) and a
  card is added at time 1861000, 31 minutes later; the lookup finds the session and the
  request succeeds instead of returning \<open>SESSION_NOT_FOUND\<close>.
\<close>

theorem session_expiry_counterexample:
  "snd (handle_widget_request (scripted_stripe [] True) scripted_shopify 1000
          (Init ''k3j9x0q2m'' (Some ''demo.myshopify.com'')
             (Some ''abcdefghijklmnopqrstuvwxyz012345'')) fresh_world)
     = Inr (InitOk ''session_1000_k3j9x0q2m'' 2 0)
   \<and> (1000::nat) + 30 * 60 * 1000 < 1861000
   \<and> snd (handle_widget_request (scripted_stripe [] True) scripted_shopify 1861000
          (CreatePaymentIntent (Some ''session_1000_k3j9x0q2m'') (Cents 500))
          (fst (handle_widget_request (scripted_stripe [] True) scripted_shopify 1000
             (Init ''k3j9x0q2m'' (Some ''demo.myshopify.com'')
                (Some ''abcdefghijklmnopqrstuvwxyz012345'')) fresh_world)))
     = Inr (PaymentIntentOk ''pi_0'' ''secret'' 1)"
  by (simp add: model_defs fresh_world_def decimal.simps digit_char_def)

text \<open>
  Witness for the amended C9. The session created at time 1000 is stored; a day later,
  after an add-card and a remove-card request, it is still stored and an add-card request
  for it is not answered \<open>SESSION_NOT_FOUND\<close>, while a request for an id that was never
  created is. In scenario S1 the complete request succeeds and deletes the session, and
  an add-card request for it is then answered \<open>SESSION_NOT_FOUND\<close>.
\<close>

theorem session_never_expires_witness:
  "snd (route_init 1000 ''k3j9x0q2m'' (Some ''demo.myshopify.com'')
          (Some ''abcdefghijklmnopqrstuvwxyz012345'') fresh_world)
     = Inr (InitOk ''session_1000_k3j9x0q2m'' 2 0)
   \<and> widgetSessions (fst (route_init 1000 ''k3j9x0q2m'' (Some ''demo.myshopify.com'')
          (Some ''abcdefghijklmnopqrstuvwxyz012345'') fresh_world)) ''session_1000_k3j9x0q2m''
     = Some \<lparr>s_transactionId = 2, s_shopDomain = ''demo.myshopify.com'',
             s_checkoutToken = ''abcdefghijklmnopqrstuvwxyz012345'', s_payments = []\<rparr>
   \<and> widgetSessions (fst (handle_widget_request (scripted_stripe [] True) scripted_shopify
          1861000 (CreatePaymentIntent (Some ''session_1000_k3j9x0q2m'') (Cents 500))
          (fst (route_init 1000 ''k3j9x0q2m'' (Some ''demo.myshopify.com'')
             (Some ''abcdefghijklmnopqrstuvwxyz012345'') fresh_world))))
        ''session_1000_k3j9x0q2m'' \<noteq> None
   \<and> widgetSessions (run_requests (scripted_stripe [] True) scripted_shopify
          [(1861000, CreatePaymentIntent (Some ''session_1000_k3j9x0q2m'') (Cents 500)),
           (86401000, RemovePayment (Some ''session_1000_k3j9x0q2m'') (Some ''pi_0''))]
          (fst (route_init 1000 ''k3j9x0q2m'' (Some ''demo.myshopify.com'')
             (Some ''abcdefghijklmnopqrstuvwxyz012345'') fresh_world)))
        ''session_1000_k3j9x0q2m'' \<noteq> None
   \<and> snd (handle_widget_request (scripted_stripe [] True) scripted_shopify 86402000
          (CreatePaymentIntent (Some ''session_1000_k3j9x0q2m'') (Cents 500))
          (run_requests (scripted_stripe [] True) scripted_shopify
            [(1861000, CreatePaymentIntent (Some ''session_1000_k3j9x0q2m'') (Cents 500)),
             (86401000, RemovePayment (Some ''session_1000_k3j9x0q2m'') (Some ''pi_0''))]
            (fst (route_init 1000 ''k3j9x0q2m'' (Some ''demo.myshopify.com'')
               (Some ''abcdefghijklmnopqrstuvwxyz012345'') fresh_world))))
       \<noteq> Inl SESSION_NOT_FOUND
   \<and> snd (handle_widget_request (scripted_stripe [] True) scripted_shopify 86402000
          (CreatePaymentIntent (Some ''session_1000_zzzzzzzzz'') (Cents 500))
          (run_requests (scripted_stripe [] True) scripted_shopify
            [(1861000, CreatePaymentIntent (Some ''session_1000_k3j9x0q2m'') (Cents 500)),
             (86401000, RemovePayment (Some ''session_1000_k3j9x0q2m'') (Some ''pi_0''))]
            (fst (route_init 1000 ''k3j9x0q2m'' (Some ''demo.myshopify.com'')
               (Some ''abcdefghijklmnopqrstuvwxyz012345'') fresh_world))))
       = Inl SESSION_NOT_FOUND
   \<and> widgetSessions s1_world ''session_1'' \<noteq> None
   \<and> snd (handle_widget_request (scripted_stripe [] True) scripted_shopify 86400000
          (CompleteCheckout (Some ''session_1'')
             (Some [(''pi_1'', ''pm_1''), (''pi_2'', ''pm_2'')])) s1_world)
       = Inr (CheckoutOk ''5001'' ''1001'')
   \<and> widgetSessions (fst (handle_widget_request (scripted_stripe [] True) scripted_shopify
          86400000 (CompleteCheckout (Some ''session_1'')
             (Some [(''pi_1'', ''pm_1''), (''pi_2'', ''pm_2'')])) s1_world)) ''session_1''
       = None
   \<and> snd (handle_widget_request (scripted_stripe [] True) scripted_shopify 86400001
          (CreatePaymentIntent (Some ''session_1'') (Cents 500))
          (fst (handle_widget_request (scripted_stripe [] True) scripted_shopify
             86400000 (CompleteCheckout (Some ''session_1'')
                (Some [(''pi_1'', ''pm_1''), (''pi_2'', ''pm_2'')])) s1_world)))
       = Inl SESSION_NOT_FOUND
   \<and> handle_widget_request (scripted_stripe [] True) scripted_shopify 86400000
          (CompleteCheckout (Some ''session_1'')
             (Some [(''pi_1'', ''pm_1''), (''pi_2'', ''pm_2'')])) s1_world
       = handle_widget_request (scripted_stripe [] True) scripted_shopify 1000
          (CompleteCheckout (Some ''session_1'')
             (Some [(''pi_1'', ''pm_1''), (''pi_2'', ''pm_2'')])) s1_world"
proof -
  let ?w1 = "fst (route_init 1000 ''k3j9x0q2m'' (Some ''demo.myshopify.com'')
             (Some ''abcdefghijklmnopqrstuvwxyz012345'') fresh_world)"
  let ?sid = "''session_1000_k3j9x0q2m''"
  let ?add = "CreatePaymentIntent (Some ?sid) (Cents 500)"
  let ?reqs = "[(1861000, ?add), (86401000, RemovePayment (Some ?sid) (Some ''pi_0''))]"
  let ?w2 = "run_requests (scripted_stripe [] True) scripted_shopify ?reqs ?w1"
  let ?complete = "CompleteCheckout (Some ''session_1'')
                     (Some [(''pi_1'', ''pm_1''), (''pi_2'', ''pm_2'')])"
  let ?w3 = "fst (handle_widget_request (scripted_stripe [] True) scripted_shopify
               86400000 ?complete s1_world)"
  have i: "snd (route_init 1000 ''k3j9x0q2m'' (Some ''demo.myshopify.com'')
          (Some ''abcdefghijklmnopqrstuvwxyz012345'') fresh_world)
     = Inr (InitOk ?sid 2 0)"
    by (simp add: model_defs fresh_world_def decimal.simps digit_char_def)
  note t1 = session_never_expires [where now = 1000 and rnd = "''k3j9x0q2m''"
      and shopDomain = "Some ''demo.myshopify.com''"
      and checkoutToken = "Some ''abcdefghijklmnopqrstuvwxyz012345''" and w = fresh_world
      and sid = ?sid and tid = 2 and tot = 0]
  from t1 i have a: "widgetSessions ?w1 ?sid
     = Some \<lparr>s_transactionId = 2, s_shopDomain = ''demo.myshopify.com'',
             s_checkoutToken = ''abcdefghijklmnopqrstuvwxyz012345'', s_payments = []\<rparr>"
    by simp
  have no: "\<forall>(time, r)\<in>set ?reqs. \<forall>payments_in. r \<noteq> CompleteCheckout (Some ?sid) payments_in"
    by simp
  note t2 = session_never_expires [where w = ?w1 and sessionId = ?sid
      and stripe = "scripted_stripe [] True" and shop = scripted_shopify and requests = ?reqs
      and request = ?add and later = 1861000]
  from t2 a have a1: "widgetSessions (fst (handle_widget_request (scripted_stripe [] True)
      scripted_shopify 1861000 ?add ?w1)) ?sid \<noteq> None"
    by simp
  from t2 a no have b: "widgetSessions ?w2 ?sid \<noteq> None"
    by simp
  note t3 = session_never_expires [where w = ?w2 and requested = "Some ?sid"
      and amount = "Cents 500" and stripe = "scripted_stripe [] True"
      and shop = scripted_shopify and later = 86402000]
  from t3 b have c: "snd (handle_widget_request (scripted_stripe [] True) scripted_shopify
      86402000 ?add ?w2) \<noteq> Inl SESSION_NOT_FOUND"
    by simp
  have d: "snd (handle_widget_request (scripted_stripe [] True) scripted_shopify 86402000
          (CreatePaymentIntent (Some ''session_1000_zzzzzzzzz'') (Cents 500)) ?w2)
       = Inl SESSION_NOT_FOUND"
    by (simp add: run_requests_def model_defs fresh_world_def decimal.simps digit_char_def)
  have s: "widgetSessions s1_world ''session_1'' \<noteq> None"
    by (simp add: model_defs s1_world_def)
  have ok: "snd (handle_widget_request (scripted_stripe [] True) scripted_shopify 86400000
          ?complete s1_world) = Inr (CheckoutOk ''5001'' ''1001'')"
    by (simp add: model_defs s1_world_def)
  note t4 = session_never_expires [where w = s1_world and sessionId = "''session_1''"
      and stripe = "scripted_stripe [] True" and shop = scripted_shopify and later = 86400000
      and submitted = "Some [(''pi_1'', ''pm_1''), (''pi_2'', ''pm_2'')]"
      and orderId = "''5001''" and orderNumber = "''1001''" and request = ?complete
      and now = 1000]
  from t4 ok have gone: "widgetSessions ?w3 ''session_1'' = None"
    by simp
  from t4 have same: "handle_widget_request (scripted_stripe [] True) scripted_shopify 86400000
          ?complete s1_world
       = handle_widget_request (scripted_stripe [] True) scripted_shopify 1000
          ?complete s1_world"
    by simp
  note t5 = session_never_expires [where w = ?w3 and requested = "Some ''session_1''"
      and amount = "Cents 500" and stripe = "scripted_stripe [] True"
      and shop = scripted_shopify and later = 86400001]
  from t5 gone have nf: "snd (handle_widget_request (scripted_stripe [] True) scripted_shopify
      86400001 (CreatePaymentIntent (Some ''session_1'') (Cents 500)) ?w3)
       = Inl SESSION_NOT_FOUND"
    by (simp add: truthy_def amount_missing_def)
  from i a a1 b c d s ok gone nf same show ?thesis by blast
qed

end
